(* ===== verification/Prelude.thy ===== *)
theory Prelude
  imports "HOL-Library.Word"
begin

unbundle bit_operations_syntax

text \<open>
  The shared vocabulary of the development: the machine types of the C++ sources, the outcome of
  running a piece of imperative code (a result and a new state, or a fault that ends the process),
  and the generic lemmas on lists, words and outcomes that the component theories use.

  The sources are built for 64-bit Windows on x86 (little-endian, \<open>size_t\<close> of 64 bits,
  \<open>unsigned long\<close> of 32 bits); every width below is the one of that platform.
\<close>

section \<open>Machine types\<close>

type_synonym u8 = "8 word"
type_synonym u16 = "16 word"
type_synonym u32 = "32 word"
type_synonym u64 = "64 word"
type_synonym bytes = "u8 list"

section \<open>Outcomes of imperative code\<close>

text \<open>
  A C++ member function is a function from the state of its object to an \<open>outcome\<close>: it returns a
  value in a new state, or it runs into a fault. \<open>CheckFailed\<close> is a failed \<open>WTF_CHECK\<close>, which
  logs and aborts the process; the other faults are the undefined behaviours the sources can reach.
  \<open>OutOfFuel\<close> is no behaviour of the program: it marks a loop model that ran past its bound, and
  the theory of every such loop proves that the bound is large enough.
\<close>

datatype fault =
    CheckFailed
  | NullCall
  | NullDeref
  | OutOfBounds
  | IndeterminateRead
  | UndefinedValue
  | OutOfFuel

datatype ('a, 's) outcome = Ret 'a 's | Fault fault

fun andThen :: "('a, 's) outcome \<Rightarrow> ('a \<Rightarrow> 's \<Rightarrow> ('b, 't) outcome) \<Rightarrow> ('b, 't) outcome" where
  "andThen (Ret a s) f = f a s"
| "andThen (Fault e) f = Fault e"

definition wtf_check :: "bool \<Rightarrow> ('a, 's) outcome \<Rightarrow> ('a, 's) outcome" where
  "wtf_check c k = (if c then k else Fault CheckFailed)"

text \<open>What holds of the value and the state of a run that returns.\<close>

fun returns :: "('a \<Rightarrow> 's \<Rightarrow> bool) \<Rightarrow> ('a, 's) outcome \<Rightarrow> bool" where
  "returns P (Ret a s) = P a s"
| "returns P (Fault e) = False"

fun if_returns :: "('a \<Rightarrow> 's \<Rightarrow> bool) \<Rightarrow> ('a, 's) outcome \<Rightarrow> bool" where
  "if_returns P (Ret a s) = P a s"
| "if_returns P (Fault e) = True"

fun fault_of :: "('a, 's) outcome \<Rightarrow> fault option" where
  "fault_of (Ret a s) = None"
| "fault_of (Fault e) = Some e"

text \<open>
  \<open>ends F Q m\<close>: a run that returns satisfies \<open>Q\<close>, a run that faults does so with a fault in \<open>F\<close>.
  Its rules reduce a statement about a composed operation to its parts.
\<close>

fun ends :: "(fault \<Rightarrow> bool) \<Rightarrow> ('a \<Rightarrow> 's \<Rightarrow> bool) \<Rightarrow> ('a, 's) outcome \<Rightarrow> bool" where
  "ends F Q (Ret a s) = Q a s"
| "ends F Q (Fault e) = F e"

named_theorems ends_rules \<open>reduction of a statement over the outcome combinators\<close>

lemma ends_andThen [ends_rules]:
  "ends F Q (andThen m f) \<longleftrightarrow> ends F (\<lambda>a s. ends F Q (f a s)) m"
  by (cases m) simp_all

lemma ends_wtf_check [ends_rules]:
  "ends F Q (wtf_check c k) \<longleftrightarrow> (if c then ends F Q k else F CheckFailed)"
  by (simp add: wtf_check_def)

lemma ends_if [ends_rules]:
  "ends F Q (if c then m else n) \<longleftrightarrow> (c \<longrightarrow> ends F Q m) \<and> (\<not> c \<longrightarrow> ends F Q n)"
  by simp

lemma ends_mono:
  "ends F P m \<Longrightarrow> (\<And>a s. P a s \<Longrightarrow> Q a s) \<Longrightarrow> (\<And>e. F e \<Longrightarrow> G e) \<Longrightarrow> ends G Q m"
  by (cases m) auto

lemma ends_post: "ends F P m \<Longrightarrow> (\<And>a s. P a s \<Longrightarrow> Q a s) \<Longrightarrow> ends F Q m"
  by (cases m) auto

lemma ends_conj: "ends F P m \<Longrightarrow> ends F Q m \<Longrightarrow> ends F (\<lambda>a s. P a s \<and> Q a s) m"
  by (cases m) auto

lemma ends_Ret: "ends F Q m \<Longrightarrow> m = Ret a s \<Longrightarrow> Q a s"
  by simp

lemma ends_Fault: "ends F Q m \<Longrightarrow> m = Fault e \<Longrightarrow> F e"
  by simp

lemma andThen_assoc: "andThen (andThen m f) g = andThen m (\<lambda>a s. andThen (f a s) g)"
  by (cases m) simp_all

lemma andThen_eq_Ret:
  "andThen m f = Ret b t \<longleftrightarrow> (\<exists>a s. m = Ret a s \<and> f a s = Ret b t)"
  by (cases m) auto

lemma andThen_eq_Fault:
  "andThen m f = Fault e \<longleftrightarrow> m = Fault e \<or> (\<exists>a s. m = Ret a s \<and> f a s = Fault e)"
  by (cases m) auto

lemma wtf_check_True [simp]: "wtf_check True k = k"
  by (simp add: wtf_check_def)

lemma wtf_check_False [simp]: "wtf_check False k = Fault CheckFailed"
  by (simp add: wtf_check_def)

lemma wtf_check_eq_Ret: "wtf_check c k = Ret a s \<longleftrightarrow> c \<and> k = Ret a s"
  by (simp add: wtf_check_def)

lemma if_returns_andThen:
  "if_returns P (andThen m f) \<longleftrightarrow> if_returns (\<lambda>a s. if_returns P (f a s)) m"
  by (cases m) simp_all

lemma if_returns_wtf_check: "if_returns P (wtf_check c k) \<longleftrightarrow> (c \<longrightarrow> if_returns P k)"
  by (simp add: wtf_check_def)

lemma if_returns_if:
  "if_returns P (if c then m else n) \<longleftrightarrow> (c \<longrightarrow> if_returns P m) \<and> (\<not> c \<longrightarrow> if_returns P n)"
  by simp

lemma if_returns_mono:
  "if_returns P m \<Longrightarrow> (\<And>a s. P a s \<Longrightarrow> Q a s) \<Longrightarrow> if_returns Q m"
  by (cases m) auto

lemma if_returns_iff: "if_returns P m \<longleftrightarrow> (\<forall>a s. m = Ret a s \<longrightarrow> P a s)"
  by (cases m) auto

lemmas outcome_simps = andThen_eq_Ret andThen_eq_Fault wtf_check_eq_Ret

section \<open>Lists\<close>

lemma take_append_exact [simp]: "length xs = n \<Longrightarrow> take n (xs @ ys) = xs"
  by simp

lemma drop_append_exact [simp]: "length xs = n \<Longrightarrow> drop n (xs @ ys) = ys"
  by simp

lemma map_index_mono:
  "(\<And>i. i < length xs \<Longrightarrow> f i (xs ! i) = g i (xs ! i)) \<Longrightarrow>
   map (\<lambda>i. f i (xs ! i)) [0..<length xs] = map (\<lambda>i. g i (xs ! i)) [0..<length xs]"
  by (rule map_cong) auto

section \<open>Words\<close>

lemma unat_ucast_down: "unat (ucast (w :: 'a::len word) :: 'b::len word) = unat w mod 2 ^ LENGTH('b)"
  by (simp add: unsigned_ucast_eq take_bit_eq_mod)

lemma unat_lt_pow [simp]: "unat (w :: 'a::len word) < 2 ^ LENGTH('a)"
  by (rule unsigned_less)

lemma unat_of_byte: "n < 256 \<Longrightarrow> unat (of_nat n :: u8) = n"
  by (simp add: unsigned_of_nat take_bit_nat_eq_self)

lemma ucast_of_byte: "n < 256 \<Longrightarrow> ucast (of_nat n :: u8) = (of_nat n :: u32)"
  by (simp add: word_unat_eq_iff unsigned_ucast_eq unsigned_of_nat take_bit_nat_eq_self)

text \<open>Putting \<open>n\<close> low bits below a shifted word is addition.\<close>

lemma of_nat_or_push_bit:
  fixes x :: "'a::len word"
  assumes "k < 2 ^ n"
  shows "of_nat k OR push_bit n x = x * 2 ^ n + of_nat k"
proof -
  have k: "of_nat k = (take_bit n (of_nat k) :: 'a word)"
    using assms by (simp add: take_bit_of_nat take_bit_nat_eq_self)
  have "of_nat k AND push_bit n x = 0"
    by (subst k) (simp add: bit_eq_iff bit_simps)
  then show ?thesis
    by (simp add: push_bit_eq_mult add.commute flip: disjunctive_add_eq_or)
qed

section \<open>Strings\<close>

text \<open>
  A \<open>std::string\<close> is a list of characters; the bytes of a buffer and the characters of a string
  convert into each other one by one.
\<close>

definition byte_of_char :: "char \<Rightarrow> u8" where
  "byte_of_char c = of_nat (of_char c)"

definition char_of_byte :: "u8 \<Rightarrow> char" where
  "char_of_byte b = char_of (unat b)"

definition to_bytes :: "string \<Rightarrow> bytes" where
  "to_bytes s = map byte_of_char s"

definition of_bytes :: "bytes \<Rightarrow> string" where
  "of_bytes bs = map char_of_byte bs"

text \<open>A \<open>char*\<close> read as a C string ends before the first NUL.\<close>

definition c_str :: "string \<Rightarrow> string" where
  "c_str s = takeWhile (\<lambda>c. c \<noteq> CHR 0x00) s"

text \<open>The end of a line of a protocol text.\<close>

definition crlf :: string where
  "crlf = [CHR 0x0D, CHR 0x0A]"

lemma char_of_byte_of_char [simp]: "char_of_byte (byte_of_char c) = c"
  by (simp add: char_of_byte_def byte_of_char_def unsigned_of_nat take_bit_eq_mod)

lemma of_bytes_to_bytes [simp]: "of_bytes (to_bytes s) = s"
  by (simp add: of_bytes_def to_bytes_def comp_def)

lemma length_to_bytes [simp]: "length (to_bytes s) = length s"
  by (simp add: to_bytes_def)

lemma to_bytes_append [simp]: "to_bytes (s @ t) = to_bytes s @ to_bytes t"
  by (simp add: to_bytes_def)

lemma length_of_bytes [simp]: "length (of_bytes bs) = length bs"
  by (simp add: of_bytes_def)

lemma c_str_id: "CHR 0x00 \<notin> set s \<Longrightarrow> c_str s = s"
  by (auto simp: c_str_def takeWhile_eq_all_conv)

lemma NUL_c_str [simp]: "CHR 0x00 \<notin> set (c_str s)"
  by (auto simp: c_str_def dest: set_takeWhileD)

text \<open>\<open>tolower\<close> in the "C" locale: the letters A to Z only.\<close>

definition tolower :: "char \<Rightarrow> char" where
  "tolower c = (if 65 \<le> (of_char c :: nat) \<and> (of_char c :: nat) \<le> 90
                then char_of ((of_char c :: nat) + 32) else c)"

text \<open>\<open>isspace\<close> in the "C" locale.\<close>

definition isspace :: "char \<Rightarrow> bool" where
  "isspace c \<longleftrightarrow> (of_char c :: nat) = 32 \<or> (9 \<le> (of_char c :: nat) \<and> (of_char c :: nat) \<le> 13)"

definition isdigit :: "char \<Rightarrow> bool" where
  "isdigit c \<longleftrightarrow> 48 \<le> (of_char c :: nat) \<and> (of_char c :: nat) \<le> 57"

text \<open>Decimal notation: what \<open>%d\<close> and \<open>operator<<\<close> print of an \<open>int\<close>, and the value of a digit string.\<close>

definition digit_char :: "nat \<Rightarrow> char" where
  "digit_char d = char_of (48 + d)"

function dec_nat :: "nat \<Rightarrow> string" where
  "dec_nat n = (if n < 10 then [digit_char n] else dec_nat (n div 10) @ [digit_char (n mod 10)])"
  by pat_completeness auto
termination by (relation "measure id") auto

declare dec_nat.simps [simp del]

definition dec_int :: "int \<Rightarrow> string" where
  "dec_int v = (if v < 0 then CHR ''-'' # dec_nat (nat (- v)) else dec_nat (nat v))"

definition digit_value :: "char \<Rightarrow> nat" where
  "digit_value c = of_char c - 48"

definition digits_value :: "string \<Rightarrow> nat" where
  "digits_value ds = foldl (\<lambda>n c. 10 * n + digit_value c) 0 ds"

lemma digit_char_value [simp]: "d < 10 \<Longrightarrow> digit_value (digit_char d) = d"
  by (simp add: digit_value_def digit_char_def)

lemma isdigit_digit_char [simp]: "d < 10 \<Longrightarrow> isdigit (digit_char d)"
  by (simp add: isdigit_def digit_char_def)

lemma digits_value_dec_nat [simp]: "digits_value (dec_nat n) = n"
proof (induction n rule: dec_nat.induct)
  case (1 n)
  then show ?case
    by (subst dec_nat.simps) (simp add: digits_value_def)
qed

lemma isdigit_dec_nat: "list_all isdigit (dec_nat n)"
proof (induction n rule: dec_nat.induct)
  case (1 n)
  then show ?case by (subst dec_nat.simps) simp
qed

lemma dec_nat_not_Nil [simp]: "dec_nat n \<noteq> []"
  by (subst dec_nat.simps) simp

lemma takeWhile_digits:
  "list_all P ds \<Longrightarrow> rest = [] \<or> \<not> P (hd rest) \<Longrightarrow> takeWhile P (ds @ rest) = ds"
  by (induction ds) (cases rest; auto)+

lemma isspace_digit: "isdigit c \<Longrightarrow> \<not> isspace c \<and> c \<noteq> CHR ''-'' \<and> c \<noteq> CHR ''+''"
  by (auto simp: isdigit_def isspace_def)

end
