(* ===== verification/Ws_Types.thy ===== *)
theory Ws_Types
  imports Prelude
begin

text \<open>
  The enumerations, constants and the frame header record of
  \<^verbatim>\<open>src/net/ws_cli/ws_types.h\<close> and \<^verbatim>\<open>ws_state.h\<close>. Bit-fields are words of their declared width, so an
  assignment to one truncates. \<open>WSCloseStatus\<close> is an \<open>enum class\<close> whose values come from the wire
  through a cast, so it is an integer here and its enumerators are named constants.
\<close>

named_theorems ws_consts \<open>values of the protocol constants\<close>

definition WS_DEFAULT_CONNECT_TIMEOUT :: int where [ws_consts]: "WS_DEFAULT_CONNECT_TIMEOUT = 60"
definition HTTP_STATUS_SWITCHING_PROTOCOLS_101 :: int where
  [ws_consts]: "HTTP_STATUS_SWITCHING_PROTOCOLS_101 = 101"
definition WS_HDR_BASE_SIZE :: nat where [ws_consts]: "WS_HDR_BASE_SIZE = 2"
definition WS_HDR_PAYLOAD_LEN_SIZE :: nat where [ws_consts]: "WS_HDR_PAYLOAD_LEN_SIZE = 8"
definition WS_HDR_MASK_SIZE :: nat where [ws_consts]: "WS_HDR_MASK_SIZE = 4"
definition WS_HDR_MIN_SIZE :: nat where [ws_consts]: "WS_HDR_MIN_SIZE = WS_HDR_BASE_SIZE"
definition WS_HDR_MAX_SIZE :: nat where
  [ws_consts]: "WS_HDR_MAX_SIZE = WS_HDR_BASE_SIZE + WS_HDR_PAYLOAD_LEN_SIZE + WS_HDR_MASK_SIZE"

datatype WSOpcode =
    CONTINUATION_0X0 | TEXT_0X1 | BINARY_0X2
  | NON_CONTROL_RSV_0X3 | NON_CONTROL_RSV_0X4 | NON_CONTROL_RSV_0X5 | NON_CONTROL_RSV_0X6
  | NON_CONTROL_RSV_0X7
  | CLOSE_0X8 | PING_0X9 | PONG_0XA
  | CONTROL_RSV_0XB | CONTROL_RSV_0XC | CONTROL_RSV_0XD | CONTROL_RSV_0XE | CONTROL_RSV_0XF

fun opcode_value :: "WSOpcode \<Rightarrow> nat" where
  "opcode_value CONTINUATION_0X0 = 0"
| "opcode_value TEXT_0X1 = 1"
| "opcode_value BINARY_0X2 = 2"
| "opcode_value NON_CONTROL_RSV_0X3 = 3"
| "opcode_value NON_CONTROL_RSV_0X4 = 4"
| "opcode_value NON_CONTROL_RSV_0X5 = 5"
| "opcode_value NON_CONTROL_RSV_0X6 = 6"
| "opcode_value NON_CONTROL_RSV_0X7 = 7"
| "opcode_value CLOSE_0X8 = 8"
| "opcode_value PING_0X9 = 9"
| "opcode_value PONG_0XA = 10"
| "opcode_value CONTROL_RSV_0XB = 11"
| "opcode_value CONTROL_RSV_0XC = 12"
| "opcode_value CONTROL_RSV_0XD = 13"
| "opcode_value CONTROL_RSV_0XE = 14"
| "opcode_value CONTROL_RSV_0XF = 15"

record WSHeader =
  fin :: "1 word"
  rsv1 :: "1 word"
  rsv2 :: "1 word"
  rsv3 :: "1 word"
  opcode :: "4 word"
  maskBit :: "1 word"
  payloadLen :: "7 word"
  exPayloadLen :: u64
  mask_key :: u32

text \<open>\<open>wsHeader_ = {0}\<close>.\<close>

definition WSHeader0 :: WSHeader where
  "WSHeader0 = \<lparr>fin = 0, rsv1 = 0, rsv2 = 0, rsv3 = 0, opcode = 0, maskBit = 0, payloadLen = 0,
     exPayloadLen = 0, mask_key = 0\<rparr>"

text \<open>Comparing the 4-bit \<open>opcode\<close> field with an enumerator.\<close>

definition has_opcode :: "WSHeader \<Rightarrow> WSOpcode \<Rightarrow> bool" where
  "has_opcode h op \<longleftrightarrow> unat (opcode h) = opcode_value op"

definition WS_MAX_PAYLOAD_LEN :: nat where [ws_consts]: "WS_MAX_PAYLOAD_LEN = 0x7FFFFFFFFFFFFFFF"
definition WS_CONTROL_MAX_PAYLOAD_LEN :: nat where [ws_consts]: "WS_CONTROL_MAX_PAYLOAD_LEN = 125"

datatype WSSendState = SEND_NONE | MESSAGE_BEGIN | IN_MESSAGE | IN_MESSAGE_PAYLOAD

datatype WSConnectState =
  CONN_ERROR | CONN_NONE | SENT_REQ | PARSED_STATUS | PARSED_HEADERS | HANDSHAKE_COMPLETE

datatype WSParseState = USER_ABORT | PARSE_ERROR | SUCCESS | NEED_MORE

datatype WSState =
  DNS_LOOKUP | CLOSING | CLOSING_UNCLEANLY | CLOSED_CLEANLY | CLOSED_UNCLEANLY | CONNECTING | CONNECTED

definition WS_HAS_VALID_UPGRADE_HEADER :: u8 where
  [ws_consts]: "WS_HAS_VALID_UPGRADE_HEADER = push_bit 0 1"
definition WS_HAS_VALID_CONNECTION_HEADER :: u8 where
  [ws_consts]: "WS_HAS_VALID_CONNECTION_HEADER = push_bit 1 1"
definition WS_HAS_VALID_WS_ACCEPT_HEADER :: u8 where
  [ws_consts]: "WS_HAS_VALID_WS_ACCEPT_HEADER = push_bit 2 1"
definition WS_HAS_VALID_WS_EXT_HEADER :: u8 where
  [ws_consts]: "WS_HAS_VALID_WS_EXT_HEADER = push_bit 3 1"
definition WS_HAS_VALID_WS_PROTOCOL_HEADER :: u8 where
  [ws_consts]: "WS_HAS_VALID_WS_PROTOCOL_HEADER = push_bit 4 1"

type_synonym WSCloseStatus = int

definition NORMAL_1000 :: WSCloseStatus where [ws_consts]: "NORMAL_1000 = 1000"
definition GOING_AWAY_1001 :: WSCloseStatus where [ws_consts]: "GOING_AWAY_1001 = 1001"
definition PROTOCOL_ERR_1002 :: WSCloseStatus where [ws_consts]: "PROTOCOL_ERR_1002 = 1002"
definition UNSUPPORTED_DATA_1003 :: WSCloseStatus where [ws_consts]: "UNSUPPORTED_DATA_1003 = 1003"
definition STATUS_CODE_EXPECTED_1005 :: WSCloseStatus where
  [ws_consts]: "STATUS_CODE_EXPECTED_1005 = 1005"
definition ABNORMAL_1006 :: WSCloseStatus where [ws_consts]: "ABNORMAL_1006 = 1006"
definition INCONSISTENT_DATA_1007 :: WSCloseStatus where [ws_consts]: "INCONSISTENT_DATA_1007 = 1007"
definition POLICY_VIOLATION_1008 :: WSCloseStatus where [ws_consts]: "POLICY_VIOLATION_1008 = 1008"
definition MESSAGE_TOO_BIG_1009 :: WSCloseStatus where [ws_consts]: "MESSAGE_TOO_BIG_1009 = 1009"
definition EXTENSION_NOT_NEGOTIATED_1010 :: WSCloseStatus where
  [ws_consts]: "EXTENSION_NOT_NEGOTIATED_1010 = 1010"
definition UNEXPECTED_CONDITION_1011 :: WSCloseStatus where
  [ws_consts]: "UNEXPECTED_CONDITION_1011 = 1011"

definition WS_IS_CLOSE_STATUS_NOT_USED :: "WSCloseStatus \<Rightarrow> bool" where
  "WS_IS_CLOSE_STATUS_NOT_USED code \<longleftrightarrow> code < 1000 \<or> code > 4999"

definition WS_IS_CLOSE_STATUS_IANA_RESERVED :: "WSCloseStatus \<Rightarrow> bool" where
  "WS_IS_CLOSE_STATUS_IANA_RESERVED code \<longleftrightarrow> code \<ge> 3000 \<and> code \<le> 3999"

definition WS_IS_CLOSE_STATUS_PRIVATE_USE :: "WSCloseStatus \<Rightarrow> bool" where
  "WS_IS_CLOSE_STATUS_PRIVATE_USE code \<longleftrightarrow> code \<ge> 4000 \<and> code \<le> 4999"

definition WS_IS_PEER_CLOSE_STATUS_VALID :: "WSCloseStatus \<Rightarrow> bool" where
  "WS_IS_PEER_CLOSE_STATUS_VALID code \<longleftrightarrow>
     WS_IS_CLOSE_STATUS_IANA_RESERVED code \<or> WS_IS_CLOSE_STATUS_PRIVATE_USE code \<or>
     code = NORMAL_1000 \<or> code = GOING_AWAY_1001 \<or> code = PROTOCOL_ERR_1002 \<or>
     code = UNSUPPORTED_DATA_1003 \<or> code = INCONSISTENT_DATA_1007 \<or>
     code = POLICY_VIOLATION_1008 \<or> code = MESSAGE_TOO_BIG_1009 \<or>
     code = EXTENSION_NOT_NEGOTIATED_1010 \<or> code = UNEXPECTED_CONDITION_1011"

lemma opcode_value_inject [simp]: "opcode_value a = opcode_value b \<longleftrightarrow> a = b"
  by (cases a; cases b) simp_all

lemma peer_valid_is_used: "WS_IS_PEER_CLOSE_STATUS_VALID code \<Longrightarrow> \<not> WS_IS_CLOSE_STATUS_NOT_USED code"
  by (auto simp: WS_IS_PEER_CLOSE_STATUS_VALID_def WS_IS_CLOSE_STATUS_NOT_USED_def
      WS_IS_CLOSE_STATUS_IANA_RESERVED_def WS_IS_CLOSE_STATUS_PRIVATE_USE_def ws_consts)

end
