(* ===== verification/Byte_Order.thy ===== *)
theory Byte_Order
  imports Prelude
begin

text \<open>
  How integers lie in memory and on the wire, and the payload masking built on it:
  \<open>EncodeN2H64\<close>, \<open>EncodeH2N64\<close>, \<open>GetRandomMask\<close> and \<open>MaskPayload\<close> of
  \<^verbatim>\<open>src/net/ws_cli/util.cpp\<close>, \<open>UnmaskPayload\<close> of the libevent session, and the host's byte
  order. The lemmas show that the byte swap is an involution, that the masking loop is a pointwise
  exclusive or with a key of period four, and that masking twice restores the message.
\<close>

section \<open>Memory layout of a little-endian host\<close>

fun load_le :: "bytes \<Rightarrow> 'a::len word" where
  "load_le [] = 0"
| "load_le (b # bs) = ucast b OR push_bit 8 (load_le bs)"

fun store_le :: "nat \<Rightarrow> 'a::len word \<Rightarrow> bytes" where
  "store_le 0 w = []"
| "store_le (Suc n) w = ucast w # store_le n (drop_bit 8 w)"

lemma length_store_le [simp]: "length (store_le n w) = n"
  by (induction n arbitrary: w) simp_all

lemma load_le_store_le: "load_le (store_le n w) = take_bit (8 * n) w"
proof (induction n arbitrary: w)
  case 0
  then show ?case by simp
next
  case (Suc n)
  show ?case
    by (rule bit_word_eqI)
      (auto simp: Suc bit_simps dest: bit_imp_le_length)
qed

lemma store_le_load_le:
  "length bs = n \<Longrightarrow> 8 * n \<le> LENGTH('a) \<Longrightarrow> store_le n (load_le bs :: 'a::len word) = bs"
proof (induction n arbitrary: bs)
  case 0
  then show ?case by simp
next
  case (Suc n)
  then obtain b bs' where bs: "bs = b # bs'" "length bs' = n"
    by (cases bs) auto
  have len: "8 * n \<le> LENGTH('a)" and le: "8 + 8 * n \<le> LENGTH('a)"
    using Suc.prems by simp_all
  have hd: "ucast (ucast b OR push_bit 8 (load_le bs' :: 'a word)) = b"
    by (rule bit_word_eqI) (use le in \<open>auto simp: bit_simps\<close>)
  have load: "take_bit (8 * n) (load_le bs' :: 'a word) = load_le bs'"
    using Suc.IH [OF bs(2) len] load_le_store_le [of n "load_le bs' :: 'a word"] by simp
  have small: "8 + i < LENGTH('a)" if "bit (load_le bs' :: 'a word) i" for i
  proof -
    from that load have "i < 8 * n" by (metis bit_take_bit_iff)
    with le show ?thesis by linarith
  qed
  have "\<not> bit b (8 + i)" for i
    by (auto dest: bit_imp_le_length)
  then have tl: "drop_bit 8 (ucast b OR push_bit 8 (load_le bs' :: 'a word)) = load_le bs'"
    by (intro bit_word_eqI) (auto simp: bit_simps dest: small)
  show ?case
    unfolding bs(1) load_le.simps store_le.simps hd tl using Suc.IH [OF bs(2) len] by simp
qed

lemma load_le_inject:
  "length bs = n \<Longrightarrow> length cs = n \<Longrightarrow> 8 * n \<le> LENGTH('a) \<Longrightarrow>
   (load_le bs :: 'a::len word) = load_le cs \<longleftrightarrow> bs = cs"
  by (metis store_le_load_le)

lemma store_le_inject:
  "LENGTH('a) = 8 * n \<Longrightarrow> store_le n (v :: 'a::len word) = store_le n w \<longleftrightarrow> v = w"
  by (metis load_le_store_le take_bit_length_eq)

section \<open>Network byte order\<close>

text \<open>\<open>htons\<close> and \<open>ntohs\<close> of a little-endian host swap the two bytes.\<close>

definition htons :: "u16 \<Rightarrow> u16" where
  "htons x = load_le (rev (store_le 2 x))"

definition ntohs :: "u16 \<Rightarrow> u16" where
  "ntohs x = load_le (rev (store_le 2 x))"

definition EncodeN2H64 :: "u64 \<Rightarrow> u64" where
  "EncodeN2H64 input = load_le
     [ucast (drop_bit 56 input), ucast (drop_bit 48 input), ucast (drop_bit 40 input),
      ucast (drop_bit 32 input), ucast (drop_bit 24 input), ucast (drop_bit 16 input),
      ucast (drop_bit 8 input), ucast (drop_bit 0 input)]"

definition EncodeH2N64 :: "u64 \<Rightarrow> u64" where
  "EncodeH2N64 input = EncodeN2H64 input"

lemma ntohs_htons [simp]: "ntohs (htons x) = x"
  proof -
  have "store_le 2 (ntohs (htons x)) = store_le 2 x"
    by (simp add: ntohs_def htons_def store_le_load_le)
  then show ?thesis by (simp add: store_le_inject)
qed

lemma store_le_htons: "store_le 2 (htons x) = rev (store_le 2 x)"
  by (simp add: htons_def store_le_load_le)

lemma store_le_EncodeN2H64: "store_le 8 (EncodeN2H64 x) = rev (store_le 8 x)"
proof -
  have "EncodeN2H64 x = load_le (rev (store_le 8 x))"
    by (simp add: EncodeN2H64_def numeral_eq_Suc)
  then show ?thesis by (simp add: store_le_load_le)
qed

lemma EncodeN2H64_invol: "EncodeN2H64 (EncodeN2H64 x) = x"
proof -
  have "store_le 8 (EncodeN2H64 (EncodeN2H64 x)) = store_le 8 x"
    by (simp add: store_le_EncodeN2H64)
  then show ?thesis by (simp add: store_le_inject)
qed

section \<open>Masking\<close>

text \<open>
  \<open>rand_s\<close> is the platform's random source: an argument of the model, a function of the state of
  the outside world. The loop fills the buffer byte by byte and the function returns the count.
\<close>

fun GetRandomMask :: "('w \<Rightarrow> u32 \<times> 'w) \<Rightarrow> nat \<Rightarrow> 'w \<Rightarrow> bytes \<times> nat \<times> 'w" where
  "GetRandomMask rand_s 0 w = ([], 0, w)"
| "GetRandomMask rand_s (Suc len) w =
     (let (tmp, w1) = rand_s w; (buf, i, w2) = GetRandomMask rand_s len w1
      in (ucast tmp # buf, Suc i, w2))"

lemma GetRandomMask_count:
  "GetRandomMask rand_s len w = (buf, i, w') \<Longrightarrow> i = len \<and> length buf = len"
  by (induction len arbitrary: w buf i w') (auto split: prod.splits)

definition mask_step :: "bytes \<Rightarrow> nat \<Rightarrow> bytes \<Rightarrow> bytes" where
  "mask_step m i p = p[i := (p ! i) XOR (m ! (i mod 4))]"

definition MaskPayload :: "u32 \<Rightarrow> bytes \<Rightarrow> nat \<Rightarrow> bytes" where
  "MaskPayload key msg len =
     (let m = store_le 4 key in
      if msg = [] \<or> len = 0 then msg else fold (mask_step m) [0..<len] msg)"

definition UnmaskPayload :: "u32 \<Rightarrow> bytes \<Rightarrow> nat \<Rightarrow> bytes" where
  "UnmaskPayload key msg len = MaskPayload key msg len"

text \<open>The reference: byte \<open>i\<close> is combined with byte \<open>i mod 4\<close> of the key.\<close>

definition xor_key :: "bytes \<Rightarrow> bytes \<Rightarrow> bytes" where
  "xor_key m p = map (\<lambda>i. (p ! i) XOR (m ! (i mod 4))) [0..<length p]"

lemma length_xor_key [simp]: "length (xor_key m p) = length p"
  by (simp add: xor_key_def)

lemma xor_key_Nil [simp]: "xor_key m [] = []"
  by (simp add: xor_key_def)

lemma nth_xor_key [simp]: "i < length p \<Longrightarrow> xor_key m p ! i = (p ! i) XOR (m ! (i mod 4))"
  by (simp add: xor_key_def)

lemma xor_key_invol [simp]: "xor_key m (xor_key m p) = p"
  by (rule nth_equalityI) (simp_all add: xor.assoc)

lemma mask_loop:
  "n \<le> length p \<Longrightarrow> fold (mask_step m) [0..<n] p = take n (xor_key m p) @ drop n p"
proof (induction n)
  case 0
  then show ?case by simp
next
  case (Suc n)
  then have "fold (mask_step m) [0..<Suc n] p = mask_step m n (take n (xor_key m p) @ drop n p)"
    by simp
  also have "\<dots> = take (Suc n) (xor_key m p) @ drop (Suc n) p"
    using Suc.prems
    by (intro nth_equalityI) (auto simp: mask_step_def nth_append nth_list_update less_Suc_eq)
  finally show ?case .
qed

lemma MaskPayload_prefix:
  "len \<le> length msg \<Longrightarrow>
   MaskPayload key msg len = take len (xor_key (store_le 4 key) msg) @ drop len msg"
  by (auto simp: MaskPayload_def mask_loop)

lemma MaskPayload_eq: "MaskPayload key msg (length msg) = xor_key (store_le 4 key) msg"
  by (simp add: MaskPayload_prefix)

lemma MaskPayload_Nil [simp]: "MaskPayload key [] n = []"
  by (simp add: MaskPayload_def)

lemma length_MaskPayload [simp]: "n \<le> length msg \<Longrightarrow> length (MaskPayload key msg n) = length msg"
  by (simp add: MaskPayload_prefix)

lemma UnmaskPayload_eq: "UnmaskPayload key msg (length msg) = xor_key (store_le 4 key) msg"
  by (simp add: UnmaskPayload_def MaskPayload_eq)

end
