(* ===== verification/Ws_Header.thy ===== *)
theory Ws_Header
  imports Ws_Types Byte_Order
begin

text \<open>
  Packing and unpacking of frame headers: \<^verbatim>\<open>src/net/ws_cli/ws_header.{h,cpp}\<close>, the opcode names of
  \<^verbatim>\<open>util.cpp\<close>, and \<open>UnpackHeader\<close> of \<^verbatim>\<open>implement/ev/session_impl_ev.cpp\<close>. The reference is the
  wire format of RFC 6455, section 5.2. The lemmas show that what is packed is that format for the
  7-bit length the header record can hold, and that unpacking inverts packing.
\<close>

section \<open>Opcodes\<close>

definition IsControlOpcode :: "nat \<Rightarrow> bool" where
  "IsControlOpcode code \<longleftrightarrow> code \<ge> opcode_value CLOSE_0X8 \<and> code \<le> opcode_value CONTROL_RSV_0XF"

definition IsReservedControlOpcode :: "nat \<Rightarrow> bool" where
  "IsReservedControlOpcode code \<longleftrightarrow>
     code \<ge> opcode_value CONTROL_RSV_0XB \<and> code \<le> opcode_value CONTROL_RSV_0XF"

definition IsReservedNonControlOpcode :: "nat \<Rightarrow> bool" where
  "IsReservedNonControlOpcode code \<longleftrightarrow>
     code \<ge> opcode_value NON_CONTROL_RSV_0X3 \<and> code \<le> opcode_value NON_CONTROL_RSV_0X7"

definition IsReservedOpcode :: "nat \<Rightarrow> bool" where
  "IsReservedOpcode code \<longleftrightarrow> IsReservedControlOpcode code \<or> IsReservedNonControlOpcode code"

definition opcodesStr :: "string list" where
  "opcodesStr =
    [''continuation'', ''text'', ''binary'',
     ''non control reserved'', ''non control reserved'', ''non control reserved'',
     ''non control reserved'', ''non control reserved'',
     ''close'', ''ping'', ''pong'',
     ''control reserved'', ''control reserved'', ''control reserved'', ''control reserved'',
     ''control reserved'']"

definition Opcode2Str :: "nat \<Rightarrow> string option" where
  "Opcode2Str code = (if code \<ge> 0 \<and> code \<le> 0xF then Some (opcodesStr ! code) else None)"

section \<open>Packing\<close>

text \<open>Storing \<open>bs\<close> into a buffer at an offset.\<close>

definition write_at :: "bytes \<Rightarrow> nat \<Rightarrow> bytes \<Rightarrow> bytes" where
  "write_at b off bs = take off b @ bs @ drop (off + length bs) b"

definition flag_bit :: "1 word \<Rightarrow> u8" where
  "flag_bit f = (if f \<noteq> 0 then 1 else 0)"

definition PackHeaderFirstByte :: "WSHeader \<Rightarrow> bytes \<Rightarrow> bytes" where
  "PackHeaderFirstByte h b =
     (let b = b[0 := 0];
          b = b[0 := b ! 0 OR push_bit 7 (flag_bit (fin h))];
          b = b[0 := b ! 0 OR push_bit 6 (flag_bit (rsv1 h))];
          b = b[0 := b ! 0 OR push_bit 5 (flag_bit (rsv2 h))];
          b = b[0 := b ! 0 OR push_bit 4 (flag_bit (rsv3 h))]
      in b[0 := b ! 0 OR (ucast (opcode h) AND 0xF)])"

definition PackHeaderRest :: "WSHeader \<Rightarrow> bytes \<Rightarrow> nat \<Rightarrow> (nat, bytes) outcome" where
  "PackHeaderRest h b len =
     wtf_check (len \<ge> WS_HDR_MAX_SIZE)
     (wtf_check (unat (payloadLen h) \<le> WS_MAX_PAYLOAD_LEN)
       (let b = b[1 := 0];
            b = b[1 := b ! 1 OR push_bit 7 (flag_bit (maskBit h))];
            header_len = 2;
            (b, header_len) =
              (if unat (payloadLen h) \<le> 125
               then (b[1 := b ! 1 OR ucast (payloadLen h)], header_len)
               else if unat (payloadLen h) \<le> 0xFFFF
               then (write_at (b[1 := b ! 1 OR 126]) 2 (store_le 2 (htons (ucast (payloadLen h)))),
                     header_len + 2)
               else (write_at (b[1 := b ! 1 OR 127]) 2 (store_le 8 (EncodeH2N64 (ucast (payloadLen h)))),
                     header_len + 8))
        in if maskBit h \<noteq> 0
           then Ret (header_len + 4) (write_at b header_len (store_le 4 (mask_key h)))
           else Ret header_len b))"

definition PackHeader :: "WSHeader \<Rightarrow> bytes \<Rightarrow> nat \<Rightarrow> (nat, bytes) outcome" where
  "PackHeader h b len = PackHeaderRest h (PackHeaderFirstByte h b) len"

section \<open>Unpacking\<close>

text \<open>
  \<open>UnpackHeader\<close> returns the parse state, the new value of \<open>wsHeader_\<close> and \<open>headerLen\<close>, which is
  \<open>None\<close> where the code leaves it unset. \<open>b\<close> is the whole 14-byte buffer, of which \<open>len\<close> bytes were
  read; the masking key is fetched without comparing against \<open>len\<close>.
\<close>

definition UnpackHeader :: "bytes \<Rightarrow> nat \<Rightarrow> WSParseState \<times> WSHeader \<times> nat option" where
  "UnpackHeader b len =
     (let h = WSHeader0 in
      if len < WS_HDR_MIN_SIZE then (NEED_MORE, h, None)
      else
        (let h = h\<lparr>fin := ucast (drop_bit 7 (b ! 0) AND 0x1)\<rparr>;
             h = h\<lparr>rsv1 := ucast (drop_bit 6 (b ! 0) AND 0x1)\<rparr>;
             h = h\<lparr>rsv2 := ucast (drop_bit 5 (b ! 0) AND 0x1)\<rparr>;
             h = h\<lparr>rsv3 := ucast (drop_bit 4 (b ! 0) AND 0x1)\<rparr>;
             h = h\<lparr>opcode := ucast (b ! 0 AND 0xF)\<rparr>;
             h = h\<lparr>maskBit := ucast (drop_bit 7 (b ! 1) AND 0x1)\<rparr>;
             h = h\<lparr>payloadLen := ucast (b ! 1 AND 0x7F)\<rparr>;
             headerLen = 2;
             (more, h, headerLen) =
               (if unat (payloadLen h) = 126 then
                  (if len < headerLen + 2 then (True, h, headerLen)
                   else (False, h\<lparr>payloadLen := ucast (ntohs (load_le (take 2 (drop 2 b))))\<rparr>, headerLen + 2))
                else if unat (payloadLen h) = 127 then
                  (if len < headerLen + 8 then (True, h, headerLen)
                   else (False, h\<lparr>payloadLen := ucast (EncodeN2H64 (load_le (take 8 (drop 2 b))))\<rparr>, headerLen + 8))
                else (False, h, headerLen))
         in if more then (NEED_MORE, h, Some headerLen)
            else if maskBit h \<noteq> 0 then
              (SUCCESS, h\<lparr>mask_key := load_le (take 4 (drop headerLen b))\<rparr>, Some (headerLen + 4))
            else (SUCCESS, h, Some headerLen)))"

section \<open>The wire format of RFC 6455\<close>

text \<open>Reference: the header of a frame with a payload of \<open>n\<close> bytes, lengths big-endian.\<close>

definition be_bytes :: "nat \<Rightarrow> nat \<Rightarrow> bytes" where
  "be_bytes k n = rev (map (\<lambda>i. of_nat (n div 256 ^ i)) [0..<k])"

definition rfc_header :: "WSHeader \<Rightarrow> nat \<Rightarrow> bytes" where
  "rfc_header h n =
     [of_nat (unat (fin h) * 128 + unat (rsv1 h) * 64 + unat (rsv2 h) * 32 + unat (rsv3 h) * 16
        + unat (opcode h)),
      of_nat (unat (maskBit h) * 128 + (if n \<le> 125 then n else if n \<le> 0xFFFF then 126 else 127))]
     @ (if n \<le> 125 then [] else if n \<le> 0xFFFF then be_bytes 2 n else be_bytes 8 n)
     @ (if maskBit h \<noteq> 0 then store_le 4 (mask_key h) else [])"

section \<open>Packing is the wire format\<close>

lemma bit1_cases: "(w :: 1 word) = 0 \<or> w = 1"
proof -
  have "unat w = 0 \<or> unat w = 1" using unat_lt_pow [of w] by auto
  then show ?thesis by (simp add: word_unat_eq_iff)
qed

lemma flag_bit_eq: "flag_bit f = of_nat (unat f)"
  using bit1_cases [of f] by (auto simp: flag_bit_def)

lemma ucast_small: "LENGTH('a) \<le> LENGTH('b) \<Longrightarrow> ucast (w :: 'a::len word) = (of_nat (unat w) :: 'b::len word)"
  by simp

lemma first_byte:
  "((((0 OR push_bit 7 (flag_bit f)) OR push_bit 6 (flag_bit r1)) OR push_bit 5 (flag_bit r2))
     OR push_bit 4 (flag_bit r3)) OR (ucast (w :: 4 word) AND 0xF) =
   of_nat (unat f * 128 + unat r1 * 64 + unat r2 * 32 + unat r3 * 16 + unat w)"
proof -
  have w: "unat w < 2 ^ 4" using unat_lt_pow [of w] by simp
  have op: "ucast w AND 0xF = (of_nat (unat w) :: u8)"
    using take_bit_eq_mask [of 4 "ucast w :: u8"] w
    by (simp add: mask_eq_exp_minus_1 take_bit_eq_mod word_unat_eq_iff unat_mod_distrib
        unat_ucast_down and.commute)
  have "(((0 OR push_bit 7 (flag_bit f)) OR push_bit 6 (flag_bit r1)) OR push_bit 5 (flag_bit r2))
      OR push_bit 4 (flag_bit r3) =
    push_bit 4 (of_nat (unat f * 8 + unat r1 * 4 + unat r2 * 2 + unat r3))"
    using bit1_cases [of f] bit1_cases [of r1] bit1_cases [of r2] bit1_cases [of r3]
    by (elim disjE) (simp_all add: flag_bit_def)
  then show ?thesis
    unfolding op
    using of_nat_or_push_bit [OF w, of "of_nat (unat f * 8 + unat r1 * 4 + unat r2 * 2 + unat r3) :: u8"]
    by (simp add: or.commute algebra_simps del: of_nat_unat)
qed

lemma second_byte:
  "n < 128 \<Longrightarrow> (0 OR push_bit 7 (flag_bit f)) OR of_nat n = (of_nat (unat f * 128 + n) :: u8)"
  using of_nat_or_push_bit [of n 7 "flag_bit f"]
  by (simp add: flag_bit_eq or.commute)

lemma be_bytes_2: "be_bytes 2 n = [of_nat (n div 256), of_nat n]"
  by (simp add: be_bytes_def numeral_2_eq_2)

lemma store_le_2: "store_le 2 w = [ucast w, ucast (drop_bit 8 w)]"
  by (simp add: numeral_2_eq_2)

lemma store_le_length: "store_le 2 (htons (ucast (p :: 7 word))) = be_bytes 2 (unat p)"
proof -
  have "unat p < 128" using unat_lt_pow [of p] by simp
  moreover from this have "drop_bit 8 (ucast p :: u16) = 0"
    by (simp add: word_unat_eq_iff drop_bit_eq_div unat_div_distrib unat_ucast_down)
  ultimately show ?thesis
    unfolding store_le_htons
    by (simp add: store_le_2 be_bytes_2 word_unat_eq_iff unat_ucast_down)
qed

lemma list_14:
  assumes "14 \<le> length (b :: 'a list)"
  obtains b0 b1 b2 b3 r where "b = b0 # b1 # b2 # b3 # r" "10 \<le> length r"
proof -
  have "b \<noteq> []" using assms by auto
  then have "b = b ! 0 # b ! 1 # b ! 2 # b ! 3 # drop 4 b"
    using assms Cons_nth_drop_Suc [of 0 b] Cons_nth_drop_Suc [of 1 b] Cons_nth_drop_Suc [of 2 b]
      Cons_nth_drop_Suc [of 3 b] by (simp add: eval_nat_numeral)
  moreover have "10 \<le> length (drop 4 b)" using assms by simp
  ultimately show ?thesis by (rule that)
qed

lemma length_rfc_header:
  "n < 128 \<Longrightarrow> length (rfc_header h n) = 2 + (if n \<le> 125 then 0 else 2) + (if maskBit h = 0 then 0 else 4)"
  by (simp add: rfc_header_def be_bytes_def)

lemma PackHeader_rfc:
  fixes h :: WSHeader
  assumes "14 \<le> length b" "14 \<le> len"
  defines "out \<equiv> rfc_header h (unat (payloadLen h))"
  shows "PackHeader h b len = Ret (length out) (out @ drop (length out) b)"
proof -
  obtain b0 b1 b2 b3 r where b: "b = b0 # b1 # b2 # b3 # r" "10 \<le> length r"
    using list_14 [OF assms(1)] .
  have p: "unat (payloadLen h) < 128" using unat_lt_pow [of "payloadLen h"] by simp
  have first: "PackHeaderFirstByte h b = of_nat (unat (fin h) * 128 + unat (rsv1 h) * 64 +
      unat (rsv2 h) * 32 + unat (rsv3 h) * 16 + unat (opcode h)) # b1 # b2 # b3 # r"
    unfolding PackHeaderFirstByte_def Let_def first_byte [symmetric] b(1) by simp
  show ?thesis
    unfolding PackHeader_def first PackHeaderRest_def out_def rfc_header_def Let_def
    using p assms(2) b(2) second_byte [OF p, of "maskBit h"] second_byte [of 126 "maskBit h"]
    by (simp add: b ws_consts store_le_length write_at_def be_bytes_2)
qed

section \<open>Unpacking inverts packing\<close>

lemma unpack_fields:
  fixes B :: u8
  shows "unat (ucast (drop_bit 7 B AND 0x1) :: 1 word) = unat B div 128 mod 2"
    "unat (ucast (drop_bit 6 B AND 0x1) :: 1 word) = unat B div 64 mod 2"
    "unat (ucast (drop_bit 5 B AND 0x1) :: 1 word) = unat B div 32 mod 2"
    "unat (ucast (drop_bit 4 B AND 0x1) :: 1 word) = unat B div 16 mod 2"
    "unat (ucast (B AND 0xF) :: 4 word) = unat B mod 16"
    "unat (ucast (B AND 0x7F) :: 7 word) = unat B mod 128"
proof -
  have and_low: "B AND 0xF = B mod 16" "B AND 0x7F = B mod 128"
    using take_bit_eq_mask [of 4 B] take_bit_eq_mask [of 7 B]
    by (simp_all add: mask_eq_exp_minus_1 take_bit_eq_mod)
  show "unat (ucast (drop_bit 7 B AND 0x1) :: 1 word) = unat B div 128 mod 2"
    "unat (ucast (drop_bit 6 B AND 0x1) :: 1 word) = unat B div 64 mod 2"
    "unat (ucast (drop_bit 5 B AND 0x1) :: 1 word) = unat B div 32 mod 2"
    "unat (ucast (drop_bit 4 B AND 0x1) :: 1 word) = unat B div 16 mod 2"
    "unat (ucast (B AND 0xF) :: 4 word) = unat B mod 16"
    "unat (ucast (B AND 0x7F) :: 7 word) = unat B mod 128"
    unfolding and_low
    by (simp_all add: unat_ucast_down drop_bit_eq_div and_one_eq unat_div_distrib unat_mod_distrib)
qed

lemma first_byte_value:
  fixes f r1 r2 r3 :: "1 word" and w :: "4 word"
  defines "N \<equiv> unat f * 128 + unat r1 * 64 + unat r2 * 32 + unat r3 * 16 + unat w"
  shows "unat (of_nat N :: u8) = N" "N div 128 mod 2 = unat f" "N div 64 mod 2 = unat r1"
    "N div 32 mod 2 = unat r2" "N div 16 mod 2 = unat r3" "N mod 16 = unat w"
proof -
  have w: "unat w < 16" using unat_lt_pow [of w] by simp
  have f: "unat f < 2" "unat r1 < 2" "unat r2 < 2" "unat r3 < 2"
    using unat_lt_pow [of f] unat_lt_pow [of r1] unat_lt_pow [of r2] unat_lt_pow [of r3] by simp_all
  have "N < 256" unfolding N_def using w f by linarith
  then show "unat (of_nat N :: u8) = N" by (rule unat_of_byte)
  have N: "N = (((unat f * 2 + unat r1) * 2 + unat r2) * 2 + unat r3) * 16 + unat w"
    unfolding N_def by simp
  have d: "(x * 2 + y) div 2 = x" "(x * 2 + y) mod 2 = y" if "y < 2" for x y :: nat using that by simp_all
  have d16: "(x * 16 + y) div 16 = x" "(x * 16 + y) mod 16 = y" if "y < 16" for x y :: nat
    using that by simp_all
  have N16: "N div 16 = ((unat f * 2 + unat r1) * 2 + unat r2) * 2 + unat r3" "N mod 16 = unat w"
    unfolding N by (rule d16 [OF w])+
  have split: "N div 128 = N div 16 div 2 div 2 div 2" "N div 64 = N div 16 div 2 div 2"
    "N div 32 = N div 16 div 2"
    by (simp_all add: div_mult2_eq [symmetric])
  show "N div 128 mod 2 = unat f" "N div 64 mod 2 = unat r1" "N div 32 mod 2 = unat r2"
    "N div 16 mod 2 = unat r3" "N mod 16 = unat w"
    unfolding split N16 d [OF f(4)] d [OF f(3)] d [OF f(2)] using f(1) by simp_all
qed

text \<open>What a header keeps on the wire: no \<open>exPayloadLen\<close>, a key only when the mask bit is set.\<close>

definition on_wire :: "WSHeader \<Rightarrow> WSHeader" where
  "on_wire h = h\<lparr>exPayloadLen := 0, mask_key := (if maskBit h \<noteq> 0 then mask_key h else 0)\<rparr>"

lemma load_be_length:
  "n < 128 \<Longrightarrow> ucast (ntohs (load_le (be_bytes 2 n))) = (of_nat n :: 7 word)"
proof -
  assume "n < 128"
  then have p: "unat (of_nat n :: 7 word) = n" by (simp add: unsigned_of_nat take_bit_nat_eq_self)
  have "load_le (store_le 2 (htons (ucast (of_nat n :: 7 word)))) = htons (ucast (of_nat n :: 7 word))"
    unfolding load_le_store_le by (rule take_bit_word_eq_self) simp
  moreover have "ucast (ucast q :: u16) = q" for q :: "7 word"
    using unat_lt_pow [of q] by (simp add: word_unat_eq_iff unat_ucast_down)
  ultimately show ?thesis
    unfolding store_le_length p by simp
qed

lemma UnpackHeader_rfc:
  fixes h :: WSHeader
  defines "n \<equiv> unat (payloadLen h)"
  assumes "length (rfc_header h n) \<le> len"
  shows "UnpackHeader (rfc_header h n @ rest) len = (SUCCESS, on_wire h, Some (length (rfc_header h n)))"
proof -
  have n: "n < 128" unfolding n_def using unat_lt_pow [of "payloadLen h"] by simp
  have n_id: "of_nat n = payloadLen h" unfolding n_def by simp
  have m: "unat (maskBit h) < 2" using unat_lt_pow [of "maskBit h"] by simp
  let ?N = "unat (fin h) * 128 + unat (rsv1 h) * 64 + unat (rsv2 h) * 32 + unat (rsv3 h) * 16 + unat (opcode h)"
  let ?l = "if n \<le> 125 then n else 126"
  let ?M = "unat (maskBit h) * 128 + ?l"
  have M: "unat (of_nat ?M :: u8) = ?M" using m n by (intro unat_of_byte) auto
  have fields: "ucast (drop_bit 7 (of_nat ?N :: u8) AND 0x1) = fin h"
    "ucast (drop_bit 6 (of_nat ?N :: u8) AND 0x1) = rsv1 h"
    "ucast (drop_bit 5 (of_nat ?N :: u8) AND 0x1) = rsv2 h"
    "ucast (drop_bit 4 (of_nat ?N :: u8) AND 0x1) = rsv3 h"
    "ucast ((of_nat ?N :: u8) AND 0xF) = opcode h"
    unfolding word_unat_eq_iff [where 'a = 1] word_unat_eq_iff [where 'a = 4] unpack_fields
    by (simp_all only: first_byte_value)
  have mb: "ucast (drop_bit 7 (of_nat ?M :: u8) AND 0x1) = maskBit h"
    unfolding word_unat_eq_iff unpack_fields M using m by simp
  have ln: "ucast ((of_nat ?M :: u8) AND 0x7F) = (of_nat ?l :: 7 word)"
    unfolding word_unat_eq_iff unpack_fields M by (simp add: unsigned_of_nat take_bit_eq_mod)
  have hdr: "rfc_header h n = of_nat ?N # of_nat ?M # (if n \<le> 125 then [] else be_bytes 2 n) @
      (if maskBit h \<noteq> 0 then store_le 4 (mask_key h) else [])"
    using n by (simp add: rfc_header_def)
  have key: "load_le (store_le 4 (mask_key h)) = mask_key h"
    unfolding load_le_store_le by (rule take_bit_word_eq_self) simp
  have l: "unat (of_nat ?l :: 7 word) = ?l" using n by (simp add: unsigned_of_nat take_bit_nat_eq_self)
  have be: "length (be_bytes 2 n) = 2" by (simp add: be_bytes_def)
  show ?thesis
  proof (cases "n \<le> 125")
    case True
    then show ?thesis
      using assms(2) l key n_id unfolding hdr UnpackHeader_def
      by (simp add: Let_def mb [simplified True if_True] fields ln [simplified True if_True] WSHeader0_def on_wire_def ws_consts del: of_nat_add of_nat_mult)
  next
    case False
    let ?B1 = "of_nat (unat (maskBit h) * 128 + 126) :: u8"
    have b1: "ucast (drop_bit 7 ?B1 AND 0x1) = maskBit h" "ucast (?B1 AND 0x7F) = (126 :: 7 word)"
      using mb ln unfolding if_not_P [OF False] by simp_all
    have bs: "rfc_header h n = of_nat ?N # ?B1 # be_bytes 2 n @ (if maskBit h \<noteq> 0 then store_le 4 (mask_key h) else [])"
      unfolding hdr if_not_P [OF False] ..
    have len: "\<not> len < 4" "\<not> len < 2" using assms(2) be unfolding bs by simp_all
    have pl: "ucast (ntohs (load_le (be_bytes 2 n))) = payloadLen h"
      using load_be_length [OF n] n_id by simp
    show ?thesis
      unfolding bs UnpackHeader_def Let_def
      by (simp add: b1 fields len be pl key WSHeader0_def on_wire_def ws_consts del: of_nat_add of_nat_mult)
  qed
qed

text \<open>
  C2. Packing a header into a 14-byte buffer never aborts, writes only the header, and unpacking
  the written bytes succeeds with the same length and the same header; only \<open>exPayloadLen\<close>, and the
  key of an unmasked header, are not carried by the wire.
\<close>
theorem UnpackHeader_PackHeader:
  assumes "length b = WS_HDR_MAX_SIZE"
  shows "\<exists>n b'. PackHeader h b WS_HDR_MAX_SIZE = Ret n b' \<and> length b' = WS_HDR_MAX_SIZE \<and>
    drop n b' = drop n b \<and> UnpackHeader b' n = (SUCCESS, on_wire h, Some n)"
proof -
  let ?n = "unat (payloadLen h)"
  let ?out = "rfc_header h ?n"
  have "length ?out \<le> 8"
    using length_rfc_header [of ?n h] unat_lt_pow [of "payloadLen h"] by (simp split: if_splits)
  then show ?thesis
    using PackHeader_rfc [of b 14 h] UnpackHeader_rfc [of h "length ?out" "drop (length ?out) b"] assms
    by (simp add: ws_consts)
qed

theorem UnpackHeader_PackHeader_witness:
  "\<exists>n b'. PackHeader (WSHeader0\<lparr>fin := 1, opcode := 1, maskBit := 1, payloadLen := 5, mask_key := 7\<rparr>)
      (replicate 14 0) WS_HDR_MAX_SIZE = Ret n b' \<and> length b' = WS_HDR_MAX_SIZE \<and>
    drop n b' = drop n (replicate 14 0) \<and>
    UnpackHeader b' n = (SUCCESS, on_wire (WSHeader0\<lparr>fin := 1, opcode := 1, maskBit := 1,
      payloadLen := 5, mask_key := 7\<rparr>), Some n)"
  by (rule UnpackHeader_PackHeader) (simp add: ws_consts)

text \<open>
  C3. What is packed is the RFC 6455 frame header for the payload length held in the 7-bit field.
  Assigning a length \<open>n\<close> to that field keeps \<open>n mod 128\<close>, so for a payload of 128 bytes or more the
  header announces a different length than the one assigned.
\<close>
theorem PackHeader_is_rfc6455:
  assumes "length b = WS_HDR_MAX_SIZE"
  shows "PackHeader (h\<lparr>payloadLen := of_nat n\<rparr>) b WS_HDR_MAX_SIZE =
    Ret (length (rfc_header h (n mod 128)))
        (rfc_header h (n mod 128) @ drop (length (rfc_header h (n mod 128))) b)"
proof -
  have "unat (of_nat n :: 7 word) = n mod 128" by (simp add: unsigned_of_nat take_bit_eq_mod)
  then show ?thesis
    using PackHeader_rfc [of b 14 "h\<lparr>payloadLen := of_nat n\<rparr>"] assms
    by (simp add: ws_consts rfc_header_def)
qed

theorem PackHeader_is_rfc6455_witness:
  "PackHeader (WSHeader0\<lparr>payloadLen := of_nat 130\<rparr>) (replicate 14 0) WS_HDR_MAX_SIZE =
    Ret 2 ([0, 2] @ replicate 12 0)"
  using PackHeader_is_rfc6455 [where b = "replicate 14 0" and h = WSHeader0 and n = 130]
  by (simp add: ws_consts rfc_header_def WSHeader0_def)

end
