(* ===== verification/Utf8.thy ===== *)
theory Utf8
  imports Prelude
begin

text \<open>
  The UTF-8 automaton of \<^verbatim>\<open>src/net/ws_cli/implement/ev/utf8_utils.cpp\<close>: the table \<open>utf8d\<close>,
  \<open>DecodeUtf8\<close> and \<open>ValidateUtf8\<close>. The reference is the grammar of RFC 3629, written as an
  inductive predicate. The lemmas show that the automaton accepts exactly the octet sequences of
  that grammar, that rejection is final, that validation can be split over chunks of input, and
  that \<open>DecodeUtf8\<close> recovers the scalar value of every character.
\<close>

section \<open>The automaton\<close>

definition utf8d :: "nat list" where
  "utf8d =
    [0, 0, 0, 0, 0, 0, 0, 0, 0, 0, 0, 0, 0, 0, 0, 0,
     0, 0, 0, 0, 0, 0, 0, 0, 0, 0, 0, 0, 0, 0, 0, 0,
     0, 0, 0, 0, 0, 0, 0, 0, 0, 0, 0, 0, 0, 0, 0, 0,
     0, 0, 0, 0, 0, 0, 0, 0, 0, 0, 0, 0, 0, 0, 0, 0,
     0, 0, 0, 0, 0, 0, 0, 0, 0, 0, 0, 0, 0, 0, 0, 0,
     0, 0, 0, 0, 0, 0, 0, 0, 0, 0, 0, 0, 0, 0, 0, 0,
     0, 0, 0, 0, 0, 0, 0, 0, 0, 0, 0, 0, 0, 0, 0, 0,
     0, 0, 0, 0, 0, 0, 0, 0, 0, 0, 0, 0, 0, 0, 0, 0,
     1, 1, 1, 1, 1, 1, 1, 1, 1, 1, 1, 1, 1, 1, 1, 1,
     9, 9, 9, 9, 9, 9, 9, 9, 9, 9, 9, 9, 9, 9, 9, 9,
     7, 7, 7, 7, 7, 7, 7, 7, 7, 7, 7, 7, 7, 7, 7, 7,
     7, 7, 7, 7, 7, 7, 7, 7, 7, 7, 7, 7, 7, 7, 7, 7,
     8, 8, 2, 2, 2, 2, 2, 2, 2, 2, 2, 2, 2, 2, 2, 2,
     2, 2, 2, 2, 2, 2, 2, 2, 2, 2, 2, 2, 2, 2, 2, 2,
     10, 3, 3, 3, 3, 3, 3, 3, 3, 3, 3, 3, 3, 4, 3, 3,
     11, 6, 6, 6, 5, 8, 8, 8, 8, 8, 8, 8, 8, 8, 8, 8,
     0, 1, 2, 3, 5, 8, 7, 1, 1, 1, 4, 6, 1, 1, 1, 1,
     1, 1, 1, 1, 1, 1, 1, 1, 1, 1, 1, 1, 1, 1, 1, 1,
     1, 0, 1, 1, 1, 1, 1, 0, 1, 0, 1, 1, 1, 1, 1, 1,
     1, 2, 1, 1, 1, 1, 1, 2, 1, 2, 1, 1, 1, 1, 1, 1,
     1, 1, 1, 1, 1, 1, 1, 2, 1, 1, 1, 1, 1, 1, 1, 1,
     1, 2, 1, 1, 1, 1, 1, 1, 1, 2, 1, 1, 1, 1, 1, 1,
     1, 1, 1, 1, 1, 1, 1, 3, 1, 3, 1, 1, 1, 1, 1, 1,
     1, 3, 1, 1, 1, 1, 1, 3, 1, 3, 1, 1, 1, 1, 1, 1,
     1, 3, 1, 1, 1, 1, 1, 1, 1, 1, 1, 1, 1, 1, 1, 1]"

definition WS_UTF8_ACCEPT :: nat where "WS_UTF8_ACCEPT = 0"
definition WS_UTF8_REJECT :: nat where "WS_UTF8_REJECT = 1"

definition DecodeUtf8 :: "nat \<Rightarrow> u32 \<Rightarrow> u8 \<Rightarrow> nat \<times> u32" where
  "DecodeUtf8 state codep byte =
     (let type = utf8d ! unat byte;
          codep' = (if state \<noteq> WS_UTF8_ACCEPT
                    then (ucast byte AND 0x3f) OR push_bit 6 codep
                    else drop_bit type 0xff AND ucast byte);
          state' = utf8d ! (256 + state * 16 + type)
      in (state', codep'))"

fun ValidateUtf8 :: "nat \<Rightarrow> bytes \<Rightarrow> nat" where
  "ValidateUtf8 state [] = state"
| "ValidateUtf8 state (s # str) =
     (let type = utf8d ! unat s;
          state' = utf8d ! (256 + state * 16 + type)
      in if state' = WS_UTF8_REJECT then state' else ValidateUtf8 state' str)"

section \<open>The grammar of RFC 3629\<close>

definition utf8_tail :: "u8 \<Rightarrow> bool" where
  "utf8_tail b \<longleftrightarrow> 0x80 \<le> b \<and> b \<le> 0xBF"

inductive utf8_char :: "bytes \<Rightarrow> bool" where
  utf8_1: "b \<le> 0x7F \<Longrightarrow> utf8_char [b]"
| utf8_2: "0xC2 \<le> b \<Longrightarrow> b \<le> 0xDF \<Longrightarrow> utf8_tail c \<Longrightarrow> utf8_char [b, c]"
| utf8_3a: "0xA0 \<le> c \<Longrightarrow> c \<le> 0xBF \<Longrightarrow> utf8_tail d \<Longrightarrow> utf8_char [0xE0, c, d]"
| utf8_3b: "0xE1 \<le> b \<Longrightarrow> b \<le> 0xEC \<Longrightarrow> utf8_tail c \<Longrightarrow> utf8_tail d \<Longrightarrow> utf8_char [b, c, d]"
| utf8_3c: "0x80 \<le> c \<Longrightarrow> c \<le> 0x9F \<Longrightarrow> utf8_tail d \<Longrightarrow> utf8_char [0xED, c, d]"
| utf8_3d: "0xEE \<le> b \<Longrightarrow> b \<le> 0xEF \<Longrightarrow> utf8_tail c \<Longrightarrow> utf8_tail d \<Longrightarrow> utf8_char [b, c, d]"
| utf8_4a: "0x90 \<le> c \<Longrightarrow> c \<le> 0xBF \<Longrightarrow> utf8_tail d \<Longrightarrow> utf8_tail e \<Longrightarrow> utf8_char [0xF0, c, d, e]"
| utf8_4b: "0xF1 \<le> b \<Longrightarrow> b \<le> 0xF3 \<Longrightarrow> utf8_tail c \<Longrightarrow> utf8_tail d \<Longrightarrow> utf8_tail e \<Longrightarrow>
    utf8_char [b, c, d, e]"
| utf8_4c: "0x80 \<le> c \<Longrightarrow> c \<le> 0x8F \<Longrightarrow> utf8_tail d \<Longrightarrow> utf8_tail e \<Longrightarrow> utf8_char [0xF4, c, d, e]"

inductive utf8_octets :: "bytes \<Rightarrow> bool" where
  octets_nil: "utf8_octets []"
| octets_char: "utf8_char c \<Longrightarrow> utf8_octets bs \<Longrightarrow> utf8_octets (c @ bs)"

section \<open>The table, by byte ranges\<close>

definition byte_class :: "nat \<Rightarrow> nat" where
  "byte_class n =
     (if n < 0x80 then 0 else if n < 0x90 then 1 else if n < 0xA0 then 9 else if n < 0xC0 then 7
      else if n < 0xC2 then 8 else if n < 0xE0 then 2 else if n = 0xE0 then 10
      else if n = 0xED then 4 else if n < 0xF0 then 3 else if n = 0xF0 then 11
      else if n < 0xF4 then 6 else if n = 0xF4 then 5 else 8)"

lemma utf8d_classes: "take 256 utf8d = map byte_class [0..<256]"
  by code_simp

lemma utf8d_class: "utf8d ! unat (b :: u8) = byte_class (unat b)"
proof -
  have b: "unat b < 256" using unat_lt_pow [of b] by simp
  then have "utf8d ! unat b = take 256 utf8d ! unat b" by simp
  also have "\<dots> = byte_class (unat b)" unfolding utf8d_classes using b by simp
  finally show ?thesis .
qed

definition utf8_next :: "nat \<Rightarrow> u8 \<Rightarrow> nat" where
  "utf8_next state b = utf8d ! (256 + state * 16 + utf8d ! unat b)"

lemma ValidateUtf8_Cons:
  "ValidateUtf8 st (b # bs) = (if utf8_next st b = 1 then 1 else ValidateUtf8 (utf8_next st b) bs)"
  by (simp add: utf8_next_def WS_UTF8_REJECT_def Let_def)

lemma DecodeUtf8_state: "fst (DecodeUtf8 st cp b) = utf8_next st b"
  by (simp add: DecodeUtf8_def utf8_next_def Let_def)

lemma utf8d_rows:
  "map (\<lambda>c. utf8d ! (256 + c)) [0..<12] = [0, 1, 2, 3, 5, 8, 7, 1, 1, 1, 4, 6]"
  "map (\<lambda>c. utf8d ! (272 + c)) [0..<12] = replicate 12 1"
  "map (\<lambda>c. utf8d ! (288 + c)) [0..<12] = [1, 0, 1, 1, 1, 1, 1, 0, 1, 0, 1, 1]"
  "map (\<lambda>c. utf8d ! (304 + c)) [0..<12] = [1, 2, 1, 1, 1, 1, 1, 2, 1, 2, 1, 1]"
  "map (\<lambda>c. utf8d ! (320 + c)) [0..<12] = [1, 1, 1, 1, 1, 1, 1, 2, 1, 1, 1, 1]"
  "map (\<lambda>c. utf8d ! (336 + c)) [0..<12] = [1, 2, 1, 1, 1, 1, 1, 1, 1, 2, 1, 1]"
  "map (\<lambda>c. utf8d ! (352 + c)) [0..<12] = [1, 1, 1, 1, 1, 1, 1, 3, 1, 3, 1, 1]"
  "map (\<lambda>c. utf8d ! (368 + c)) [0..<12] = [1, 3, 1, 1, 1, 1, 1, 3, 1, 3, 1, 1]"
  "map (\<lambda>c. utf8d ! (384 + c)) [0..<12] = [1, 3, 1, 1, 1, 1, 1, 1, 1, 1, 1, 1]"
  by code_simp+

lemma row_nth: "map f [0..<12] = r \<Longrightarrow> c < 12 \<Longrightarrow> f c = r ! c"
  by (drule arg_cong [where f = "\<lambda>xs. xs ! c"]) simp

lemma byte_class_lt: "byte_class n < 12"
  by (simp add: byte_class_def)

lemmas utf8d_row_at = utf8d_rows [THEN row_nth, OF byte_class_lt]

lemma utf8_next_rows:
  "utf8_next 0 b = [0, 1, 2, 3, 5, 8, 7, 1, 1, 1, 4, 6] ! byte_class (unat b)"
  "utf8_next 1 b = replicate 12 1 ! byte_class (unat b)"
  "utf8_next 2 b = [1, 0, 1, 1, 1, 1, 1, 0, 1, 0, 1, 1] ! byte_class (unat b)"
  "utf8_next 3 b = [1, 2, 1, 1, 1, 1, 1, 2, 1, 2, 1, 1] ! byte_class (unat b)"
  "utf8_next 4 b = [1, 1, 1, 1, 1, 1, 1, 2, 1, 1, 1, 1] ! byte_class (unat b)"
  "utf8_next 5 b = [1, 2, 1, 1, 1, 1, 1, 1, 1, 2, 1, 1] ! byte_class (unat b)"
  "utf8_next 6 b = [1, 1, 1, 1, 1, 1, 1, 3, 1, 3, 1, 1] ! byte_class (unat b)"
  "utf8_next 7 b = [1, 3, 1, 1, 1, 1, 1, 3, 1, 3, 1, 1] ! byte_class (unat b)"
  "utf8_next 8 b = [1, 3, 1, 1, 1, 1, 1, 1, 1, 1, 1, 1] ! byte_class (unat b)"
  unfolding utf8_next_def utf8d_class utf8d_row_at [symmetric] by simp_all

lemma utf8_next_accept:
  "utf8_next 0 b =
     (if b \<le> 0x7F then 0 else if b < 0xC2 then 1 else if b \<le> 0xDF then 2
      else if b = 0xE0 then 4 else if b = 0xED then 5 else if b \<le> 0xEF then 3
      else if b = 0xF0 then 6 else if b \<le> 0xF3 then 7 else if b = 0xF4 then 8 else 1)"
  unfolding utf8_next_rows
  by (simp add: byte_class_def word_le_nat_alt word_less_nat_alt word_unat_eq_iff)

lemma utf8_next_reject: "utf8_next 1 b = 1"
  unfolding utf8_next_rows by (rule nth_replicate) (rule byte_class_lt)

lemma utf8_next_tails:
  "utf8_next 2 b = (if utf8_tail b then 0 else 1)"
  "utf8_next 3 b = (if utf8_tail b then 2 else 1)"
  "utf8_next 4 b = (if 0xA0 \<le> b \<and> b \<le> 0xBF then 2 else 1)"
  "utf8_next 5 b = (if 0x80 \<le> b \<and> b \<le> 0x9F then 2 else 1)"
  "utf8_next 6 b = (if 0x90 \<le> b \<and> b \<le> 0xBF then 3 else 1)"
  "utf8_next 7 b = (if utf8_tail b then 3 else 1)"
  "utf8_next 8 b = (if 0x80 \<le> b \<and> b \<le> 0x8F then 3 else 1)"
  unfolding utf8_next_rows utf8_tail_def
  by (simp_all add: byte_class_def word_le_nat_alt word_less_nat_alt
      word_unat_eq_iff)

lemmas utf8_next_simps = utf8_next_accept utf8_next_reject utf8_next_tails


section \<open>Properties of validation\<close>

lemma ValidateUtf8_reject [simp]: "ValidateUtf8 1 bs = 1"
  by (cases bs)
    (simp_all add: ValidateUtf8_Cons utf8_next_reject [simplified] del: ValidateUtf8.simps(2))

lemma ValidateUtf8_append: "ValidateUtf8 st (xs @ ys) = ValidateUtf8 (ValidateUtf8 st xs) ys"
  by (induction xs arbitrary: st)
    (simp_all add: ValidateUtf8_Cons ValidateUtf8_reject [simplified] del: ValidateUtf8.simps(2))

lemma utf8_char_accepted: "utf8_char c \<Longrightarrow> ValidateUtf8 0 c = 0"
  by (induction rule: utf8_char.induct)
    (simp_all add: ValidateUtf8_Cons utf8_next_simps word_le_nat_alt word_less_nat_alt
      word_unat_eq_iff del: ValidateUtf8.simps(2))

lemma utf8_octets_accepted: "utf8_octets bs \<Longrightarrow> ValidateUtf8 0 bs = 0"
  by (induction rule: utf8_octets.induct) (simp_all add: ValidateUtf8_append utf8_char_accepted)

text \<open>What each state still needs before a character is complete.\<close>

inductive completes :: "nat \<Rightarrow> bytes \<Rightarrow> bool" where
  completes_0: "completes 0 []"
| completes_2: "utf8_tail b \<Longrightarrow> completes 2 [b]"
| completes_3: "utf8_tail b \<Longrightarrow> completes 2 bs \<Longrightarrow> completes 3 (b # bs)"
| completes_4: "0xA0 \<le> b \<Longrightarrow> b \<le> 0xBF \<Longrightarrow> completes 2 bs \<Longrightarrow> completes 4 (b # bs)"
| completes_5: "0x80 \<le> b \<Longrightarrow> b \<le> 0x9F \<Longrightarrow> completes 2 bs \<Longrightarrow> completes 5 (b # bs)"
| completes_6: "0x90 \<le> b \<Longrightarrow> b \<le> 0xBF \<Longrightarrow> completes 3 bs \<Longrightarrow> completes 6 (b # bs)"
| completes_7: "utf8_tail b \<Longrightarrow> completes 3 bs \<Longrightarrow> completes 7 (b # bs)"
| completes_8: "0x80 \<le> b \<Longrightarrow> b \<le> 0x8F \<Longrightarrow> completes 3 bs \<Longrightarrow> completes 8 (b # bs)"

inductive_simps completes_simps:
  "completes 0 bs" "completes 2 bs" "completes 3 bs" "completes 4 bs" "completes 5 bs"
  "completes 6 bs" "completes 7 bs" "completes 8 bs"

lemma lead_completes:
  assumes "utf8_next 0 b = st" "st \<noteq> 1" "completes st bs"
  shows "utf8_char (b # bs)"
proof -
  consider "b \<le> 0x7F" "st = 0" | "0xC2 \<le> b" "b \<le> 0xDF" "st = 2" | "b = 0xE0" "st = 4"
    | "0xE1 \<le> b" "b \<le> 0xEC" "st = 3" | "b = 0xED" "st = 5" | "0xEE \<le> b" "b \<le> 0xEF" "st = 3"
    | "b = 0xF0" "st = 6" | "0xF1 \<le> b" "b \<le> 0xF3" "st = 7" | "b = 0xF4" "st = 8"
    using assms(1,2) unfolding utf8_next_accept
    by (simp add: word_le_nat_alt word_less_nat_alt word_unat_eq_iff split: if_splits) arith+
  then show ?thesis
    using assms(3) by cases (auto simp: completes_simps intro: utf8_char.intros)
qed

lemma utf8_state_cases:
  assumes "st < (9 :: nat)"
  obtains "st = 0" | "st = 1" | "st = 2" | "st = 3" | "st = 4" | "st = 5" | "st = 6" | "st = 7"
    | "st = 8"
  using assms by linarith

lemma utf8_next_lt_9: "st < 9 \<Longrightarrow> utf8_next st b < 9"
  by (erule utf8_state_cases) (simp_all add: utf8_next_simps del: One_nat_def)

lemma tail_completes:
  assumes "st < 9" "st \<noteq> 0" "utf8_next st b = st'" "st' \<noteq> 1" "completes st' bs"
  shows "completes st (b # bs)"
  using assms(1)
  by (rule utf8_state_cases)
    (use assms(2-) in \<open>auto simp: utf8_next_simps completes_simps simp del: One_nat_def split: if_splits\<close>)

lemma accepted_completes:
  "st < 9 \<Longrightarrow> ValidateUtf8 st bs = 0 \<Longrightarrow> \<exists>t rest. bs = t @ rest \<and> completes st t \<and> utf8_octets rest"
proof (induction bs arbitrary: st)
  case Nil
  then show ?case by (auto simp: completes_simps intro: octets_nil)
next
  case (Cons b bs)
  let ?st = "utf8_next st b"
  have st: "?st \<noteq> 1" and acc: "ValidateUtf8 ?st bs = 0"
    using Cons.prems(2) by (auto simp only: ValidateUtf8_Cons split: if_splits)
  obtain t rest where bs: "bs = t @ rest" "completes ?st t" "utf8_octets rest"
    using Cons.IH [OF utf8_next_lt_9 [OF Cons.prems(1)] acc] by blast
  show ?case
  proof (cases "st = 0")
    case True
    then have "utf8_char (b # t)" using lead_completes st bs(2) by blast
    then have "utf8_octets (b # bs)" using octets_char bs(1,3) by fastforce
    then show ?thesis using True completes_0 by (metis append_Nil)
  next
    case False
    then have "completes st (b # t)" using tail_completes [OF Cons.prems(1) _ refl st bs(2)] by blast
    then show ?thesis using bs(1,3) by (metis append_Cons)
  qed
qed

text \<open>
  C4. \<open>ValidateUtf8\<close>, started in the accepting state, ends in the accepting state exactly on the
  octet sequences of the UTF-8 grammar of RFC 3629 (no overlong forms, no surrogates, nothing
  above U+10FFFF).
\<close>
theorem ValidateUtf8_iff_rfc3629:
  "ValidateUtf8 WS_UTF8_ACCEPT bs = WS_UTF8_ACCEPT \<longleftrightarrow> utf8_octets bs"
proof
  assume "ValidateUtf8 WS_UTF8_ACCEPT bs = WS_UTF8_ACCEPT"
  then obtain t rest where "bs = t @ rest" "completes 0 t" "utf8_octets rest"
    using accepted_completes [of 0 bs] by (auto simp: WS_UTF8_ACCEPT_def)
  then show "utf8_octets bs" by (simp add: completes_simps)
qed (simp add: WS_UTF8_ACCEPT_def utf8_octets_accepted)

section \<open>Decoding\<close>

text \<open>The encoding of a scalar value by RFC 3629, as a reference.\<close>

definition utf8_encode :: "nat \<Rightarrow> bytes" where
  "utf8_encode n =
     map of_nat
      (if n < 0x80 then [n]
       else if n < 0x800 then [0xC0 + n div 64, 0x80 + n mod 64]
       else if n < 0x10000 then [0xE0 + n div 4096, 0x80 + n div 64 mod 64, 0x80 + n mod 64]
       else [0xF0 + n div 262144, 0x80 + n div 4096 mod 64, 0x80 + n div 64 mod 64, 0x80 + n mod 64])"

definition scalar_value :: "nat \<Rightarrow> bool" where
  "scalar_value n \<longleftrightarrow> n < 0xD800 \<or> 0xDFFF < n \<and> n < 0x110000"

fun decode_octets :: "nat \<times> u32 \<Rightarrow> bytes \<Rightarrow> nat \<times> u32" where
  "decode_octets sc [] = sc"
| "decode_octets sc (b # bs) = decode_octets (DecodeUtf8 (fst sc) (snd sc) b) bs"

lemma tail_payloads:
  "list_all (\<lambda>k. ucast (of_nat (128 + k) :: u8) AND 0x3f = (of_nat k :: u32)) [0..<64]"
  by code_simp

lemma tail_payload: "k < 64 \<Longrightarrow> ucast (of_nat (128 + k) :: u8) AND 0x3f = (of_nat k :: u32)"
  using tail_payloads unfolding list_all_iff set_upt Ball_def atLeastLessThan_iff by blast

lemma DecodeUtf8_tail:
  "st \<noteq> 0 \<Longrightarrow> k < 64 \<Longrightarrow>
   DecodeUtf8 st cp (of_nat (128 + k)) = (utf8_next st (of_nat (128 + k)), cp * 64 + of_nat k)"
  unfolding DecodeUtf8_def Let_def WS_UTF8_ACCEPT_def
  by (simp only: tail_payload of_nat_or_push_bit [of _ 6, simplified] utf8_next_def if_True simp_thms)

definition lead_payload :: "nat \<Rightarrow> nat" where
  "lead_payload n = (if n < 0x80 then n else if n < 0xE0 then n - 0xC0
                     else if n < 0xF0 then n - 0xE0 else n - 0xF0)"

lemma lead_payloads:
  "list_all (\<lambda>n. drop_bit (utf8d ! n) 0xff AND (of_nat n :: u32) = of_nat (lead_payload n))
    ([0..<0x80] @ [0xC2..<0xF5])"
  by code_simp

lemma DecodeUtf8_lead:
  assumes "n < 0x80 \<or> 0xC2 \<le> n \<and> n < 0xF5"
  shows "DecodeUtf8 0 cp (of_nat n) = (utf8_next 0 (of_nat n), of_nat (lead_payload n))"
proof -
  have "n \<in> set ([0..<0x80] @ [0xC2..<0xF5])"
    using assms by (auto simp only: set_append set_upt Un_iff atLeastLessThan_iff)
  then have "drop_bit (utf8d ! n) 0xff AND (of_nat n :: u32) = of_nat (lead_payload n)"
    using lead_payloads unfolding list_all_iff by blast
  moreover have "n < 256" using assms by linarith
  ultimately show ?thesis
    by (simp add: DecodeUtf8_def WS_UTF8_ACCEPT_def utf8_next_def Let_def unat_of_byte ucast_of_byte)
qed

lemmas decode_steps = DecodeUtf8_lead DecodeUtf8_tail utf8_next_simps utf8_tail_def lead_payload_def
  word_le_nat_alt word_less_nat_alt word_unat_eq_iff unat_of_byte

lemma decode_2:
  assumes "2 \<le> a" "a < 32" "b < 64"
  shows "decode_octets (0, cp) [of_nat (0xC0 + a), of_nat (0x80 + b)] = (0, of_nat (a * 64 + b))"
  using assms by (simp add: decode_steps del: of_nat_add) simp

lemma decode_3:
  assumes "a < 16" "b < 64" "c < 64" "a \<noteq> 0 \<or> 32 \<le> b" "a \<noteq> 13 \<or> b \<le> 31"
  shows "decode_octets (0, cp) [of_nat (0xE0 + a), of_nat (0x80 + b), of_nat (0x80 + c)] =
    (0, of_nat ((a * 64 + b) * 64 + c))"
proof -
  have "utf8_next 0 (of_nat (0xE0 + a)) = (if a = 0 then 4 else if a = 13 then 5 else 3)"
    "utf8_next (if a = 0 then 4 else if a = 13 then 5 else 3) (of_nat (0x80 + b)) = 2"
    "utf8_next 2 (of_nat (0x80 + c)) = 0"
    using assms by (auto simp: decode_steps simp del: of_nat_add)
  then show ?thesis
    using assms by (simp add: DecodeUtf8_lead DecodeUtf8_tail lead_payload_def del: of_nat_add) simp
qed

lemma decode_4:
  assumes "a < 5" "b < 64" "c < 64" "d < 64" "a \<noteq> 0 \<or> 16 \<le> b" "a \<noteq> 4 \<or> b \<le> 15"
  shows "decode_octets (0, cp) [of_nat (0xF0 + a), of_nat (0x80 + b), of_nat (0x80 + c), of_nat (0x80 + d)] =
    (0, of_nat (((a * 64 + b) * 64 + c) * 64 + d))"
proof -
  have "utf8_next 0 (of_nat (0xF0 + a)) = (if a = 0 then 6 else if a = 4 then 8 else 7)"
    "utf8_next (if a = 0 then 6 else if a = 4 then 8 else 7) (of_nat (0x80 + b)) = 3"
    "utf8_next 3 (of_nat (0x80 + c)) = 2" "utf8_next 2 (of_nat (0x80 + d)) = 0"
    using assms by (auto simp: decode_steps simp del: of_nat_add)
  then show ?thesis
    using assms by (simp add: DecodeUtf8_lead DecodeUtf8_tail lead_payload_def del: of_nat_add) simp
qed

text \<open>
  C5. Running \<open>DecodeUtf8\<close> from the accepting state over the RFC 3629 encoding of a Unicode
  scalar value ends in the accepting state with exactly that value as the code point, whatever
  the code point register held before.
\<close>
theorem DecodeUtf8_utf8_encode:
  assumes "scalar_value n"
  shows "decode_octets (WS_UTF8_ACCEPT, cp) (utf8_encode n) = (WS_UTF8_ACCEPT, of_nat n)"
proof -
  have d1: "n div 64 * 64 + n mod 64 = n" by simp
  have d2: "n div 4096 * 64 + n div 64 mod 64 = n div 64"
    using div_mult_mod_eq [of "n div 64" 64] by (simp add: div_mult2_eq [symmetric])
  have d3: "n div 262144 * 64 + n div 4096 mod 64 = n div 4096"
    using div_mult_mod_eq [of "n div 4096" 64] by (simp add: div_mult2_eq [symmetric])
  consider "n < 0x80" | "0x80 \<le> n" "n < 0x800" | "0x800 \<le> n" "n < 0x10000" | "0x10000 \<le> n"
    by linarith
  then show ?thesis
  proof cases
    case 1
    then show ?thesis
      by (simp add: utf8_encode_def WS_UTF8_ACCEPT_def decode_steps)
  next
    case 2
    then show ?thesis
      using decode_2 [of "n div 64" "n mod 64" cp]
      by (simp add: utf8_encode_def WS_UTF8_ACCEPT_def d1 del: of_nat_add)
  next
    case 3
    then have "decode_octets (0, cp) [of_nat (0xE0 + n div 4096), of_nat (0x80 + n div 64 mod 64),
        of_nat (0x80 + n mod 64)] = (0, of_nat ((n div 4096 * 64 + n div 64 mod 64) * 64 + n mod 64))"
      using assms d2 by (intro decode_3) (auto simp: scalar_value_def div_less_iff_less_mult)
    then show ?thesis
      using 3 unfolding d2 d1 by (simp add: utf8_encode_def WS_UTF8_ACCEPT_def del: of_nat_add)
  next
    case 4
    have "n div 4096 < 272" "16 \<le> n div 4096"
      using assms 4 by (simp_all add: scalar_value_def div_less_iff_less_mult less_eq_div_iff_mult_less_eq)
    with 4 have "decode_octets (0, cp) [of_nat (0xF0 + n div 262144), of_nat (0x80 + n div 4096 mod 64),
        of_nat (0x80 + n div 64 mod 64), of_nat (0x80 + n mod 64)] =
        (0, of_nat (((n div 262144 * 64 + n div 4096 mod 64) * 64 + n div 64 mod 64) * 64 + n mod 64))"
      using assms d3 by (intro decode_4) (auto simp: scalar_value_def div_less_iff_less_mult)
    then show ?thesis
      using 4 unfolding d3 d2 d1 by (simp add: utf8_encode_def WS_UTF8_ACCEPT_def del: of_nat_add)
  qed
qed

theorem DecodeUtf8_utf8_encode_witness:
  "decode_octets (0, 7) (utf8_encode 0x20AC) = (0, 0x20AC)"
  using DecodeUtf8_utf8_encode [where n = "0x20AC" and cp = 7] by (simp add: scalar_value_def WS_UTF8_ACCEPT_def)

end
