(* ===== verification/Base64.thy ===== *)
theory Base64
  imports Prelude
begin

text \<open>
  The base64 coder of \<^verbatim>\<open>src/net/ws_cli/implement/ev/base64.cpp\<close>, used for the handshake key and the
  accept hash. \<open>EncodeBase64\<close> and \<open>DecodeBase64\<close> keep the index loops of the code; the reference
  is the grouping of RFC 4648 by triples. The lemmas show that the encoder is that reference and
  that decoding inverts it.
\<close>

section \<open>The coder\<close>

definition base64_chars :: string where
  "base64_chars = ''ABCDEFGHIJKLMNOPQRSTUVWXYZabcdefghijklmnopqrstuvwxyz0123456789+/''"

text \<open>The index expressions of the encoder; operands are promoted to 32-bit \<open>int\<close>.\<close>

definition sextet0 :: "u8 \<Rightarrow> u32" where
  "sextet0 BYTE0 = drop_bit 2 (ucast BYTE0)"

definition sextet1 :: "u8 \<Rightarrow> u8 \<Rightarrow> u32" where
  "sextet1 BYTE0 BYTE1 = push_bit 4 (0x3 AND ucast BYTE0) + drop_bit 4 (ucast BYTE1)"

definition sextet2 :: "u8 \<Rightarrow> u8 \<Rightarrow> u32" where
  "sextet2 BYTE1 BYTE2 = push_bit 2 (0x0f AND ucast BYTE1) + drop_bit 6 (ucast BYTE2)"

definition sextet3 :: "u8 \<Rightarrow> u32" where
  "sextet3 BYTE2 = 0x3f AND ucast BYTE2"

function encode_loop :: "bytes \<Rightarrow> nat \<Rightarrow> nat \<Rightarrow> string \<Rightarrow> nat \<times> string" where
  "encode_loop bs len i res =
     (if i \<le> len - 3 \<and> len \<ge> 3 then
        (let BYTE0 = bs ! i; BYTE1 = bs ! (i + 1); BYTE2 = bs ! (i + 2)
         in encode_loop bs len (i + 3)
              (res @ [base64_chars ! unat (sextet0 BYTE0), base64_chars ! unat (sextet1 BYTE0 BYTE1),
                      base64_chars ! unat (sextet2 BYTE1 BYTE2), base64_chars ! unat (sextet3 BYTE2)]))
      else (i, res))"
  by pat_completeness auto
termination
  by (relation "measure (\<lambda>(bs, len, i, res). len + 1 - i)") auto

declare encode_loop.simps [simp del]

definition EncodeBase64 :: "bytes \<Rightarrow> string" where
  "EncodeBase64 bytes_to_encode =
     (let len = length bytes_to_encode;
          modulus = len mod 3;
          pad = push_bit 1 (modulus AND 1) + drop_bit 1 (modulus AND 2);
          (i, res) = encode_loop bytes_to_encode len 0 []
      in if pad = 2 then
           (let BYTE0 = bytes_to_encode ! i
            in res @ [base64_chars ! unat (sextet0 BYTE0), base64_chars ! unat (sextet1 BYTE0 0),
                      CHR ''='', CHR ''=''])
         else if pad = 1 then
           (let BYTE0 = bytes_to_encode ! i; BYTE1 = bytes_to_encode ! (i + 1)
            in res @ [base64_chars ! unat (sextet0 BYTE0), base64_chars ! unat (sextet1 BYTE0 BYTE1),
                      base64_chars ! unat (sextet2 BYTE1 0), CHR ''=''])
         else res)"

text \<open>
  \<open>base64Str[i]\<close>: a negative index becomes a huge \<open>size_t\<close>; index \<open>size()\<close> is the terminating
  NUL; anything beyond is out of range (\<open>None\<close>). \<open>find\<close> returns \<open>npos\<close>, which the cast to \<open>uint8_t\<close>
  turns into 255, for a character outside the alphabet.
\<close>

definition str_at :: "string \<Rightarrow> int \<Rightarrow> char option" where
  "str_at s i = (if i < 0 \<or> int (length s) < i then None
                 else if i = int (length s) then Some (char_of (0 :: nat)) else Some (s ! nat i))"

fun find_from :: "nat \<Rightarrow> string \<Rightarrow> char \<Rightarrow> nat option" where
  "find_from k [] c = None"
| "find_from k (x # xs) c = (if x = c then Some k else find_from (Suc k) xs c)"

definition base64_index :: "char \<Rightarrow> u8" where
  "base64_index c = (case find_from 0 base64_chars c of None \<Rightarrow> 255 | Some k \<Rightarrow> of_nat k)"

definition base64_at :: "string \<Rightarrow> int \<Rightarrow> u8 option" where
  "base64_at s i = map_option base64_index (str_at s i)"

definition octet0 :: "u8 \<Rightarrow> u8 \<Rightarrow> u8" where
  "octet0 BYTE0 BYTE1 = ucast (push_bit 2 (ucast BYTE0) OR drop_bit 4 (ucast BYTE1) :: u32)"

definition octet1 :: "u8 \<Rightarrow> u8 \<Rightarrow> u8" where
  "octet1 BYTE1 BYTE2 = ucast (push_bit 4 (ucast BYTE1) OR drop_bit 2 (ucast BYTE2) :: u32)"

definition octet2 :: "u8 \<Rightarrow> u8 \<Rightarrow> u8" where
  "octet2 BYTE2 BYTE3 = ucast (push_bit 6 (ucast BYTE2) OR ucast BYTE3 :: u32)"

function decode_loop :: "string \<Rightarrow> int \<Rightarrow> int \<Rightarrow> bytes \<Rightarrow> (int \<times> bytes) option" where
  "decode_loop s bound charNo res =
     (if charNo \<le> bound then
        Option.bind (base64_at s charNo) (\<lambda>BYTE0.
        Option.bind (base64_at s (charNo + 1)) (\<lambda>BYTE1.
        Option.bind (base64_at s (charNo + 2)) (\<lambda>BYTE2.
        Option.bind (base64_at s (charNo + 3)) (\<lambda>BYTE3.
        decode_loop s bound (charNo + 4)
          (res @ [octet0 BYTE0 BYTE1, octet1 BYTE1 BYTE2, octet2 BYTE2 BYTE3])))))
      else Some (charNo, res))"
  by pat_completeness auto
termination
  by (relation "measure (\<lambda>(s, bound, charNo, res). nat (bound + 1 - charNo))") auto

declare decode_loop.simps [simp del]

definition DecodeBase64 :: "string \<Rightarrow> bytes option" where
  "DecodeBase64 base64Str =
     (let len = int (length base64Str) in
      Option.bind (str_at base64Str (len - 1)) (\<lambda>c1.
      Option.bind (str_at base64Str (len - 2)) (\<lambda>c2.
      let pad = (if c1 = CHR ''='' then 1 else 0) + (if c2 = CHR ''='' then 1 else 0) in
      Option.bind (decode_loop base64Str (len - 4 - pad) 0 []) (\<lambda>(charNo, res).
      if pad = 1 then
        Option.bind (base64_at base64Str charNo) (\<lambda>BYTE0.
        Option.bind (base64_at base64Str (charNo + 1)) (\<lambda>BYTE1.
        Option.bind (base64_at base64Str (charNo + 2)) (\<lambda>BYTE2.
        Some (res @ [octet0 BYTE0 BYTE1, octet1 BYTE1 BYTE2]))))
      else if pad = 2 then
        Option.bind (base64_at base64Str charNo) (\<lambda>BYTE0.
        Option.bind (base64_at base64Str (charNo + 1)) (\<lambda>BYTE1.
        Some (res @ [octet0 BYTE0 BYTE1])))
      else Some res))))"

section \<open>The reference: RFC 4648\<close>

definition b64_digit :: "nat \<Rightarrow> char" where
  "b64_digit n = base64_chars ! n"

fun base64_ref :: "bytes \<Rightarrow> string" where
  "base64_ref (a # b # c # bs) =
     (let n = unat a * 65536 + unat b * 256 + unat c
      in [b64_digit (n div 262144), b64_digit (n div 4096 mod 64), b64_digit (n div 64 mod 64),
          b64_digit (n mod 64)] @ base64_ref bs)"
| "base64_ref [a, b] =
     (let n = unat a * 65536 + unat b * 256
      in [b64_digit (n div 262144), b64_digit (n div 4096 mod 64), b64_digit (n div 64 mod 64),
          CHR ''=''])"
| "base64_ref [a] =
     (let n = unat a * 65536
      in [b64_digit (n div 262144), b64_digit (n div 4096 mod 64), CHR ''='', CHR ''=''])"
| "base64_ref [] = []"

lemma unat_u32_of_byte: "unat (ucast (b :: u8) :: u32) = unat b"
  using unat_lt_pow [of b] by (simp add: unat_ucast_down)

lemma and_low_bits:
  "0x3 AND x = x mod 4" "0xf AND x = x mod 16" "0x3f AND x = x mod (64 :: 'a::len word)"
  using take_bit_eq_mask [of 2 x] take_bit_eq_mask [of 4 x] take_bit_eq_mask [of 6 x]
  by (simp_all add: and.commute mask_eq_exp_minus_1 take_bit_eq_mod)

lemma sextet_values:
  "unat (sextet0 a) = unat a div 4"
  "unat (sextet1 a b) = unat a mod 4 * 16 + unat b div 16"
  "unat (sextet2 b c) = unat b mod 16 * 4 + unat c div 64"
  "unat (sextet3 c) = unat c mod 64"
proof -
  have lt: "unat a < 256" "unat b < 256" "unat c < 256"
    using unat_lt_pow [of a] unat_lt_pow [of b] unat_lt_pow [of c] by simp_all
  have sums: "unat a mod 4 * 16 + unat b div 16 < 4294967296"
    "unat b mod 16 * 4 + unat c div 64 < 4294967296" "unat a mod 4 * 16 < 4294967296"
    "unat b mod 16 * 4 < 4294967296" using lt by linarith+
  show "unat (sextet0 a) = unat a div 4"
    by (simp add: sextet0_def drop_bit_eq_div unat_div_distrib unat_u32_of_byte)
  show "unat (sextet1 a b) = unat a mod 4 * 16 + unat b div 16"
    using sums by (simp add: sextet1_def and_low_bits unat_word_ariths drop_bit_eq_div
        push_bit_eq_mult unat_div_distrib unat_mod_distrib unat_u32_of_byte)
  show "unat (sextet2 b c) = unat b mod 16 * 4 + unat c div 64"
    using sums by (simp add: sextet2_def and_low_bits unat_word_ariths drop_bit_eq_div
        push_bit_eq_mult unat_div_distrib unat_mod_distrib unat_u32_of_byte)
  show "unat (sextet3 c) = unat c mod 64"
    by (simp add: sextet3_def and_low_bits unat_mod_distrib unat_u32_of_byte)
qed

lemma base64_digits:
  fixes p q r s :: nat
  assumes "q < 64" "r < 64" "s < 64"
  shows "(((p * 64 + q) * 64 + r) * 64 + s) div 262144 = p"
    "(((p * 64 + q) * 64 + r) * 64 + s) div 4096 mod 64 = q"
    "(((p * 64 + q) * 64 + r) * 64 + s) div 64 mod 64 = r"
    "(((p * 64 + q) * 64 + r) * 64 + s) mod 64 = s"
proof -
  have d: "(x * 64 + y) div 64 = x" "(x * 64 + y) mod 64 = y" if "y < 64" for x y :: nat
    using that by simp_all
  have split: "n div 262144 = n div 64 div 64 div 64" "n div 4096 = n div 64 div 64" for n :: nat
    by (simp_all add: div_mult2_eq [symmetric])
  show "(((p * 64 + q) * 64 + r) * 64 + s) div 262144 = p"
    "(((p * 64 + q) * 64 + r) * 64 + s) div 4096 mod 64 = q"
    "(((p * 64 + q) * 64 + r) * 64 + s) div 64 mod 64 = r"
    "(((p * 64 + q) * 64 + r) * 64 + s) mod 64 = s"
    unfolding split d [OF assms(3)] d [OF assms(2)] d [OF assms(1)]
    by (rule refl)+
qed

lemma digit_split:
  fixes a b c :: nat
  assumes "a < 256" "b < 256" "c < 256"
  shows "(a * 65536 + b * 256 + c) div 262144 = a div 4"
    "(a * 65536 + b * 256 + c) div 4096 mod 64 = a mod 4 * 16 + b div 16"
    "(a * 65536 + b * 256 + c) div 64 mod 64 = b mod 16 * 4 + c div 64"
    "(a * 65536 + b * 256 + c) mod 64 = c mod 64"
proof -
  have regroup: "(a1 * 4 + a0) * 65536 + (b1 * 16 + b0) * 256 + (c1 * 64 + c0) =
      ((a1 * 64 + (a0 * 16 + b1)) * 64 + (b0 * 4 + c1)) * 64 + c0" for a1 a0 b1 b0 c1 c0 :: nat
    by simp
  have n: "a * 65536 + b * 256 + c =
      ((a div 4 * 64 + (a mod 4 * 16 + b div 16)) * 64 + (b mod 16 * 4 + c div 64)) * 64 + c mod 64"
    using regroup [of "a div 4" "a mod 4" "b div 16" "b mod 16" "c div 64" "c mod 64"]
    unfolding div_mult_mod_eq .
  have "a mod 4 < 4" "b div 16 < 16" "b mod 16 < 16" "c div 64 < 4" "c mod 64 < 64"
    using assms by (simp_all add: div_less_iff_less_mult)
  then have "a mod 4 * 16 + b div 16 < 64" "b mod 16 * 4 + c div 64 < 64" "c mod 64 < 64"
    by linarith+
  from base64_digits [OF this, of "a div 4"]
  show "(a * 65536 + b * 256 + c) div 262144 = a div 4"
    "(a * 65536 + b * 256 + c) div 4096 mod 64 = a mod 4 * 16 + b div 16"
    "(a * 65536 + b * 256 + c) div 64 mod 64 = b mod 16 * 4 + c div 64"
    "(a * 65536 + b * 256 + c) mod 64 = c mod 64"
    unfolding n by blast+
qed

lemma unat_byte_lt [simp]: "unat (b :: u8) < 256"
  using unat_lt_pow [of b] by simp

lemma base64_ref_sextets:
  "base64_ref (a # b # c # bs) =
     [base64_chars ! unat (sextet0 a), base64_chars ! unat (sextet1 a b),
      base64_chars ! unat (sextet2 b c), base64_chars ! unat (sextet3 c)] @ base64_ref bs"
  "base64_ref [a, b] =
     [base64_chars ! unat (sextet0 a), base64_chars ! unat (sextet1 a b),
      base64_chars ! unat (sextet2 b 0), CHR ''='']"
  "base64_ref [a] =
     [base64_chars ! unat (sextet0 a), base64_chars ! unat (sextet1 a 0), CHR ''='', CHR ''='']"
  unfolding base64_ref.simps b64_digit_def sextet_values Let_def
    digit_split [OF unat_byte_lt unat_byte_lt unat_byte_lt]
    digit_split [OF unat_byte_lt unat_byte_lt zero_less_numeral, unfolded add_0_right]
    digit_split [OF unat_byte_lt zero_less_numeral zero_less_numeral, unfolded mult_zero_left add_0_right]
  by simp_all

declare base64_ref.simps(1-3) [simp del]

lemma drop_split3:
  "i + 3 \<le> length bs \<Longrightarrow> drop i bs = bs ! i # bs ! (i + 1) # bs ! (i + 2) # drop (i + 3) bs"
  using Cons_nth_drop_Suc [of i bs] Cons_nth_drop_Suc [of "i + 1" bs] Cons_nth_drop_Suc [of "i + 2" bs]
  by (simp add: eval_nat_numeral)

lemma encode_loop_inv:
  assumes "encode_loop bs len i res = (j, r)" "len = length bs" "i \<le> len" "3 dvd i"
  shows "r @ base64_ref (drop j bs) = res @ base64_ref (drop i bs) \<and> j \<le> len \<and> len < j + 3 \<and> 3 dvd j"
  using assms
proof (induction bs len i res rule: encode_loop.induct)
  case (1 bs len i res)
  show ?case
  proof (cases "i \<le> len - 3 \<and> len \<ge> 3")
    case True
    then have i3: "i + 3 \<le> length bs" using "1.prems"(2) by linarith
    have "encode_loop bs len (i + 3) (res @
        [base64_chars ! unat (sextet0 (bs ! i)), base64_chars ! unat (sextet1 (bs ! i) (bs ! (i + 1))),
         base64_chars ! unat (sextet2 (bs ! (i + 1)) (bs ! (i + 2))),
         base64_chars ! unat (sextet3 (bs ! (i + 2)))]) = (j, r)"
      using "1.prems"(1) True by (simp add: encode_loop.simps [of bs len i] Let_def)
    from "1.IH" [OF True refl refl refl this "1.prems"(2)] show ?thesis
      using i3 "1.prems"(2,4) unfolding drop_split3 [OF i3] base64_ref_sextets by simp
  next
    case False
    then have "j = i" "r = res"
      using "1.prems"(1) by (auto simp: encode_loop.simps [of bs len i])
    then show ?thesis using False "1.prems"(2-) by auto
  qed
qed

lemma modulus_pad:
  "push_bit 1 (n mod 3 AND 1) + drop_bit 1 (n mod 3 AND 2) =
     (if n mod 3 = 1 then 2 else if n mod 3 = 2 then 1 else (0 :: nat))"
proof -
  have "n mod 3 = 0 \<or> n mod 3 = 1 \<or> n mod 3 = 2" by linarith
  then show ?thesis by auto
qed

lemma EncodeBase64_eq_ref: "EncodeBase64 bs = base64_ref bs"
proof -
  obtain j r where l: "encode_loop bs (length bs) 0 [] = (j, r)" by force
  have inv: "r @ base64_ref (drop j bs) = base64_ref bs" "j \<le> length bs" "length bs < j + 3" "3 dvd j"
    using encode_loop_inv [OF l] by auto
  then have m: "length bs mod 3 = length bs - j"
    by presburger
  consider "length (drop j bs) = 0" | "length (drop j bs) = 1" | "length (drop j bs) = 2"
    using inv(3) by fastforce
  then show ?thesis
  proof cases
    case 1
    then show ?thesis using inv m unfolding EncodeBase64_def Let_def modulus_pad l by simp
  next
    case 2
    then have "drop j bs = [bs ! j]" "length bs - j = 1" using Cons_nth_drop_Suc [of j bs] by simp_all
    then show ?thesis
      using inv m unfolding EncodeBase64_def Let_def modulus_pad l
      by (simp add: base64_ref_sextets)
  next
    case 3
    then have "drop j bs = [bs ! j, bs ! (j + 1)]" "length bs - j = 2"
      using Cons_nth_drop_Suc [of j bs] Cons_nth_drop_Suc [of "Suc j" bs] by simp_all
    then show ?thesis
      using inv m unfolding EncodeBase64_def Let_def modulus_pad l
      by (simp add: base64_ref_sextets)
  qed
qed

section \<open>Round trip\<close>

lemma base64_index_digits:
  "list_all (\<lambda>n. base64_index (base64_chars ! n) = of_nat n \<and> base64_chars ! n \<noteq> CHR ''='') [0..<64]"
  by code_simp

lemma base64_index_digit:
  "n < 64 \<Longrightarrow> base64_index (base64_chars ! n) = of_nat n"
  "n < 64 \<Longrightarrow> base64_chars ! n \<noteq> CHR ''=''"
  using base64_index_digits unfolding list_all_iff set_upt Ball_def atLeastLessThan_iff by blast+

lemma drop_bit_of_small:
  "m < 256 \<Longrightarrow> drop_bit 2 (of_nat m :: u32) = of_nat (m div 4)"
  "m < 256 \<Longrightarrow> drop_bit 4 (of_nat m :: u32) = of_nat (m div 16)"
  by (simp_all add: drop_bit_eq_div word_unat_eq_iff unat_div_distrib unsigned_of_nat
      take_bit_nat_eq_self order.strict_trans1 [OF div_le_dividend])

lemma octet_values:
  assumes "i < 64" "j < 64"
  shows "octet0 (of_nat i) (of_nat j) = of_nat (i * 4 + j div 16)"
    "octet1 (of_nat i) (of_nat j) = of_nat (i * 16 + j div 4)"
    "octet2 (of_nat i) (of_nat j) = of_nat (i * 64 + j)"
proof -
  have lt: "i < 256" "j < 256" "j div 16 < 2 ^ 2" "j div 4 < 2 ^ 4" "j < 2 ^ 6"
    using assms by (simp_all add: div_less_iff_less_mult)
  have c: "ucast (of_nat n :: u32) = (of_nat n :: u8)" for n
    by (simp add: word_unat_eq_iff unsigned_ucast_eq unsigned_of_nat)
  show "octet0 (of_nat i) (of_nat j) = of_nat (i * 4 + j div 16)"
    unfolding octet0_def ucast_of_byte [OF lt(1)] ucast_of_byte [OF lt(2)] drop_bit_of_small(2) [OF lt(2)]
    using of_nat_or_push_bit [OF lt(3), of "of_nat i :: u32"] c [of "i * 4 + j div 16"]
    by (simp add: or.commute)
  show "octet1 (of_nat i) (of_nat j) = of_nat (i * 16 + j div 4)"
    unfolding octet1_def ucast_of_byte [OF lt(1)] ucast_of_byte [OF lt(2)] drop_bit_of_small(1) [OF lt(2)]
    using of_nat_or_push_bit [OF lt(4), of "of_nat i :: u32"] c [of "i * 16 + j div 4"]
    by (simp add: or.commute)
  show "octet2 (of_nat i) (of_nat j) = of_nat (i * 64 + j)"
    unfolding octet2_def ucast_of_byte [OF lt(1)] ucast_of_byte [OF lt(2)]
    using of_nat_or_push_bit [OF lt(5), of "of_nat i :: u32"] c [of "i * 64 + j"]
    by (simp add: or.commute)
qed

lemma sextet_lt:
  "unat (sextet0 a) < 64" "unat (sextet1 a b) < 64" "unat (sextet2 b c) < 64" "unat (sextet3 c) < 64"
proof -
  have "unat a mod 4 < 4" "unat b div 16 < 16" "unat b mod 16 < 16" "unat c div 64 < 4"
    "unat a div 4 < 64" "unat c mod 64 < 64"
    by (simp_all add: div_less_iff_less_mult)
  then show "unat (sextet0 a) < 64" "unat (sextet1 a b) < 64" "unat (sextet2 b c) < 64"
    "unat (sextet3 c) < 64"
    unfolding sextet_values by linarith+
qed

lemma of_nat_byte_wrap: "of_nat (256 * k + n) = (of_nat n :: u8)"
proof -
  have "(256 :: u8) = 0" by (simp add: word_unat_eq_iff)
  then show ?thesis by (simp only: of_nat_add of_nat_mult of_nat_numeral mult_zero_left add_0)
qed

lemma of_nat_unat_byte: "of_nat (unat b) = (b :: u8)"
  by simp

lemma octets_of_sextets:
  "octet0 (of_nat (unat (sextet0 a))) (of_nat (unat (sextet1 a b))) = a"
  "octet1 (of_nat (unat (sextet1 a b))) (of_nat (unat (sextet2 b c))) = b"
  "octet2 (of_nat (unat (sextet2 b c))) (of_nat (unat (sextet3 c))) = c"
proof -
  have lt: "unat b div 16 < 16" "unat c div 64 < 4" by (simp_all add: div_less_iff_less_mult)
  have "unat a div 4 * 4 + (unat a mod 4 * 16 + unat b div 16) div 16 = unat a"
    using lt(1) by simp
  then show "octet0 (of_nat (unat (sextet0 a))) (of_nat (unat (sextet1 a b))) = a"
    by (simp only: octet_values(1) [OF sextet_lt(1,2)]) (simp only: sextet_values of_nat_unat_byte)
  have "(unat a mod 4 * 16 + unat b div 16) * 16 + (unat b mod 16 * 4 + unat c div 64) div 4 =
      256 * (unat a mod 4) + unat b"
    using lt(2) div_mult_mod_eq [of "unat b" 16] by (simp add: algebra_simps)
  then show "octet1 (of_nat (unat (sextet1 a b))) (of_nat (unat (sextet2 b c))) = b"
    by (simp only: octet_values(2) [OF sextet_lt(2,3)])
      (simp only: sextet_values of_nat_byte_wrap of_nat_unat_byte)
  have "(unat b mod 16 * 4 + unat c div 64) * 64 + unat c mod 64 = 256 * (unat b mod 16) + unat c"
    using div_mult_mod_eq [of "unat c" 64] by (simp add: algebra_simps)
  then show "octet2 (of_nat (unat (sextet2 b c))) (of_nat (unat (sextet3 c))) = c"
    by (simp only: octet_values(3) [OF sextet_lt(3,4)])
      (simp only: sextet_values of_nat_byte_wrap of_nat_unat_byte)
qed

lemma length_base64_ref: "length (base64_ref bs) = 4 * ((length bs + 2) div 3)"
proof (induction bs rule: base64_ref.induct)
  case (1 a b c bs)
  have "(length bs + 3 + 2) div 3 = Suc ((length bs + 2) div 3)" by presburger
  with 1 show ?case by (simp add: Let_def base64_ref.simps)
qed (simp_all add: Let_def base64_ref.simps)

lemma str_at_append:
  "k < length s \<Longrightarrow> str_at (pre @ s) (int (length pre) + int k) = Some (s ! k)"
  by (simp add: str_at_def nat_add_distrib nth_append)

lemma base64_at_append:
  "k < length s \<Longrightarrow> base64_at (pre @ s) (int (length pre) + int k) = Some (base64_index (s ! k))"
  by (simp add: base64_at_def str_at_append)

definition pad_of :: "nat \<Rightarrow> int" where
  "pad_of n = (if n mod 3 = 0 then 0 else if n mod 3 = 1 then 2 else 1)"

lemma decode_loop_stop: "bound < charNo \<Longrightarrow> decode_loop s bound charNo res = Some (charNo, res)"
  by (simp add: decode_loop.simps)

lemma decode_loop_step:
  assumes "int (length pre) \<le> bound"
  shows "decode_loop (pre @ base64_ref (a # b # c # bs)) bound (int (length pre)) res =
    decode_loop (pre @ base64_ref (a # b # c # bs)) bound (int (length pre + 4)) (res @ [a, b, c])"
proof -
  let ?s = "base64_ref (a # b # c # bs)"
  have at: "base64_at (pre @ ?s) (int (length pre)) = Some (of_nat (unat (sextet0 a)))"
    "base64_at (pre @ ?s) (int (length pre) + 1) = Some (of_nat (unat (sextet1 a b)))"
    "base64_at (pre @ ?s) (int (length pre) + 2) = Some (of_nat (unat (sextet2 b c)))"
    "base64_at (pre @ ?s) (int (length pre) + 3) = Some (of_nat (unat (sextet3 c)))"
    using base64_at_append [of 0 ?s pre] base64_at_append [of 1 ?s pre]
      base64_at_append [of 2 ?s pre] base64_at_append [of 3 ?s pre]
    by (simp_all add: base64_ref_sextets base64_index_digit sextet_lt
        del: of_nat_unat)
  show ?thesis
    by (subst decode_loop.simps)
      (simp only: at bind.bind_lunit octets_of_sextets if_P [OF assms], simp)
qed

lemma decode_loop_ref:
  "decode_loop (pre @ base64_ref bs)
     (int (length (pre @ base64_ref bs)) - 4 - pad_of (length bs)) (int (length pre)) res =
   Some (int (length pre + 4 * (length bs div 3)), res @ take (3 * (length bs div 3)) bs)"
proof (induction bs arbitrary: pre res rule: base64_ref.induct)
  case (1 a b c bs)
  let ?bs = "a # b # c # bs"
  obtain q where q: "base64_ref ?bs = q @ base64_ref bs" "length q = 4"
    using base64_ref_sextets(1) [of a b c bs] by force
  have p: "pad_of (length ?bs) = pad_of (length bs)" by (simp add: pad_of_def)
  have le: "int (length pre) \<le> int (length (pre @ base64_ref ?bs)) - 4 - pad_of (length ?bs)"
    unfolding p q(1) using q(2) by (cases bs) (auto simp: length_base64_ref pad_of_def)
  have "decode_loop (pre @ base64_ref ?bs) (int (length (pre @ base64_ref ?bs)) - 4 - pad_of (length ?bs))
      (int (length pre)) res =
    decode_loop ((pre @ q) @ base64_ref bs)
      (int (length ((pre @ q) @ base64_ref bs)) - 4 - pad_of (length bs)) (int (length (pre @ q))) (res @ [a, b, c])"
    using decode_loop_step [where res = res and a = a and b = b and c = c and bs = bs, OF le] q unfolding p by simp
  also have "\<dots> = Some (int (length (pre @ q) + 4 * (length bs div 3)),
      (res @ [a, b, c]) @ take (3 * (length bs div 3)) bs)"
    by (rule "1.IH" [OF refl])
  finally have "decode_loop (pre @ base64_ref ?bs)
      (int (length (pre @ base64_ref ?bs)) - 4 - pad_of (length ?bs)) (int (length pre)) res =
    Some (int (length (pre @ q) + 4 * (length bs div 3)), (res @ [a, b, c]) @ take (3 * (length bs div 3)) bs)" .
  moreover have "length ?bs div 3 = Suc (length bs div 3)" by simp
  moreover have "take (3 * Suc n) ?bs = a # b # c # take (3 * n) bs" for n
    by (simp add: take_Cons')
  ultimately show ?case using q(2) by simp
qed (simp_all add: pad_of_def Let_def decode_loop_stop base64_ref.simps)

lemma base64_ref_append: "length xs mod 3 = 0 \<Longrightarrow> base64_ref (xs @ ys) = base64_ref xs @ base64_ref ys"
proof (induction xs rule: base64_ref.induct)
  case (1 a b c bs)
  then have "length bs mod 3 = 0" by simp
  with 1 show ?case by (simp add: base64_ref_sextets)
qed simp_all

lemma str_at_last_quad:
  assumes "length q = 4"
  shows "str_at (pre @ q) (int (length (pre @ q)) - 1) = Some (q ! 3)"
    "str_at (pre @ q) (int (length (pre @ q)) - 2) = Some (q ! 2)"
  using str_at_append [of 3 q pre] str_at_append [of 2 q pre] assms by (simp_all add: add.commute)

lemma base64_ref_last_group:
  assumes "length xs mod 3 = 0" "xs \<noteq> []"
  obtains zs a b c where "base64_ref xs = base64_ref zs @ base64_ref [a, b, c]"
proof -
  have "3 \<le> length xs" using assms dvd_imp_le [of 3 "length xs"] by (simp add: mod_eq_0_iff_dvd)
  then have "length (drop (length xs - 3) xs) = 3" by simp
  then obtain a b c where "drop (length xs - 3) xs = [a, b, c]"
    by (auto simp only: numeral_3_eq_3 length_Suc_conv length_0_conv)
  then obtain zs where xs: "xs = zs @ [a, b, c]" using append_take_drop_id by metis
  then have "length zs mod 3 = 0" using assms(1) by simp
  then have "base64_ref xs = base64_ref zs @ base64_ref [a, b, c]" unfolding xs by (rule base64_ref_append)
  then show ?thesis by (rule that)
qed

lemma DecodeBase64_ref_tail:
  assumes "length xs mod 3 = 0" "length ys < 3" "xs @ ys \<noteq> []"
  shows "DecodeBase64 (base64_ref (xs @ ys)) = Some (xs @ ys)"
proof -
  let ?s = "base64_ref (xs @ ys)" and ?n = "length (xs @ ys)"
  have s: "?s = base64_ref xs @ base64_ref ys" by (rule base64_ref_append [OF assms(1)])
  have d: "?n div 3 * 3 = length xs" "4 * (?n div 3) = length (base64_ref xs)"
    using assms(1,2) unfolding length_base64_ref by (simp, presburger)+
  have loop: "decode_loop ?s (int (length ?s) - 4 - pad_of ?n) 0 [] = Some (int (length (base64_ref xs)), xs)"
    using decode_loop_ref [of "[]" "xs @ ys" "[]"] d by (simp add: mult.commute)
  consider "ys = []" | a where "ys = [a]" | a b where "ys = [a, b]"
    using assms(2) by (cases ys rule: base64_ref.cases) auto
  then show ?thesis
  proof cases
    case 1
    then have "xs \<noteq> []" using assms(3) by simp
    then obtain zs a b c where z: "base64_ref xs = base64_ref zs @ base64_ref [a, b, c]"
      by (rule base64_ref_last_group [OF assms(1)])
    note q = str_at_last_quad [of "base64_ref [a, b, c]" "base64_ref zs", folded z]
    show ?thesis
      using loop 1 assms(1) q unfolding DecodeBase64_def Let_def
      by (simp add: base64_ref_sextets base64_index_digit sextet_lt pad_of_def)
  next
    case 2
    then have pad: "pad_of ?n = 2" using assms(1) by (simp add: pad_of_def) presburger
    note q = str_at_last_quad [of "base64_ref ys" "base64_ref xs", folded s]
    have "base64_at ?s (int (length (base64_ref xs))) = Some (of_nat (unat (sextet0 a)))"
      "base64_at ?s (int (length (base64_ref xs)) + 1) = Some (of_nat (unat (sextet1 a 0)))"
      using base64_at_append [of 0 "base64_ref ys" "base64_ref xs"]
        base64_at_append [of 1 "base64_ref ys" "base64_ref xs"] 2 unfolding s
      by (simp_all add: base64_ref_sextets base64_index_digit sextet_lt)
    then show ?thesis
      using loop 2 q unfolding DecodeBase64_def Let_def pad
      by (simp add: base64_ref_sextets octets_of_sextets del: of_nat_unat)
  next
    case 3
    then have pad: "pad_of ?n = 1" using assms(1) by (simp add: pad_of_def) presburger
    note q = str_at_last_quad [of "base64_ref ys" "base64_ref xs", folded s]
    have "base64_at ?s (int (length (base64_ref xs))) = Some (of_nat (unat (sextet0 a)))"
      "base64_at ?s (int (length (base64_ref xs)) + 1) = Some (of_nat (unat (sextet1 a b)))"
      "base64_at ?s (int (length (base64_ref xs)) + 2) = Some (of_nat (unat (sextet2 b 0)))"
      using base64_at_append [of 0 "base64_ref ys" "base64_ref xs"]
        base64_at_append [of 1 "base64_ref ys" "base64_ref xs"]
        base64_at_append [of 2 "base64_ref ys" "base64_ref xs"] 3 unfolding s
      by (simp_all add: base64_ref_sextets base64_index_digit sextet_lt)
    then show ?thesis
      using loop 3 q unfolding DecodeBase64_def Let_def pad
      by (simp add: base64_ref_sextets base64_index_digit sextet_lt octets_of_sextets del: of_nat_unat)
  qed
qed

lemma DecodeBase64_ref: "bs \<noteq> [] \<Longrightarrow> DecodeBase64 (base64_ref bs) = Some bs"
proof -
  assume "bs \<noteq> []"
  let ?k = "length bs div 3 * 3"
  have "?k \<le> length bs" "length bs - ?k < 3" by presburger+
  then have "length (take ?k bs) mod 3 = 0" "length (drop ?k bs) < 3" by (simp_all add: min_absorb2)
  then show ?thesis using DecodeBase64_ref_tail [of "take ?k bs" "drop ?k bs"] \<open>bs \<noteq> []\<close> by simp
qed

lemma length_EncodeBase64: "length (EncodeBase64 bs) = 4 * ((length bs + 2) div 3)"
  by (simp add: EncodeBase64_eq_ref length_base64_ref)


end
