(* ===== verification/Ws_Session.thy ===== *)
theory Ws_Session
  imports Ws_Header Utf8 Base64
begin

text \<open>
  The state of the websocket client \<open>SessionImplEV\<close>
  (\<^verbatim>\<open>src/net/ws_cli/implement/ev/session_impl_ev.{h,cpp}\<close>), the libraries it calls, and its sending
  side: raw frames, fragmented messages and the close handshake.

  libevent, the random generator and SHA-1 are not part of the sources. They are the fields of an
  \<open>env\<close> record: every operation below takes one, and \<open>env_laws\<close> collects what their documentation
  promises. The contents of an \<open>evbuffer\<close> are a byte list. The application's handlers are values
  of a type \<open>'h\<close>; \<open>user\<close> says what running one does to the session, which it may call back into.
\<close>

section \<open>The state\<close>

text \<open>A member \<open>x_\<close> of the class is the field \<open>x_m\<close> of the record.\<close>

text \<open>\<open>serverReason_m\<close> points nowhere, at the literal \<open>""\<close>, or at \<open>ctrlPayload_m[2]\<close>.\<close>

datatype reason_ptr = ReasonNull | ReasonLiteral | ReasonCtrl

record 'h MessageHandler =
  isValid_m :: bool
  handler_m :: "'h option"

record ('w, 'h) session =
  evBase_m :: bool
  dnsBase_m :: bool
  msg_m :: "bytes option"
  frameData_m :: "bytes option"
  bev_m :: "bytes option"
  bev_input :: bytes
  connectTimeout_m :: int
  connectTimeoutEvent_m :: bool
  uri_m :: string
  host_m :: string
  handshakeKeyBase64_m :: string
  origin_m :: string
  port_m :: int
  numSubprotocols_m :: nat
  subprotocols_m :: "string list"
  connectState_m :: WSConnectState
  closeTimeoutEvent_m :: bool
  httpHeaderFlags_m :: u8
  recvFrameLen_m :: u64
  maxFrameSize_m :: nat
  ctrlPayload_m :: bytes
  ctrlLen_m :: nat
  state_m :: WSState
  utf8State_m :: nat
  sendState_m :: WSSendState
  serverCloseStatus_m :: WSCloseStatus
  hasHeader_m :: bool
  wsHeader_m :: WSHeader
  header_m :: "(string \<times> string) list"
  inMsgFlag_m :: bool
  useSsl_m :: bool
  binaryMode_m :: bool
  msgIsBinary_m :: bool
  sentCloseFlag_m :: bool
  receivedCloseFlag_m :: bool
  msgIsBinary :: bool
  noCopyCleanupCb_m :: "'h option"
  onClose_m :: "'h option"
  onConnect_m :: "'h option"
  onMessage_m :: "'h MessageHandler"
  onPing_m :: "'h option"
  onPong_m :: "'h option"
  serverReason_m :: reason_ptr
  serverReasonLen_m :: nat
  world :: 'w

text \<open>What the application is told.\<close>

datatype user_event =
    Connected
  | Message bytes bool
  | Closed WSCloseStatus "bytes option" nat
  | Ping bytes nat
  | Pong bytes nat

record ('w, 'h) env =
  rand_s :: "'w \<Rightarrow> u32 \<times> 'w"
  evbuffer_new :: "'w \<Rightarrow> bool \<times> 'w"
  evbuffer_add :: "bytes \<Rightarrow> bytes \<Rightarrow> 'w \<Rightarrow> int \<times> bytes \<times> 'w"
  evbuffer_add_reference :: "bytes \<Rightarrow> bytes \<Rightarrow> 'w \<Rightarrow> int \<times> bytes \<times> 'w"
  evbuffer_add_printf :: "bytes \<Rightarrow> bytes \<Rightarrow> 'w \<Rightarrow> int \<times> bytes \<times> 'w"
  evbuffer_add_buffer :: "bytes \<Rightarrow> bytes \<Rightarrow> 'w \<Rightarrow> int \<times> bytes \<times> bytes \<times> 'w"
  evbuffer_copyout :: "bytes \<Rightarrow> nat \<Rightarrow> bytes"
  evbuffer_drain :: "bytes \<Rightarrow> nat \<Rightarrow> bytes"
  evbuffer_remove :: "bytes \<Rightarrow> nat \<Rightarrow> bytes \<times> bytes"
  evbuffer_readln :: "bytes \<Rightarrow> bytes option \<times> bytes"
  evtimer_new :: "'w \<Rightarrow> bool \<times> 'w"
  evtimer_add :: "int \<Rightarrow> 'w \<Rightarrow> int \<times> 'w"
  event_base_new :: "'w \<Rightarrow> bool \<times> 'w"
  evdns_base_new :: "'w \<Rightarrow> bool \<times> 'w"
  bufferevent_socket_new :: "'w \<Rightarrow> bool \<times> 'w"
  bufferevent_socket_connect_hostname :: "string \<Rightarrow> int \<Rightarrow> 'w \<Rightarrow> int \<times> 'w"
  event_base_loopexit :: "'w \<Rightarrow> int \<times> 'w"
  event_base_loopbreak :: "'w \<Rightarrow> int \<times> 'w"
  WSAStartup :: "'w \<Rightarrow> int \<times> 'w"
  SHA1 :: "bytes \<Rightarrow> bytes"
  stack_bytes :: "nat \<Rightarrow> bytes"
  user :: "'h \<Rightarrow> user_event \<Rightarrow> ('w, 'h) session \<Rightarrow> (unit, ('w, 'h) session) outcome"

text \<open>The end of a line for \<open>EVBUFFER_EOL_CRLF\<close>: an optional carriage return and a linefeed.\<close>

definition crlf_split :: "bytes \<Rightarrow> bytes option \<times> bytes" where
  "crlf_split b =
     (if 10 \<in> set b then
        (let line = takeWhile (\<lambda>c. c \<noteq> 10) b
         in (Some (if line \<noteq> [] \<and> last line = 13 then butlast line else line),
             drop (Suc (length line)) b))
      else (None, b))"

definition env_laws :: "('w, 'h) env \<Rightarrow> bool" where
  "env_laws E \<longleftrightarrow>
     (\<forall>b d w rc b' w'. evbuffer_add E b d w = (rc, b', w') \<longrightarrow> b' = (if rc = 0 then b @ d else b)) \<and>
     (\<forall>b d w rc b' w'. evbuffer_add_reference E b d w = (rc, b', w') \<longrightarrow>
        b' = (if rc = 0 then b @ d else b)) \<and>
     (\<forall>b d w rc b' w'. evbuffer_add_printf E b d w = (rc, b', w') \<longrightarrow>
        b' = (if rc = -1 then b else b @ d)) \<and>
     (\<forall>b d w rc b' d' w'. evbuffer_add_buffer E b d w = (rc, b', d', w') \<longrightarrow>
        (b', d') = (if rc = 0 then (b @ d, []) else (b, d))) \<and>
     (\<forall>b n. evbuffer_copyout E b n = take n b) \<and>
     (\<forall>b n. evbuffer_drain E b n = drop n b) \<and>
     (\<forall>b n. evbuffer_remove E b n = (take n b, drop n b)) \<and>
     (\<forall>b. evbuffer_readln E b = crlf_split b) \<and>
     (\<forall>d. length (SHA1 E d) = 20) \<and>
     (\<forall>n. length (stack_bytes E n) = n)"

lemma env_lawsD:
  assumes "env_laws E"
  shows "evbuffer_add E b d w = (rc, b', w') \<Longrightarrow> b' = (if rc = 0 then b @ d else b)"
    "evbuffer_add_reference E b d w = (rc, b', w') \<Longrightarrow> b' = (if rc = 0 then b @ d else b)"
    "evbuffer_add_printf E b d w = (rc, b', w') \<Longrightarrow> b' = (if rc = -1 then b else b @ d)"
    "evbuffer_add_buffer E b d w = (rc, b', d', w') \<Longrightarrow> (b', d') = (if rc = 0 then (b @ d, []) else (b, d))"
    "evbuffer_copyout E b n = take n b" "evbuffer_drain E b n = drop n b"
    "evbuffer_remove E b n = (take n b, drop n b)" "evbuffer_readln E b = crlf_split b"
    "length (SHA1 E d) = 20" "length (stack_bytes E n) = n"
  using assms unfolding env_laws_def by metis+

text \<open>Calls that may fail, in the runs where memory and timers are available.\<close>

definition env_no_failure :: "('w, 'h) env \<Rightarrow> bool" where
  "env_no_failure E \<longleftrightarrow>
     (\<forall>w. fst (evbuffer_new E w)) \<and>
     (\<forall>b d w. fst (evbuffer_add E b d w) = 0) \<and>
     (\<forall>b d w. fst (evbuffer_add_reference E b d w) = 0) \<and>
     (\<forall>b d w. fst (evbuffer_add_printf E b d w) \<noteq> -1) \<and>
     (\<forall>b d w. fst (evbuffer_add_buffer E b d w) = 0) \<and>
     (\<forall>w. fst (evtimer_new E w)) \<and>
     (\<forall>t w. fst (evtimer_add E t w) = 0)"

lemma env_no_failureD:
  assumes "env_no_failure E"
  shows "fst (evbuffer_new E w)" "fst (evbuffer_add E b d w) = 0" "fst (evbuffer_add_reference E b d w) = 0"
    "fst (evbuffer_add_printf E b d w) \<noteq> -1" "fst (evbuffer_add_buffer E b d w) = 0"
    "fst (evtimer_new E w)" "fst (evtimer_add E t w) = 0"
  using assms unfolding env_no_failure_def by simp_all

text \<open>A handler that is called; a null function pointer or empty \<open>std::function\<close> is \<open>None\<close>.\<close>

definition call_ptr ::
  "('w, 'h) env \<Rightarrow> 'h option \<Rightarrow> user_event \<Rightarrow> ('w, 'h) session \<Rightarrow> (unit, ('w, 'h) session) outcome" where
  "call_ptr E f ev s = (case f of None \<Rightarrow> Fault NullCall | Some h \<Rightarrow> user E h ev s)"

definition ConnectHandler_call ::
  "('w, 'h) env \<Rightarrow> 'h option \<Rightarrow> ('w, 'h) session \<Rightarrow> (unit, ('w, 'h) session) outcome" where
  "ConnectHandler_call E f s = (case f of None \<Rightarrow> Ret () s | Some h \<Rightarrow> user E h Connected s)"

definition MessageHandler_call ::
  "('w, 'h) env \<Rightarrow> 'h MessageHandler \<Rightarrow> bytes \<Rightarrow> bool \<Rightarrow> ('w, 'h) session \<Rightarrow>
   (unit, ('w, 'h) session) outcome" where
  "MessageHandler_call E m msg binary s =
     (case handler_m m of None \<Rightarrow> Ret () s | Some h \<Rightarrow> user E h (Message msg binary) s)"

section \<open>Sending frames\<close>

definition ShutDown :: "('w, 'h) session \<Rightarrow> ('w, 'h) session" where
  "ShutDown s =
     (let s = (if connectTimeoutEvent_m s then s\<lparr>connectTimeoutEvent_m := False\<rparr> else s)
      in case bev_m s of None \<Rightarrow> s | Some _ \<Rightarrow> s\<lparr>bev_m := None\<rparr>)"

definition SendData :: "('w, 'h) env \<Rightarrow> bytes \<Rightarrow> bool \<Rightarrow> ('w, 'h) session \<Rightarrow> int \<times> ('w, 'h) session" where
  "SendData E msg no_copy s =
     (case bev_m s of
        None \<Rightarrow> (-1, s)
      | Some output \<Rightarrow>
          (let (rc, output', w) =
             (if no_copy \<and> noCopyCleanupCb_m s \<noteq> None
              then evbuffer_add_reference E output msg (world s)
              else evbuffer_add E output msg (world s))
           in (if rc \<noteq> 0 then -1 else 0, s\<lparr>bev_m := Some output', world := w\<rparr>)))"

text \<open>
  \<open>GetRandomMask\<close> fills the \<open>mask\<close> member of the header in place and reports how many bytes it
  wrote. The payload is masked in place as well, so the operations that send one also return what
  the caller's buffer holds afterwards.
\<close>

definition fill_mask :: "('w, 'h) env \<Rightarrow> ('w, 'h) session \<Rightarrow> nat \<times> ('w, 'h) session" where
  "fill_mask E s =
     (let (key, n, w) = GetRandomMask (rand_s E) 4 (world s)
      in (n, s\<lparr>wsHeader_m := (wsHeader_m s)\<lparr>mask_key := load_le key\<rparr>, world := w\<rparr>))"

definition SendFrameRaw ::
  "('w, 'h) env \<Rightarrow> WSOpcode \<Rightarrow> bytes \<Rightarrow> ('w, 'h) session \<Rightarrow> (int \<times> bytes, ('w, 'h) session) outcome" where
  "SendFrameRaw E opc data s =
     (let dataLen = length data in
      if sendState_m s \<noteq> SEND_NONE then Ret (-1, data) s
      else if IsControlOpcode (opcode_value opc) \<and> dataLen > 125 then Ret (-1, data) s
      else
        (let s = s\<lparr>wsHeader_m := WSHeader0\<rparr>;
             s = s\<lparr>wsHeader_m := (wsHeader_m s)\<lparr>fin := 1, opcode := of_nat (opcode_value opc)\<rparr>\<rparr>
         in if dataLen > WS_MAX_PAYLOAD_LEN then Ret (-1, data) s
            else
              (let s = s\<lparr>wsHeader_m := (wsHeader_m s)\<lparr>maskBit := 1, payloadLen := of_nat dataLen\<rparr>\<rparr>;
                   (n, s) = fill_mask E s
               in if n \<noteq> 4 then Ret (-1, data) s
                  else
                    (case PackHeader (wsHeader_m s) (stack_bytes E WS_HDR_MAX_SIZE) WS_HDR_MAX_SIZE of
                       Fault e \<Rightarrow> Fault e
                     | Ret header_len header_buf \<Rightarrow>
                         (let (rc, s) = SendData E (take header_len header_buf) False s
                          in if rc \<noteq> 0 then Ret (-1, data) s
                             else
                               (let data = MaskPayload (mask_key (wsHeader_m s)) data dataLen;
                                    (rc, s) = SendData E data True s
                                in Ret (if rc \<noteq> 0 then -1 else 0, data) s))))))"

section \<open>The close handshake, sending side\<close>

text \<open>
  \<open>reason\<close> is the memory readable through the pointer and \<open>reason_len\<close> the number of bytes copied
  from it; copying more than is there is out of bounds.
\<close>

definition SendClose ::
  "('w, 'h) env \<Rightarrow> WSCloseStatus \<Rightarrow> bytes \<Rightarrow> nat \<Rightarrow> ('w, 'h) session \<Rightarrow> (int, ('w, 'h) session) outcome" where
  "SendClose E statusCode reason reason_len s =
     (if WS_IS_CLOSE_STATUS_NOT_USED statusCode then Ret (-1) s
      else if reason_len + 2 > WS_CONTROL_MAX_PAYLOAD_LEN then Ret (-1) s
      else if length reason < reason_len then Fault OutOfBounds
      else
        (let close_payload = store_le 2 (htons (of_int statusCode)) @ take reason_len reason
         in andThen (SendFrameRaw E CLOSE_0X8 close_payload s)
              (\<lambda>(rc, _) s. Ret (if rc \<noteq> 0 then -1 else 0) s)))"

definition close_failed :: "('w, 'h) env \<Rightarrow> ('w, 'h) session \<Rightarrow> (int, ('w, 'h) session) outcome" where
  "close_failed E s =
     (let s = (if closeTimeoutEvent_m s then s\<lparr>closeTimeoutEvent_m := False\<rparr> else s);
          s = ShutDown s;
          reason = to_bytes ''Problem sending close frame'' @ [0]
      in case onClose_m s of
           None \<Rightarrow> Ret (-1) s
         | Some _ \<Rightarrow>
             andThen (call_ptr E (onClose_m s) (Closed ABNORMAL_1006 (Some reason) (length reason)) s)
               (\<lambda>_ s. Ret (-1) s))"

definition arm_close_timeout :: "('w, 'h) env \<Rightarrow> ('w, 'h) session \<Rightarrow> (int, ('w, 'h) session) outcome" where
  "arm_close_timeout E s =
     (let s = s\<lparr>sentCloseFlag_m := True\<rparr>;
          (ok, w) = evtimer_new E (world s);
          s = s\<lparr>closeTimeoutEvent_m := ok, world := w\<rparr>
      in if \<not> ok then close_failed E s
         else
           (let (rc, w) = evtimer_add E 3 (world s);
                s = s\<lparr>world := w\<rparr>
            in if rc \<noteq> 0 then close_failed E s else Ret 0 s))"

definition CloseWithStatusReason ::
  "('w, 'h) env \<Rightarrow> WSCloseStatus \<Rightarrow> bytes \<Rightarrow> nat \<Rightarrow> ('w, 'h) session \<Rightarrow> (int, ('w, 'h) session) outcome" where
  "CloseWithStatusReason E status reason reason_len s =
     (let s = s\<lparr>state_m := CLOSING\<rparr> in
      if \<not> sentCloseFlag_m s then
        andThen (SendClose E status reason reason_len s)
          (\<lambda>rc s. if rc \<noteq> 0 then close_failed E s else arm_close_timeout E s)
      else arm_close_timeout E s)"

definition CloseWithStatus ::
  "('w, 'h) env \<Rightarrow> WSCloseStatus \<Rightarrow> ('w, 'h) session \<Rightarrow> (int, ('w, 'h) session) outcome" where
  "CloseWithStatus E status s = CloseWithStatusReason E status [] 0 s"

definition DoClose :: "('w, 'h) env \<Rightarrow> ('w, 'h) session \<Rightarrow> (int, ('w, 'h) session) outcome" where
  "DoClose E s = CloseWithStatusReason E NORMAL_1000 [] 0 s"

section \<open>Sending messages\<close>

definition OnSendMsgBegin :: "bool \<Rightarrow> ('w, 'h) session \<Rightarrow> (int, ('w, 'h) session) outcome" where
  "OnSendMsgBegin binary s =
     wtf_check (state_m s \<noteq> CONNECTED)
       (if sendState_m s \<noteq> SEND_NONE then Ret (-1) s
        else
          (let s = s\<lparr>binaryMode_m := binary\<rparr>;
               s = s\<lparr>wsHeader_m := WSHeader0\<rparr>;
               opc = (if binaryMode_m s then BINARY_0X2 else TEXT_0X1);
               s = s\<lparr>wsHeader_m := (wsHeader_m s)\<lparr>opcode := of_nat (opcode_value opc)\<rparr>\<rparr>
           in Ret 0 (s\<lparr>sendState_m := MESSAGE_BEGIN\<rparr>)))"

definition send_header :: "('w, 'h) env \<Rightarrow> ('w, 'h) session \<Rightarrow> (int, ('w, 'h) session) outcome" where
  "send_header E s =
     (case PackHeader (wsHeader_m s) (stack_bytes E WS_HDR_MAX_SIZE) WS_HDR_MAX_SIZE of
        Fault e \<Rightarrow> Fault e
      | Ret header_len header_buf \<Rightarrow>
          (let (rc, s) = SendData E (take header_len header_buf) False s
           in Ret (if rc \<noteq> 0 then -1 else 0) s))"

definition OnMsgFrameDataBegin ::
  "('w, 'h) env \<Rightarrow> nat \<Rightarrow> ('w, 'h) session \<Rightarrow> (int, ('w, 'h) session) outcome" where
  "OnMsgFrameDataBegin E datalen s =
     (if sendState_m s \<noteq> MESSAGE_BEGIN \<and> sendState_m s \<noteq> IN_MESSAGE then Ret (-1) s
      else if datalen > WS_MAX_PAYLOAD_LEN then Ret (-1) s
      else
        (let s = s\<lparr>wsHeader_m := (wsHeader_m s)\<lparr>maskBit := 1, payloadLen := of_nat datalen\<rparr>\<rparr>;
             (n, s) = fill_mask E s
         in if n \<noteq> 4 then Ret (-1) s
            else if sendState_m s = MESSAGE_BEGIN then
              wtf_check (has_opcode (wsHeader_m s) TEXT_0X1 \<or> has_opcode (wsHeader_m s) BINARY_0X2)
                (send_header E (s\<lparr>sendState_m := IN_MESSAGE\<rparr>))
            else
              send_header E
                (s\<lparr>wsHeader_m := (wsHeader_m s)\<lparr>opcode := of_nat (opcode_value CONTINUATION_0X0)\<rparr>\<rparr>)))"

definition OnMsgFrameDataSend ::
  "('w, 'h) env \<Rightarrow> bytes \<Rightarrow> ('w, 'h) session \<Rightarrow> (int \<times> bytes, ('w, 'h) session) outcome" where
  "OnMsgFrameDataSend E data s =
     (if sendState_m s \<noteq> IN_MESSAGE then Ret (-1, data) s
      else
        (let data = (if maskBit (wsHeader_m s) \<noteq> 0
                     then MaskPayload (mask_key (wsHeader_m s)) data (length data) else data);
             (rc, s) = SendData E data True s
         in Ret (if rc \<noteq> 0 then -1 else 0, data) s))"

definition OnMsgFrameSend ::
  "('w, 'h) env \<Rightarrow> bytes \<Rightarrow> ('w, 'h) session \<Rightarrow> (int \<times> bytes, ('w, 'h) session) outcome" where
  "OnMsgFrameSend E frame_data s =
     wtf_check (state_m s \<noteq> CONNECTED)
       (if sendState_m s \<noteq> MESSAGE_BEGIN \<and> sendState_m s \<noteq> IN_MESSAGE then Ret (-1, frame_data) s
        else
          andThen (OnMsgFrameDataBegin E (length frame_data) s)
            (\<lambda>rc s. if rc \<noteq> 0 then Ret (-1, frame_data) s
                    else andThen (OnMsgFrameDataSend E frame_data s)
                           (\<lambda>(rc, data) s. Ret (if rc \<noteq> 0 then -1 else 0, data) s)))"

definition OnSendMsgEnd :: "('w, 'h) env \<Rightarrow> ('w, 'h) session \<Rightarrow> (int, ('w, 'h) session) outcome" where
  "OnSendMsgEnd E s =
     (if sendState_m s \<noteq> IN_MESSAGE then Ret (-1) s
      else
        (let s = s\<lparr>wsHeader_m := (wsHeader_m s)\<lparr>fin := 1\<rparr>\<rparr>
         in andThen (OnMsgFrameSend E [] s)
              (\<lambda>(rc, _) s. if rc \<noteq> 0 then Ret (-1) s else Ret 0 (s\<lparr>sendState_m := SEND_NONE\<rparr>))))"

text \<open>
  The \<open>do\<close> loop over the fragments; every round takes at least one byte, so the length of the
  message bounds the number of rounds.
\<close>

fun send_fragments ::
  "('w, 'h) env \<Rightarrow> nat \<Rightarrow> bytes \<Rightarrow> ('w, 'h) session \<Rightarrow> (int \<times> bytes, ('w, 'h) session) outcome" where
  "send_fragments E 0 msg s = Fault OutOfFuel"
| "send_fragments E (Suc n) msg s =
     (let remaining = length msg;
          curlen = (if remaining > maxFrameSize_m s then maxFrameSize_m s else remaining)
      in andThen (OnMsgFrameSend E (take curlen msg) s)
           (\<lambda>(rc, sent) s.
              if rc \<noteq> 0 then Ret (-1, sent @ drop curlen msg) s
              else if remaining - curlen > 0 then
                andThen (send_fragments E n (drop curlen msg) s) (\<lambda>(rc, rest) s. Ret (rc, sent @ rest) s)
              else Ret (0, sent) s))"

definition SendMsgEx ::
  "('w, 'h) env \<Rightarrow> bytes \<Rightarrow> bool \<Rightarrow> ('w, 'h) session \<Rightarrow> (int \<times> bytes, ('w, 'h) session) outcome" where
  "SendMsgEx E msg binary s =
     wtf_check (state_m s = CONNECTED)
       (if length msg \<le> maxFrameSize_m s \<or> maxFrameSize_m s = 0
        then SendFrameRaw E (if binary then BINARY_0X2 else TEXT_0X1) msg s
        else
          andThen (OnSendMsgBegin binary s)
            (\<lambda>rc s. if rc \<noteq> 0 then Ret (-1, msg) s
                    else andThen (send_fragments E (length msg) msg s)
                      (\<lambda>(rc, msg) s. if rc \<noteq> 0 then Ret (-1, msg) s
                         else andThen (OnSendMsgEnd E s)
                                (\<lambda>rc s. Ret (if rc \<noteq> 0 then -1 else 0, msg) s))))"

definition DoSendMsg ::
  "('w, 'h) env \<Rightarrow> bytes \<Rightarrow> ('w, 'h) session \<Rightarrow> (int \<times> bytes, ('w, 'h) session) outcome" where
  "DoSendMsg E msg s = SendMsgEx E msg False s"

section \<open>What sending changes\<close>

text \<open>
  Sending a frame touches the frame header, the output buffer and the outside world, and nothing
  else; it leaves the connection object itself in place.
\<close>

definition sent_on :: "('w, 'h) session \<Rightarrow> ('w, 'h) session \<Rightarrow> bool" where
  "sent_on s t \<longleftrightarrow>
     (\<exists>h b w. t = s\<lparr>wsHeader_m := h, bev_m := b, world := w\<rparr> \<and> (b = None \<longleftrightarrow> bev_m s = None))"

lemma sent_onI:
  "t = s\<lparr>wsHeader_m := h, bev_m := b, world := w\<rparr> \<Longrightarrow> b = None \<longleftrightarrow> bev_m s = None \<Longrightarrow> sent_on s t"
  unfolding sent_on_def by (intro exI conjI)

lemma sent_on_refl [simp]: "sent_on s s"
  by (rule sent_onI [where h = "wsHeader_m s" and b = "bev_m s" and w = "world s"]) simp_all

lemma sent_on_trans:
  assumes "sent_on s t" "sent_on t u"
  shows "sent_on s u"
proof -
  obtain h b w where t: "t = s\<lparr>wsHeader_m := h, bev_m := b, world := w\<rparr>" "b = None \<longleftrightarrow> bev_m s = None"
    using assms(1) unfolding sent_on_def by (elim exE conjE) rule
  obtain h' b' w' where u: "u = t\<lparr>wsHeader_m := h', bev_m := b', world := w'\<rparr>"
    "b' = None \<longleftrightarrow> bev_m t = None"
    using assms(2) unfolding sent_on_def by (elim exE conjE) rule
  show ?thesis
    by (rule sent_onI [where h = h' and b = b' and w = w']) (use t u in simp_all)
qed

lemma sent_on_fields:
  assumes "sent_on s t"
  shows "state_m t = state_m s" "sentCloseFlag_m t = sentCloseFlag_m s" "hasHeader_m t = hasHeader_m s"
    "ctrlLen_m t = ctrlLen_m s" "ctrlPayload_m t = ctrlPayload_m s" "onClose_m t = onClose_m s"
    "closeTimeoutEvent_m t = closeTimeoutEvent_m s" "connectTimeoutEvent_m t = connectTimeoutEvent_m s"
    "sendState_m t = sendState_m s" "bev_m t = None \<longleftrightarrow> bev_m s = None"
  using assms by (auto simp: sent_on_def)

lemma sent_on_header [simp]: "sent_on s (s\<lparr>wsHeader_m := h\<rparr>)"
  by (rule sent_onI [where h = h and b = "bev_m s" and w = "world s"]) simp_all

lemma SendData_sent_on: "SendData E d nc s = (rc, t) \<Longrightarrow> sent_on s t"
  by (cases "bev_m s")
    (auto simp: SendData_def Let_def split: prod.splits
      intro: sent_onI [where h = "wsHeader_m s"])

lemma fill_mask_sent_on: "fill_mask E s = (n, t) \<Longrightarrow> sent_on s t \<and> n = 4"
  by (auto simp: fill_mask_def split: prod.splits dest: GetRandomMask_count
      intro: sent_onI [where b = "bev_m s"])

lemma PackHeader_Ret:
  "env_laws E \<Longrightarrow> PackHeader h (stack_bytes E WS_HDR_MAX_SIZE) WS_HDR_MAX_SIZE =
     Ret (length (rfc_header h (unat (payloadLen h))))
         (rfc_header h (unat (payloadLen h)) @ drop (length (rfc_header h (unat (payloadLen h)))) (stack_bytes E 14))"
  using PackHeader_rfc [of "stack_bytes E 14" 14 h] by (simp add: env_lawsD ws_consts)

lemma SendFrameRaw_sent_on:
  assumes "env_laws E"
  shows "\<exists>rc d t. SendFrameRaw E opc data s = Ret (rc, d) t \<and> sent_on s t"
proof -
  let ?h = "WSHeader0\<lparr>fin := 1, opcode := of_nat (opcode_value opc), maskBit := 1, payloadLen := of_nat (length data)\<rparr>"
  obtain n t where f: "fill_mask E (s\<lparr>wsHeader_m := ?h\<rparr>) = (n, t)" by force
  have t: "sent_on s t" "n = 4"
    using fill_mask_sent_on [OF f] sent_on_trans [OF sent_on_header] by auto
  obtain rc u where u: "SendData E (rfc_header (wsHeader_m t) (unat (payloadLen (wsHeader_m t)))) False t = (rc, u)"
    by force
  obtain rc' v where v: "SendData E (MaskPayload (mask_key (wsHeader_m u)) data (length data)) True u = (rc', v)"
    by force
  have uv: "sent_on s u" "sent_on s v"
    using t(1) SendData_sent_on [OF u] SendData_sent_on [OF v] sent_on_trans by blast+
  show ?thesis
    using f t uv by (auto simp: SendFrameRaw_def Let_def PackHeader_Ret [OF assms] u v)
qed

lemma evbuffer_add_ok:
  assumes "env_laws E" "env_no_failure E"
  shows "\<exists>w'. evbuffer_add E b d w = (0, b @ d, w')"
proof (cases "evbuffer_add E b d w")
  case (fields rc b' w')
  moreover have "rc = 0" using env_no_failureD [OF assms(2)] fields by (metis fst_conv)
  moreover have "b' = (if rc = 0 then b @ d else b)"
    by (rule env_lawsD(1) [OF assms(1) fields])
  ultimately show ?thesis by simp
qed

lemma evbuffer_add_reference_ok:
  assumes "env_laws E" "env_no_failure E"
  shows "\<exists>w'. evbuffer_add_reference E b d w = (0, b @ d, w')"
proof (cases "evbuffer_add_reference E b d w")
  case (fields rc b' w')
  moreover have "rc = 0" using env_no_failureD [OF assms(2)] fields by (metis fst_conv)
  moreover have "b' = (if rc = 0 then b @ d else b)"
    by (rule env_lawsD(2) [OF assms(1) fields])
  ultimately show ?thesis by simp
qed

lemma SendData_ok:
  assumes "env_laws E" "env_no_failure E" "bev_m s = Some out"
  shows "\<exists>w. SendData E d nc s = (0, s\<lparr>bev_m := Some (out @ d), world := w\<rparr>)"
proof -
  show ?thesis
    using evbuffer_add_ok [OF assms(1,2), of out d "world s"]
      evbuffer_add_reference_ok [OF assms(1,2), of out d "world s"] assms(3)
    by (auto simp: SendData_def)
qed

lemma SendFrameRaw_ok:
  assumes "env_laws E" "env_no_failure E" "sendState_m s = SEND_NONE" "bev_m s = Some out"
    "\<not> (IsControlOpcode (opcode_value opc) \<and> length data > 125)" "length data \<le> WS_MAX_PAYLOAD_LEN"
  obtains key w where
    "SendFrameRaw E opc data s =
       Ret (0, xor_key (store_le 4 key) data)
         (s\<lparr>wsHeader_m := WSHeader0\<lparr>fin := 1, opcode := of_nat (opcode_value opc), maskBit := 1,
               payloadLen := of_nat (length data), mask_key := key\<rparr>,
            bev_m := Some (out @ rfc_header (WSHeader0\<lparr>fin := 1, opcode := of_nat (opcode_value opc),
               maskBit := 1, mask_key := key\<rparr>) (length data mod 128) @ xor_key (store_le 4 key) data),
            world := w\<rparr>)"
proof -
  let ?op = "of_nat (opcode_value opc) :: 4 word"
  let ?h = "WSHeader0\<lparr>fin := 1, opcode := ?op, maskBit := 1, payloadLen := of_nat (length data)\<rparr>"
  obtain kb n w where g: "GetRandomMask (rand_s E) 4 (world s) = (kb, n, w)"
    by (rule prod_cases3)
  then have n: "n = 4" by (rule GetRandomMask_count [THEN conjunct1])
  define key :: u32 where "key = load_le kb"
  let ?t = "s\<lparr>wsHeader_m := ?h\<lparr>mask_key := key\<rparr>, world := w\<rparr>"
  have f: "fill_mask E (s\<lparr>wsHeader_m := ?h\<rparr>) = (4, ?t)"
    using g n by (simp add: fill_mask_def key_def)
  let ?hd = "rfc_header (WSHeader0\<lparr>fin := 1, opcode := ?op, maskBit := 1, mask_key := key\<rparr>) (length data mod 128)"
  have pl: "unat (of_nat (length data) :: 7 word) = length data mod 128"
    by (simp add: unsigned_of_nat take_bit_eq_mod)
  have hd: "rfc_header (?h\<lparr>mask_key := key\<rparr>) (length data mod 128) = ?hd"
    by (simp add: rfc_header_def)
  obtain w' where u: "SendData E ?hd False ?t = (0, ?t\<lparr>bev_m := Some (out @ ?hd), world := w'\<rparr>)"
    using SendData_ok [OF assms(1,2), of ?t out] assms(4) by auto
  let ?u = "?t\<lparr>bev_m := Some (out @ ?hd), world := w'\<rparr>"
  obtain w'' where v: "SendData E (xor_key (store_le 4 key) data) True ?u =
      (0, ?u\<lparr>bev_m := Some ((out @ ?hd) @ xor_key (store_le 4 key) data), world := w''\<rparr>)"
    using SendData_ok [OF assms(1,2), of ?u "out @ ?hd"] by auto
  show thesis
  proof (rule that)
    show "SendFrameRaw E opc data s = Ret (0, xor_key (store_le 4 key) data)
        (s\<lparr>wsHeader_m := ?h\<lparr>mask_key := key\<rparr>, bev_m := Some (out @ ?hd @ xor_key (store_le 4 key) data), world := w''\<rparr>)"
      using assms(3,5,6) f pl hd u v
      by (simp add: SendFrameRaw_def Let_def PackHeader_Ret [OF assms(1)] MaskPayload_eq)
  qed
qed

section \<open>What closing changes\<close>

text \<open>No operation of the class ever sets \<open>onClose_\<close>, so the frame below is the one of every run.\<close>

definition closed_on :: "('w, 'h) session \<Rightarrow> ('w, 'h) session \<Rightarrow> bool" where
  "closed_on s t \<longleftrightarrow>
     (\<exists>st sc ct cn h b w. t = s\<lparr>state_m := st, sentCloseFlag_m := sc, closeTimeoutEvent_m := ct,
        connectTimeoutEvent_m := cn, wsHeader_m := h, bev_m := b, world := w\<rparr> \<and>
        (bev_m s = None \<longrightarrow> b = None) \<and> (sentCloseFlag_m s \<longrightarrow> sc) \<and> (st = state_m s \<or> st = CLOSING))"

lemma closed_onI:
  "t = s\<lparr>state_m := st, sentCloseFlag_m := sc, closeTimeoutEvent_m := ct, connectTimeoutEvent_m := cn,
     wsHeader_m := h, bev_m := b, world := w\<rparr> \<Longrightarrow> bev_m s = None \<longrightarrow> b = None \<Longrightarrow>
   sentCloseFlag_m s \<longrightarrow> sc \<Longrightarrow> st = state_m s \<or> st = CLOSING \<Longrightarrow> closed_on s t"
  unfolding closed_on_def by (intro exI conjI)

lemma closed_onE:
  assumes "closed_on s t"
  obtains st sc ct cn h b w where
    "t = s\<lparr>state_m := st, sentCloseFlag_m := sc, closeTimeoutEvent_m := ct, connectTimeoutEvent_m := cn,
       wsHeader_m := h, bev_m := b, world := w\<rparr>" "bev_m s = None \<longrightarrow> b = None" "sentCloseFlag_m s \<longrightarrow> sc"
    "st = state_m s \<or> st = CLOSING"
  using assms unfolding closed_on_def by (elim exE conjE) rule

lemma closed_on_refl [simp]: "closed_on s s"
  by (rule closed_onI [where st = "state_m s" and sc = "sentCloseFlag_m s" and ct = "closeTimeoutEvent_m s"
        and cn = "connectTimeoutEvent_m s" and h = "wsHeader_m s" and b = "bev_m s" and w = "world s"]) simp_all

lemma closed_on_trans:
  assumes "closed_on s t" "closed_on t u"
  shows "closed_on s u"
proof -
  from assms(1) obtain st sc ct cn h b w where t:
    "t = s\<lparr>state_m := st, sentCloseFlag_m := sc, closeTimeoutEvent_m := ct, connectTimeoutEvent_m := cn,
       wsHeader_m := h, bev_m := b, world := w\<rparr>" "bev_m s = None \<longrightarrow> b = None" "sentCloseFlag_m s \<longrightarrow> sc"
    "st = state_m s \<or> st = CLOSING"
    by (rule closed_onE)
  from assms(2) obtain st' sc' ct' cn' h' b' w' where u:
    "u = t\<lparr>state_m := st', sentCloseFlag_m := sc', closeTimeoutEvent_m := ct', connectTimeoutEvent_m := cn',
       wsHeader_m := h', bev_m := b', world := w'\<rparr>" "bev_m t = None \<longrightarrow> b' = None" "sentCloseFlag_m t \<longrightarrow> sc'"
    "st' = state_m t \<or> st' = CLOSING"
    by (rule closed_onE)
  show ?thesis
    by (rule closed_onI [where st = st' and sc = sc' and ct = ct' and cn = cn' and h = h' and b = b' and w = w'])
      (use t u in auto)
qed

lemma sent_on_closed_on:
  assumes "sent_on s t"
  shows "closed_on s t"
proof -
  obtain h b w where t: "t = s\<lparr>wsHeader_m := h, bev_m := b, world := w\<rparr>" "b = None \<longleftrightarrow> bev_m s = None"
    using assms unfolding sent_on_def by (elim exE conjE) rule
  show ?thesis
    by (rule closed_onI [where st = "state_m s" and sc = "sentCloseFlag_m s" and ct = "closeTimeoutEvent_m s"
          and cn = "connectTimeoutEvent_m s" and h = h and b = b and w = w]) (use t in simp_all)
qed

lemma closed_on_fields:
  assumes "closed_on s t"
  shows "hasHeader_m t = hasHeader_m s" "ctrlLen_m t = ctrlLen_m s" "ctrlPayload_m t = ctrlPayload_m s"
    "onClose_m t = onClose_m s" "onPing_m t = onPing_m s" "onPong_m t = onPong_m s"
    "onMessage_m t = onMessage_m s" "recvFrameLen_m t = recvFrameLen_m s" "sendState_m t = sendState_m s"
    "frameData_m t = frameData_m s" "msg_m t = msg_m s" "inMsgFlag_m t = inMsgFlag_m s"
    "receivedCloseFlag_m t = receivedCloseFlag_m s" "bev_m s = None \<longrightarrow> bev_m t = None"
    "sentCloseFlag_m s \<longrightarrow> sentCloseFlag_m t" "utf8State_m t = utf8State_m s"
    "connectState_m t = connectState_m s" "msgIsBinary t = msgIsBinary s"
    "header_m t = header_m s" "handshakeKeyBase64_m t = handshakeKeyBase64_m s"
    "state_m t = state_m s \<or> state_m t = CLOSING" "httpHeaderFlags_m t = httpHeaderFlags_m s"
  using assms by (auto elim!: closed_onE)

lemma close_failed_closed_on:
  assumes "onClose_m s = None"
  shows "\<exists>t. close_failed E s = Ret (-1) t \<and> closed_on s t \<and> bev_m t = None"
proof -
  let ?t = "s\<lparr>closeTimeoutEvent_m := False, connectTimeoutEvent_m := False, bev_m := None\<rparr>"
  have "close_failed E s = Ret (-1) ?t"
    using assms by (auto simp: close_failed_def ShutDown_def Let_def split: option.splits)
  moreover have "closed_on s ?t"
    by (rule closed_onI [where st = "state_m s" and sc = "sentCloseFlag_m s" and ct = False and cn = False
          and h = "wsHeader_m s" and b = None and w = "world s"]) simp_all
  ultimately show ?thesis by simp
qed

lemma arm_close_timeout_closed_on:
  assumes "onClose_m s = None"
  shows "\<exists>rc t. arm_close_timeout E s = Ret rc t \<and> closed_on s t \<and> sentCloseFlag_m t \<and>
    (rc = 0 \<and> bev_m t = bev_m s \<and> state_m t = state_m s \<and> closeTimeoutEvent_m t \<or> rc = -1 \<and> bev_m t = None)"
proof -
  obtain ok w where n: "evtimer_new E (world s) = (ok, w)" by force
  obtain rc w' where a: "evtimer_add E 3 w = (rc, w')" by force
  let ?s = "s\<lparr>sentCloseFlag_m := True, closeTimeoutEvent_m := ok, world := w\<rparr>"
  have c: "closed_on s (s\<lparr>sentCloseFlag_m := True, closeTimeoutEvent_m := ok, world := v\<rparr>)" for v
    by (rule closed_onI [where st = "state_m s" and sc = True and ct = ok and cn = "connectTimeoutEvent_m s"
          and h = "wsHeader_m s" and b = "bev_m s" and w = v]) simp_all
  show ?thesis
  proof (cases "ok \<and> rc = 0")
    case True
    then show ?thesis using c [of w'] n a by (simp add: arm_close_timeout_def)
  next
    case False
    define v where "v = (if ok then w' else w)"
    obtain t where t: "close_failed E (?s\<lparr>world := v\<rparr>) = Ret (-1) t" "closed_on (?s\<lparr>world := v\<rparr>) t" "bev_m t = None"
      using close_failed_closed_on [of "?s\<lparr>world := v\<rparr>" E] assms by auto
    have "closed_on s t" using closed_on_trans [OF c [of v]] t(2) by simp
    moreover have "sentCloseFlag_m t" using closed_on_fields(15) [OF t(2)] by simp
    moreover have "arm_close_timeout E s = Ret (-1) t"
      using False n a t(1) by (cases ok) (simp_all add: arm_close_timeout_def v_def)
    ultimately show ?thesis using t(3) by blast
  qed
qed

lemma CloseWithStatusReason_ends:
  assumes "env_laws E" "onClose_m s = None"
  shows "ends (\<lambda>e. e = OutOfBounds \<and> \<not> sentCloseFlag_m s \<and> length reason < reason_len)
    (\<lambda>rc t. closed_on s t \<and> (sentCloseFlag_m s \<longrightarrow> bev_m t = bev_m s \<or> bev_m t = None) \<and>
       (rc = 0 \<longrightarrow> sentCloseFlag_m t \<and> state_m t = CLOSING \<and> closeTimeoutEvent_m t) \<and>
       (rc \<noteq> 0 \<longrightarrow> bev_m t = None))
    (CloseWithStatusReason E status reason reason_len s)"
proof -
  let ?s = "s\<lparr>state_m := CLOSING\<rparr>"
  have c: "closed_on s ?s"
    by (rule closed_onI [where st = CLOSING and sc = "sentCloseFlag_m s" and ct = "closeTimeoutEvent_m s"
          and cn = "connectTimeoutEvent_m s" and h = "wsHeader_m s" and b = "bev_m s" and w = "world s"]) simp_all
  have arm: "\<exists>rc t. arm_close_timeout E u = Ret rc t \<and> closed_on s t \<and> sentCloseFlag_m t \<and>
      (rc = 0 \<and> bev_m t = bev_m u \<and> state_m t = CLOSING \<and> closeTimeoutEvent_m t \<or> rc = -1 \<and> bev_m t = None)"
    if "sent_on ?s u" for u
  proof -
    have "onClose_m u = None" "closed_on s u" "state_m u = CLOSING"
      using sent_on_fields [OF that] closed_on_trans [OF c sent_on_closed_on [OF that]] assms(2) by simp_all
    then show ?thesis using arm_close_timeout_closed_on [of u E] closed_on_trans by metis
  qed
  have failed: "\<exists>t. close_failed E u = Ret (-1) t \<and> closed_on s t \<and> bev_m t = None" if "sent_on ?s u" for u
  proof -
    have "onClose_m u = None" "closed_on s u"
      using sent_on_fields [OF that] closed_on_trans [OF c sent_on_closed_on [OF that]] assms(2) by simp_all
    then show ?thesis using close_failed_closed_on [of u E] closed_on_trans by metis
  qed
  show ?thesis
  proof (cases "sentCloseFlag_m s")
    case True
    then show ?thesis using arm [of ?s] by (auto simp: CloseWithStatusReason_def)
  next
    case False
    have "\<exists>rc u. SendClose E status reason reason_len ?s = Ret rc u \<and> sent_on ?s u"
      if "\<not> length reason < reason_len"
      using SendFrameRaw_sent_on [OF assms(1), of CLOSE_0X8 "store_le 2 (htons (of_int status)) @ take reason_len reason" ?s] that
      by (auto simp: SendClose_def)
    moreover have "SendClose E status reason reason_len ?s = Fault OutOfBounds \<or>
        SendClose E status reason reason_len ?s = Ret (-1) ?s" if "length reason < reason_len"
      using that by (auto simp: SendClose_def)
    moreover have "sent_on ?s ?s" by simp
    ultimately show ?thesis
      using False arm failed by (cases "length reason < reason_len") (fastforce simp: CloseWithStatusReason_def)+
  qed
qed

lemma CloseWithStatusReason_ok:
  assumes "env_laws E" "env_no_failure E" "sendState_m s = SEND_NONE" "bev_m s = Some out"
    "\<not> sentCloseFlag_m s" "\<not> WS_IS_CLOSE_STATUS_NOT_USED status" "reason_len \<le> 123" "reason_len \<le> length reason"
  shows "\<exists>key t. CloseWithStatusReason E status reason reason_len s = Ret 0 t \<and> closed_on s t \<and>
    state_m t = CLOSING \<and> sentCloseFlag_m t \<and> closeTimeoutEvent_m t \<and>
    bev_m t = Some (out @ rfc_header (WSHeader0\<lparr>fin := 1, opcode := 8, maskBit := 1, mask_key := key\<rparr>) (reason_len + 2)
      @ xor_key (store_le 4 key) (store_le 2 (htons (of_int status)) @ take reason_len reason))"
proof -
  let ?s = "s\<lparr>state_m := CLOSING\<rparr>"
  let ?d = "store_le 2 (htons (of_int status)) @ take reason_len reason"
  have d: "length ?d = reason_len + 2" using assms(8) by simp
  obtain key w where f: "SendFrameRaw E CLOSE_0X8 ?d ?s =
      Ret (0, xor_key (store_le 4 key) ?d)
         (?s\<lparr>wsHeader_m := WSHeader0\<lparr>fin := 1, opcode := of_nat (opcode_value CLOSE_0X8), maskBit := 1,
               payloadLen := of_nat (length ?d), mask_key := key\<rparr>,
            bev_m := Some (out @ rfc_header (WSHeader0\<lparr>fin := 1, opcode := of_nat (opcode_value CLOSE_0X8),
               maskBit := 1, mask_key := key\<rparr>) (length ?d mod 128) @ xor_key (store_le 4 key) ?d),
            world := w\<rparr>)" (is "_ = Ret _ ?u")
    by (rule SendFrameRaw_ok [OF assms(1,2), of ?s out CLOSE_0X8 ?d]) (use assms d in \<open>simp_all add: ws_consts\<close>)
  obtain w1 where n: "evtimer_new E (world ?u) = (True, w1)"
    using env_no_failureD(6) [OF assms(2), of "world ?u"] by (cases "evtimer_new E (world ?u)") auto
  obtain w2 where a: "evtimer_add E 3 w1 = (0, w2)"
    using env_no_failureD(7) [OF assms(2), of 3 w1] by (cases "evtimer_add E 3 w1") auto
  let ?t = "?u\<lparr>sentCloseFlag_m := True, closeTimeoutEvent_m := True, world := w2\<rparr>"
  have "CloseWithStatusReason E status reason reason_len s = Ret 0 ?t"
    using assms(5-8) f n a by (simp add: CloseWithStatusReason_def SendClose_def arm_close_timeout_def ws_consts)
  moreover have "closed_on s ?t"
    by (rule closed_onI [where st = CLOSING and sc = True and ct = True and cn = "connectTimeoutEvent_m s"
          and h = "wsHeader_m ?u" and b = "bev_m ?u" and w = w2]) (simp_all add: assms(4))
  moreover have "(reason_len + 2) mod 128 = reason_len + 2" using assms(7) by simp
  ultimately show ?thesis using d by (intro exI [of _ key] exI [of _ ?t]) simp
qed

section \<open>A new session and a working environment\<close>

text \<open>
  \<open>std::make_shared<SessionImplEV>()\<close> value-initialises the object: the class has a defaulted
  constructor, so every member without an initialiser is zero.
\<close>

definition new_session :: "'w \<Rightarrow> ('w, 'h) session" where
  "new_session w =
     \<lparr>evBase_m = False, dnsBase_m = False, msg_m = None, frameData_m = None, bev_m = None, bev_input = [],
      connectTimeout_m = 0, connectTimeoutEvent_m = False, uri_m = [], host_m = [],
      handshakeKeyBase64_m = [], origin_m = [], port_m = 0, numSubprotocols_m = 0, subprotocols_m = [],
      connectState_m = CONN_NONE, closeTimeoutEvent_m = False, httpHeaderFlags_m = 0, recvFrameLen_m = 0,
      maxFrameSize_m = 0, ctrlPayload_m = replicate 125 0, ctrlLen_m = 0, state_m = DNS_LOOKUP,
      utf8State_m = 0, sendState_m = SEND_NONE, serverCloseStatus_m = 0, hasHeader_m = False,
      wsHeader_m = WSHeader0, header_m = [], inMsgFlag_m = False, useSsl_m = False, binaryMode_m = False,
      msgIsBinary_m = False, sentCloseFlag_m = False, receivedCloseFlag_m = False, msgIsBinary = False,
      noCopyCleanupCb_m = None, onClose_m = None, onConnect_m = None,
      onMessage_m = \<lparr>isValid_m = False, handler_m = None\<rparr>, onPing_m = None, onPong_m = None,
      serverReason_m = ReasonNull, serverReasonLen_m = 0, world = w\<rparr>"

text \<open>
  An environment that satisfies the laws and never fails: the world is the list of events the
  application has been told, and every handler just records its event.
\<close>

definition sample_env :: "(user_event list, unit) env" where
  "sample_env =
     \<lparr>rand_s = (\<lambda>w. (0xA5, w)), evbuffer_new = (\<lambda>w. (True, w)),
      evbuffer_add = (\<lambda>b d w. (0, b @ d, w)), evbuffer_add_reference = (\<lambda>b d w. (0, b @ d, w)),
      evbuffer_add_printf = (\<lambda>b d w. (0, b @ d, w)), evbuffer_add_buffer = (\<lambda>b d w. (0, b @ d, [], w)),
      evbuffer_copyout = (\<lambda>b n. take n b), evbuffer_drain = (\<lambda>b n. drop n b),
      evbuffer_remove = (\<lambda>b n. (take n b, drop n b)), evbuffer_readln = crlf_split,
      evtimer_new = (\<lambda>w. (True, w)), evtimer_add = (\<lambda>t w. (0, w)), event_base_new = (\<lambda>w. (True, w)),
      evdns_base_new = (\<lambda>w. (True, w)), bufferevent_socket_new = (\<lambda>w. (True, w)),
      bufferevent_socket_connect_hostname = (\<lambda>h p w. (0, w)), event_base_loopexit = (\<lambda>w. (0, w)),
      event_base_loopbreak = (\<lambda>w. (0, w)), WSAStartup = (\<lambda>w. (0, w)), SHA1 = (\<lambda>d. replicate 20 0), stack_bytes = (\<lambda>n. replicate n 0),
      user = (\<lambda>h ev s. Ret () (s\<lparr>world := world s @ [ev]\<rparr>))\<rparr>"

lemma sample_env_ok [simp]: "env_laws sample_env" "env_no_failure sample_env"
  by (simp_all add: env_laws_def env_no_failure_def sample_env_def)

definition connected_session :: "(user_event list, unit) session" where
  "connected_session = (new_session [])\<lparr>state_m := CONNECTED, connectState_m := HANDSHAKE_COMPLETE,
     bev_m := Some [], onMessage_m := \<lparr>isValid_m = True, handler_m = Some ()\<rparr>\<rparr>"

section \<open>Properties of the sending side\<close>

definition frame_header :: "WSOpcode \<Rightarrow> u32 \<Rightarrow> WSHeader" where
  "frame_header opc key =
     WSHeader0\<lparr>fin := 1, opcode := of_nat (opcode_value opc), maskBit := 1, mask_key := key\<rparr>"

text \<open>
  C1. Sending a message on an established connection appends exactly one frame to the output
  buffer: a final, masked text frame whose header is the RFC 6455 header for the length modulo 128,
  followed by the whole message exclusive-ored with the masking key. The caller's buffer is left
  masked.
\<close>
theorem DoSendMsg_wire:
  assumes "env_laws E" "env_no_failure E" "state_m s = CONNECTED" "sendState_m s = SEND_NONE"
    "bev_m s = Some out" "length msg \<le> maxFrameSize_m s \<or> maxFrameSize_m s = 0"
    "length msg \<le> WS_MAX_PAYLOAD_LEN"
  shows "\<exists>key t. DoSendMsg E msg s = Ret (0, xor_key (store_le 4 key) msg) t \<and>
    bev_m t = Some (out @ rfc_header (frame_header TEXT_0X1 key) (length msg mod 128) @
      xor_key (store_le 4 key) msg)"
proof -
  obtain key w where "SendFrameRaw E TEXT_0X1 msg s = Ret (0, xor_key (store_le 4 key) msg)
      (s\<lparr>wsHeader_m := WSHeader0\<lparr>fin := 1, opcode := of_nat (opcode_value TEXT_0X1), maskBit := 1,
            payloadLen := of_nat (length msg), mask_key := key\<rparr>,
         bev_m := Some (out @ rfc_header (WSHeader0\<lparr>fin := 1, opcode := of_nat (opcode_value TEXT_0X1),
            maskBit := 1, mask_key := key\<rparr>) (length msg mod 128) @ xor_key (store_le 4 key) msg),
         world := w\<rparr>)"
    by (rule SendFrameRaw_ok [OF assms(1,2,4,5) _ assms(7), of TEXT_0X1]) (simp_all add: IsControlOpcode_def)
  then show ?thesis
    using assms(3,6) by (auto simp: DoSendMsg_def SendMsgEx_def frame_header_def)
qed

theorem DoSendMsg_wire_witness:
  "\<exists>key t. DoSendMsg sample_env [72, 105] connected_session = Ret (0, xor_key (store_le 4 key) [72, 105]) t \<and>
    bev_m t = Some ([] @ rfc_header (frame_header TEXT_0X1 key) (length [72, 105 :: u8] mod 128) @
      xor_key (store_le 4 key) [72, 105])"
  by (rule DoSendMsg_wire) (simp_all add: connected_session_def new_session_def ws_consts)





lemma arm_close_timeout_ok:
  assumes "env_no_failure E"
  shows "\<exists>t. arm_close_timeout E s = Ret 0 t \<and> bev_m t = bev_m s"
  using env_no_failureD(6) [OF assms, of "world s"] env_no_failureD(7) [OF assms, of 3]
  by (cases "evtimer_new E (world s)") (auto simp: arm_close_timeout_def Let_def split: prod.splits, metis fst_conv)

text \<open>
  C9. Closing a connection sends one close frame (final, masked, status code in network byte
  order, then the reason), moves the session to \<open>CLOSING\<close> and arms the close timer; every later
  close, whatever its status and reason, sends nothing more.
\<close>
theorem close_sends_one_frame:
  assumes "env_laws E" "env_no_failure E" "sendState_m s = SEND_NONE" "bev_m s = Some out"
    "\<not> sentCloseFlag_m s" "\<not> WS_IS_CLOSE_STATUS_NOT_USED status" "length reason \<le> 123"
  shows "\<exists>key t. CloseWithStatusReason E status reason (length reason) s = Ret 0 t \<and>
    state_m t = CLOSING \<and> sentCloseFlag_m t \<and> closeTimeoutEvent_m t \<and>
    bev_m t = Some (out @ rfc_header (frame_header CLOSE_0X8 key) (length reason + 2)
      @ xor_key (store_le 4 key) (store_le 2 (htons (of_int status)) @ reason)) \<and>
    (\<forall>status' reason' n. \<exists>t'. CloseWithStatusReason E status' reason' n t = Ret 0 t' \<and> bev_m t' = bev_m t)"
proof -
  obtain key t where t: "CloseWithStatusReason E status reason (length reason) s = Ret 0 t"
    "state_m t = CLOSING" "sentCloseFlag_m t" "closeTimeoutEvent_m t"
    "bev_m t = Some (out @ rfc_header (frame_header CLOSE_0X8 key) (length reason + 2)
      @ xor_key (store_le 4 key) (store_le 2 (htons (of_int status)) @ reason))"
    using CloseWithStatusReason_ok [OF assms(1-6), of "length reason" reason] assms(7)
    by (auto simp: frame_header_def)
  have "\<exists>t'. CloseWithStatusReason E status' reason' n t = Ret 0 t' \<and> bev_m t' = bev_m t" for status' reason' n
    using arm_close_timeout_ok [OF assms(2), of "t\<lparr>state_m := CLOSING\<rparr>"] t(3)
    by (simp add: CloseWithStatusReason_def)
  with t show ?thesis by blast
qed

theorem close_sends_one_frame_witness:
  "\<exists>key t. CloseWithStatusReason sample_env NORMAL_1000 [111, 107] (length [111 :: u8, 107]) connected_session = Ret 0 t \<and>
    state_m t = CLOSING \<and> sentCloseFlag_m t \<and> closeTimeoutEvent_m t \<and>
    bev_m t = Some ([] @ rfc_header (frame_header CLOSE_0X8 key) (length [111 :: u8, 107] + 2)
      @ xor_key (store_le 4 key) (store_le 2 (htons (of_int NORMAL_1000)) @ [111, 107])) \<and>
    (\<forall>status' reason' n. \<exists>t'. CloseWithStatusReason sample_env status' reason' n t = Ret 0 t' \<and> bev_m t' = bev_m t)"
  by (rule close_sends_one_frame)
    (simp_all add: connected_session_def new_session_def WS_IS_CLOSE_STATUS_NOT_USED_def ws_consts)

end
