(* ===== verification/Ws_Recv.thy ===== *)
theory Ws_Recv
  imports Ws_Session
begin

text \<open>
  The receiving side of the websocket client: frame headers, message assembly, control frames and
  the loop \<open>ReadWebsocket\<close> of \<^verbatim>\<open>src/net/ws_cli/implement/ev/session_impl_ev.cpp\<close>.

  The input \<open>evbuffer\<close> is a byte list that the loop consumes; each operation returns what is left.
  The loop is bounded by fuel, and \<open>ReadWebsocket\<close> supplies enough of it: every round drains at
  least two header bytes, or at least one payload byte, or ends a frame without touching the input.
\<close>

section \<open>Headers and messages\<close>

definition ValidateHeader :: "('w, 'h) session \<Rightarrow> int" where
  "ValidateHeader s =
     (let h = wsHeader_m s; code = unat (opcode h) in
      if rsv1 h \<noteq> 0 \<or> rsv2 h \<noteq> 0 \<or> rsv3 h \<noteq> 0 then -1
      else if IsReservedOpcode code then -1
      else if IsControlOpcode code \<and> fin h = 0 then -1
      else if has_opcode h CONTINUATION_0X0 \<and> inMsgFlag_m s then -1
      else if inMsgFlag_m s \<and> (\<not> has_opcode h CONTINUATION_0X0 \<and> \<not> IsControlOpcode code) then -1
      else 0)"

definition OnRecvMsgBegin :: "('w, 'h) env \<Rightarrow> ('w, 'h) session \<Rightarrow> ('w, 'h) session" where
  "OnRecvMsgBegin E s =
     (let s = (case msg_m s of None \<Rightarrow> s | Some _ \<Rightarrow> s\<lparr>msg_m := None\<rparr>);
          (ok, w) = evbuffer_new E (world s)
      in s\<lparr>msg_m := (if ok then Some [] else None), world := w\<rparr>)"

definition OnMsgFrameBegin :: "('w, 'h) env \<Rightarrow> ('w, 'h) session \<Rightarrow> ('w, 'h) session" where
  "OnMsgFrameBegin E s =
     (let s = (case frameData_m s of None \<Rightarrow> s | Some _ \<Rightarrow> s\<lparr>frameData_m := None\<rparr>);
          (ok, w) = evbuffer_new E (world s)
      in s\<lparr>frameData_m := (if ok then Some [] else None), world := w\<rparr>)"

definition HandleFrameBegin :: "('w, 'h) env \<Rightarrow> ('w, 'h) session \<Rightarrow> ('w, 'h) session" where
  "HandleFrameBegin E s =
     (let s = s\<lparr>recvFrameLen_m := 0\<rparr> in
      if IsControlOpcode (unat (opcode (wsHeader_m s))) then
        s\<lparr>ctrlPayload_m := replicate (length (ctrlPayload_m s)) 0, ctrlLen_m := 0\<rparr>
      else
        (let s = (if \<not> inMsgFlag_m s
                  then OnRecvMsgBegin E
                         (s\<lparr>inMsgFlag_m := True, utf8State_m := WS_UTF8_ACCEPT,
                            msgIsBinary_m := has_opcode (wsHeader_m s) BINARY_0X2\<rparr>)
                  else s)
         in OnMsgFrameBegin E s))"

section \<open>Control frames\<close>

text \<open>The memory that can be read through \<open>serverReason_\<close>.\<close>

definition reason_memory :: "('w, 'h) session \<Rightarrow> bytes" where
  "reason_memory s = (case serverReason_m s of
       ReasonNull \<Rightarrow> [] | ReasonLiteral \<Rightarrow> [0] | ReasonCtrl \<Rightarrow> drop 2 (ctrlPayload_m s))"

definition echo_close :: "('w, 'h) env \<Rightarrow> ('w, 'h) session \<Rightarrow> (int, ('w, 'h) session) outcome" where
  "echo_close E s =
     (if \<not> sentCloseFlag_m s
      then CloseWithStatusReason E (serverCloseStatus_m s) (reason_memory s) (serverReasonLen_m s) s
      else Ret 0 s)"

definition HandleCloseFrame :: "('w, 'h) env \<Rightarrow> ('w, 'h) session \<Rightarrow> (int, ('w, 'h) session) outcome" where
  "HandleCloseFrame E s =
     (let s = s\<lparr>serverCloseStatus_m := NORMAL_1000, serverReason_m := ReasonLiteral\<rparr>;
          s = (if closeTimeoutEvent_m s then s\<lparr>closeTimeoutEvent_m := False\<rparr> else s);
          s = s\<lparr>state_m := CLOSING, receivedCloseFlag_m := True\<rparr>
      in if ctrlLen_m s > 0 then
           if ctrlLen_m s < 2 then
             andThen (CloseWithStatus E PROTOCOL_ERR_1002 (s\<lparr>serverCloseStatus_m := STATUS_CODE_EXPECTED_1005\<rparr>))
               (\<lambda>_ s. Ret 0 s)
           else
             (let s = s\<lparr>serverCloseStatus_m := int (unat (ntohs (load_le (take 2 (ctrlPayload_m s))))),
                         serverReason_m := ReasonCtrl, serverReasonLen_m := ctrlLen_m s - 2\<rparr>
              in if length (ctrlPayload_m s) \<le> 2 + serverReasonLen_m s then Fault OutOfBounds
                 else
                   (let s = s\<lparr>ctrlPayload_m := (ctrlPayload_m s)[2 + serverReasonLen_m s := 0]\<rparr>
                    in if \<not> WS_IS_PEER_CLOSE_STATUS_VALID (serverCloseStatus_m s) then
                         andThen (CloseWithStatus E PROTOCOL_ERR_1002 s) (\<lambda>_ s. Ret 0 s)
                       else
                         (let s = s\<lparr>utf8State_m := ValidateUtf8 WS_UTF8_ACCEPT
                                      (take (serverReasonLen_m s) (reason_memory s))\<rparr>
                          in if utf8State_m s = WS_UTF8_REJECT then
                               andThen (CloseWithStatus E INCONSISTENT_DATA_1007 s) (\<lambda>_ s. Ret 0 s)
                             else echo_close E s)))
         else echo_close E s)"

definition HandlePingFrame :: "('w, 'h) env \<Rightarrow> ('w, 'h) session \<Rightarrow> (int, ('w, 'h) session) outcome" where
  "HandlePingFrame E s =
     andThen (call_ptr E (onPing_m s) (Ping (ctrlPayload_m s) (ctrlLen_m s)) s) (\<lambda>_ s. Ret 0 s)"

definition HandlePongFrame :: "('w, 'h) env \<Rightarrow> ('w, 'h) session \<Rightarrow> (int, ('w, 'h) session) outcome" where
  "HandlePongFrame E s =
     andThen (call_ptr E (onPong_m s) (Pong (ctrlPayload_m s) (ctrlLen_m s)) s) (\<lambda>_ s. Ret 0 s)"

definition HandleControlFrame :: "('w, 'h) env \<Rightarrow> ('w, 'h) session \<Rightarrow> (int, ('w, 'h) session) outcome" where
  "HandleControlFrame E s =
     wtf_check (IsControlOpcode (unat (opcode (wsHeader_m s))))
       (if has_opcode (wsHeader_m s) CLOSE_0X8 then HandleCloseFrame E s
        else if has_opcode (wsHeader_m s) PONG_0XA then HandlePongFrame E s
        else if has_opcode (wsHeader_m s) PING_0X9 then HandlePingFrame E s
        else Ret (-1) s)"

section \<open>Payload\<close>

definition OnMsgFrame :: "('w, 'h) env \<Rightarrow> ('w, 'h) session \<Rightarrow> (unit, ('w, 'h) session) outcome" where
  "OnMsgFrame E s =
     (case (msg_m s, frameData_m s) of
        (Some m, Some d) \<Rightarrow>
          (let (rc, m', d', w) = evbuffer_add_buffer E m d (world s)
           in Ret () (s\<lparr>msg_m := Some m', frameData_m := Some d', world := w\<rparr>))
      | _ \<Rightarrow> Fault NullDeref)"

definition OnMsgFrameEnd :: "('w, 'h) env \<Rightarrow> ('w, 'h) session \<Rightarrow> (unit, ('w, 'h) session) outcome" where
  "OnMsgFrameEnd E s =
     (case frameData_m s of
        None \<Rightarrow> Fault NullDeref
      | Some _ \<Rightarrow> andThen (OnMsgFrame E s) (\<lambda>_ s. Ret () (s\<lparr>frameData_m := None\<rparr>)))"

definition OnRecvMsgEnd :: "('w, 'h) env \<Rightarrow> ('w, 'h) session \<Rightarrow> (unit, ('w, 'h) session) outcome" where
  "OnRecvMsgEnd E s =
     (case msg_m s of
        None \<Rightarrow> Fault NullDeref
      | Some m \<Rightarrow>
          (let (rc, m', w) = evbuffer_add_printf E m [] (world s);
               s = s\<lparr>msg_m := Some m', world := w\<rparr>
           in andThen
                (if isValid_m (onMessage_m s) \<and> state_m s \<noteq> CLOSING
                 then MessageHandler_call E (onMessage_m s) m' (msgIsBinary_m s) s
                 else Ret () s)
                (\<lambda>_ s. case msg_m s of None \<Rightarrow> Fault NullDeref | Some _ \<Rightarrow> Ret () (s\<lparr>msg_m := None\<rparr>))))"

definition HandleFrameEnd :: "('w, 'h) env \<Rightarrow> ('w, 'h) session \<Rightarrow> (int, ('w, 'h) session) outcome" where
  "HandleFrameEnd E s =
     (if IsControlOpcode (unat (opcode (wsHeader_m s))) then
        HandleControlFrame E (s\<lparr>hasHeader_m := False\<rparr>)
      else
        andThen (OnMsgFrameEnd E s)
          (\<lambda>_ s. if fin (wsHeader_m s) \<noteq> 0 then
                   andThen (OnRecvMsgEnd E s)
                     (\<lambda>_ s. Ret 0 (s\<lparr>inMsgFlag_m := False, hasHeader_m := False\<rparr>))
                 else Ret 0 (s\<lparr>hasHeader_m := False\<rparr>)))"

definition OnMsgFrameData :: "('w, 'h) env \<Rightarrow> bytes \<Rightarrow> ('w, 'h) session \<Rightarrow> (unit, ('w, 'h) session) outcome" where
  "OnMsgFrameData E payload s =
     (case frameData_m s of
        None \<Rightarrow> Fault NullDeref
      | Some d \<Rightarrow>
          (let (rc, d', w) = evbuffer_add E d payload (world s)
           in Ret () (s\<lparr>frameData_m := Some d', world := w\<rparr>)))"

definition HandleFrameData :: "('w, 'h) env \<Rightarrow> bytes \<Rightarrow> ('w, 'h) session \<Rightarrow> (int, ('w, 'h) session) outcome" where
  "HandleFrameData E buf s =
     (if IsControlOpcode (unat (opcode (wsHeader_m s))) then
        (let total_len = ctrlLen_m s + length buf in
         if total_len > WS_CONTROL_MAX_PAYLOAD_LEN then
           (let len = WS_CONTROL_MAX_PAYLOAD_LEN - ctrlLen_m s
            in andThen (CloseWithStatus E PROTOCOL_ERR_1002 s)
                 (\<lambda>_ s. Ret (-1) (s\<lparr>ctrlPayload_m := write_at (ctrlPayload_m s) (ctrlLen_m s) (take len buf),
                                     ctrlLen_m := ctrlLen_m s + len\<rparr>)))
         else
           Ret 0 (s\<lparr>ctrlPayload_m := write_at (ctrlPayload_m s) (ctrlLen_m s) buf,
                     ctrlLen_m := ctrlLen_m s + length buf\<rparr>))
      else andThen (OnMsgFrameData E buf s) (\<lambda>_ s. Ret 0 s))"

section \<open>The read loop\<close>

definition read_header :: "('w, 'h) env \<Rightarrow> bytes \<Rightarrow> ('w, 'h) session \<Rightarrow> (bytes option, ('w, 'h) session) outcome" where
  "read_header E inb s =
     (let copied = evbuffer_copyout E inb WS_HDR_MAX_SIZE;
          bytesRead = length copied;
          headerBuf = copied @ drop bytesRead (stack_bytes E WS_HDR_MAX_SIZE);
          (parse, h, headerLen) = UnpackHeader headerBuf bytesRead;
          s = s\<lparr>wsHeader_m := h\<rparr>
      in wtf_check (parse \<noteq> USER_ABORT)
           (let parse = (if parse \<noteq> NEED_MORE \<and> ValidateHeader s \<noteq> 0 then PARSE_ERROR else parse)
            in case parse of
                 SUCCESS \<Rightarrow> Ret (Some (evbuffer_drain E inb (the headerLen)))
                                (HandleFrameBegin E (s\<lparr>hasHeader_m := True\<rparr>))
               | NEED_MORE \<Rightarrow> Ret None s
               | PARSE_ERROR \<Rightarrow> andThen (CloseWithStatus E PROTOCOL_ERR_1002 s) (\<lambda>_ s. Ret None s)
               | USER_ABORT \<Rightarrow> Ret (Some inb) (HandleFrameBegin E s)))"

definition validate_text :: "('w, 'h) env \<Rightarrow> bytes \<Rightarrow> ('w, 'h) session \<Rightarrow> (unit, ('w, 'h) session) outcome" where
  "validate_text E buf s =
     (if \<not> msgIsBinary s \<and> \<not> IsControlOpcode (unat (opcode (wsHeader_m s))) then
        (let s = s\<lparr>utf8State_m := ValidateUtf8 (utf8State_m s) buf\<rparr>
         in if utf8State_m s = WS_UTF8_REJECT \<or> (utf8State_m s \<noteq> WS_UTF8_ACCEPT \<and> fin (wsHeader_m s) \<noteq> 0)
            then andThen (CloseWithStatus E INCONSISTENT_DATA_1007 s) (\<lambda>_ s. Ret () s)
            else Ret () s)
      else Ret () s)"

definition read_frame :: "('w, 'h) env \<Rightarrow> bytes \<Rightarrow> ('w, 'h) session \<Rightarrow> (bytes, ('w, 'h) session) outcome" where
  "read_frame E inb s =
     (let recv_len = length inb;
          remaining = ucast (payloadLen (wsHeader_m s)) - recvFrameLen_m s;
          recv_len = (if recv_len > unat remaining then unat remaining else recv_len)
      in if remaining = 0 then andThen (HandleFrameEnd E s) (\<lambda>_ s. Ret inb s)
         else
           (let (buf, inb) = evbuffer_remove E inb recv_len;
                bytes_read = length buf;
                s = s\<lparr>recvFrameLen_m := recvFrameLen_m s + of_nat bytes_read\<rparr>;
                buf = (if maskBit (wsHeader_m s) \<noteq> 0
                       then UnmaskPayload (mask_key (wsHeader_m s)) buf bytes_read else buf)
            in andThen (validate_text E buf s)
                 (\<lambda>_ s. andThen (HandleFrameData E buf s)
                   (\<lambda>rc s. if rc \<noteq> 0 then Ret inb s
                           else if recvFrameLen_m s = ucast (payloadLen (wsHeader_m s))
                           then andThen (HandleFrameEnd E s) (\<lambda>_ s. Ret inb s)
                           else Ret inb s))))"

fun read_loop :: "('w, 'h) env \<Rightarrow> nat \<Rightarrow> bytes \<Rightarrow> ('w, 'h) session \<Rightarrow> (bytes, ('w, 'h) session) outcome" where
  "read_loop E 0 inb s = (if inb = [] then Ret inb s else Fault OutOfFuel)"
| "read_loop E (Suc n) inb s =
     (if inb = [] then Ret inb s
      else
        andThen (if \<not> hasHeader_m s then read_header E inb s else Ret (Some inb) s)
          (\<lambda>r s. case r of
              None \<Rightarrow> Ret inb s
            | Some inb \<Rightarrow>
                if hasHeader_m s
                then andThen (read_frame E inb s) (\<lambda>inb s. read_loop E n inb s)
                else read_loop E n inb s))"

definition read_all :: "('w, 'h) env \<Rightarrow> bytes \<Rightarrow> ('w, 'h) session \<Rightarrow> (bytes, ('w, 'h) session) outcome" where
  "read_all E inb s = read_loop E (2 * length inb + 2) inb s"

definition ReadWebsocket :: "('w, 'h) env \<Rightarrow> bytes \<Rightarrow> ('w, 'h) session \<Rightarrow> (bytes, ('w, 'h) session) outcome" where
  "ReadWebsocket E inb s = wtf_check (bev_m s \<noteq> None) (read_all E inb s)"

section \<open>The invariant of the receiving side\<close>

text \<open>
  The control payload buffer keeps its size and its fill level stays within it; the callback
  pointers that no operation sets stay null; what the opening handshake established (\<open>link\<close>) is
  untouched, and the session only counts as connected after it.
\<close>

type_synonym link = "(string \<times> string) list \<times> WSConnectState \<times> string \<times> u8"

definition link :: "('w, 'h) session \<Rightarrow> link" where
  "link s = (header_m s, connectState_m s, handshakeKeyBase64_m s, httpHeaderFlags_m s)"

definition recv_inv :: "link \<Rightarrow> ('w, 'h) session \<Rightarrow> bool" where
  "recv_inv l s \<longleftrightarrow> link s = l \<and> (state_m s = CONNECTED \<longrightarrow> connectState_m s = HANDSHAKE_COMPLETE) \<and>
      length (ctrlPayload_m s) = WS_CONTROL_MAX_PAYLOAD_LEN \<and>
     ctrlLen_m s \<le> WS_CONTROL_MAX_PAYLOAD_LEN \<and>
     onClose_m s = None \<and> onPing_m s = None \<and> onPong_m s = None"

text \<open>
  What is assumed of the application's handlers: called in a session that satisfies the
  invariant they return to one, or end the process, without taking over the read loop's state.
\<close>

definition user_ok :: "('w, 'h) env \<Rightarrow> bool" where
  "user_ok E \<longleftrightarrow> (\<forall>l h ev s. recv_inv l s \<longrightarrow>
     ends (\<lambda>e. e \<noteq> OutOfFuel) (\<lambda>_ t. recv_inv l t \<and> hasHeader_m t = hasHeader_m s) (user E h ev s))"

lemma user_okD:
  "user_ok E \<Longrightarrow> recv_inv l s \<Longrightarrow>
   ends (\<lambda>e. e \<noteq> OutOfFuel) (\<lambda>_ t. recv_inv l t \<and> hasHeader_m t = hasHeader_m s) (user E h ev s)"
  unfolding user_ok_def by blast

lemma recv_inv_closed_on: "closed_on s t \<Longrightarrow> recv_inv l s \<Longrightarrow> recv_inv l t"
proof -
  assume c: "closed_on s t" and i: "recv_inv l s"
  have "state_m t = CONNECTED \<Longrightarrow> state_m s = CONNECTED"
    using closed_on_fields(21) [OF c] by auto
  with i show ?thesis by (auto simp: recv_inv_def link_def closed_on_fields [OF c])
qed

lemma CloseWithStatus_ends:
  assumes "env_laws E" "recv_inv l s"
  shows "ends (\<lambda>e. False) (\<lambda>_ t. closed_on s t) (CloseWithStatus E status s)"
  using CloseWithStatusReason_ends [OF assms(1), of s "[]" 0 status] assms(2)
  unfolding CloseWithStatus_def recv_inv_def by (cases "CloseWithStatusReason E status [] 0 s") auto

lemma CloseWithStatus_returns:
  assumes "env_laws E" "recv_inv l s"
  obtains rc t where "CloseWithStatus E status s = Ret rc t" "closed_on s t"
  using CloseWithStatus_ends [OF assms, of status] by (cases "CloseWithStatus E status s") auto

lemma validate_text_returns:
  assumes "env_laws E" "recv_inv l s"
  shows "\<exists>t. validate_text E buf s = Ret () t \<and> recv_inv l t \<and> hasHeader_m t = hasHeader_m s"
proof -
  let ?s = "s\<lparr>utf8State_m := ValidateUtf8 (utf8State_m s) buf\<rparr>"
  have inv: "recv_inv l ?s" using assms(2) by (simp add: recv_inv_def link_def)
  obtain rc t where t: "CloseWithStatus E INCONSISTENT_DATA_1007 ?s = Ret rc t" "closed_on ?s t"
    using CloseWithStatus_returns [OF assms(1) inv] .
  have "recv_inv l t" "hasHeader_m t = hasHeader_m s"
    using recv_inv_closed_on [OF t(2) inv] closed_on_fields(1) [OF t(2)] by simp_all
  then show ?thesis
    using t(1) assms(2) inv by (simp add: validate_text_def Let_def)
qed

lemma HandleFrameData_ends:
  assumes "env_laws E" "recv_inv l s"
  shows "ends (\<lambda>e. e = NullDeref) (\<lambda>_ t. recv_inv l t \<and> hasHeader_m t = hasHeader_m s) (HandleFrameData E buf s)"
proof -
  obtain rc t where t: "CloseWithStatus E PROTOCOL_ERR_1002 s = Ret rc t" "closed_on s t"
    using CloseWithStatus_returns [OF assms] .
  have "recv_inv l t" "hasHeader_m t = hasHeader_m s"
    using recv_inv_closed_on [OF t(2) assms(2)] closed_on_fields(1) [OF t(2)] by simp_all
  then show ?thesis
    using t(1) closed_on_fields(2) [OF t(2)] assms(2)
    by (auto simp: HandleFrameData_def OnMsgFrameData_def Let_def recv_inv_def link_def write_at_def ws_consts
        split: option.splits prod.splits)
qed

lemma echo_close_ends:
  assumes "env_laws E" "recv_inv l s"
  shows "ends (\<lambda>e. e = OutOfBounds) (\<lambda>_ t. recv_inv l t \<and> hasHeader_m t = hasHeader_m s) (echo_close E s)"
proof -
  have "onClose_m s = None" using assms(2) by (simp add: recv_inv_def link_def)
  from CloseWithStatusReason_ends [OF assms(1) this, of "reason_memory s" "serverReasonLen_m s" "serverCloseStatus_m s"]
  have "ends (\<lambda>e. e = OutOfBounds) (\<lambda>_ t. recv_inv l t \<and> hasHeader_m t = hasHeader_m s)
      (CloseWithStatusReason E (serverCloseStatus_m s) (reason_memory s) (serverReasonLen_m s) s)"
    by (rule ends_mono) (simp_all add: recv_inv_closed_on [OF _ assms(2)] closed_on_fields)
  then show ?thesis using assms(2) by (simp add: echo_close_def)
qed

text \<open>Setting members that the invariant does not mention.\<close>

lemma recv_inv_updates [simp]:
  "recv_inv l (s\<lparr>serverCloseStatus_m := c\<rparr>) = recv_inv l s" "recv_inv l (s\<lparr>serverReason_m := r\<rparr>) = recv_inv l s"
  "recv_inv l (s\<lparr>serverReasonLen_m := n\<rparr>) = recv_inv l s" "recv_inv l (s\<lparr>closeTimeoutEvent_m := b\<rparr>) = recv_inv l s"
  "recv_inv l s \<Longrightarrow> recv_inv l (s\<lparr>state_m := CLOSING\<rparr>)" "recv_inv l s \<Longrightarrow> recv_inv l (s\<lparr>state_m := CLOSING_UNCLEANLY\<rparr>)"
  "recv_inv l (s\<lparr>receivedCloseFlag_m := b\<rparr>) = recv_inv l s"
  "recv_inv l (s\<lparr>utf8State_m := n\<rparr>) = recv_inv l s" "recv_inv l (s\<lparr>hasHeader_m := b\<rparr>) = recv_inv l s"
  "recv_inv l (s\<lparr>inMsgFlag_m := b\<rparr>) = recv_inv l s" "recv_inv l (s\<lparr>wsHeader_m := h\<rparr>) = recv_inv l s"
  "recv_inv l (s\<lparr>msg_m := m\<rparr>) = recv_inv l s" "recv_inv l (s\<lparr>frameData_m := m\<rparr>) = recv_inv l s"
  "recv_inv l (s\<lparr>world := w\<rparr>) = recv_inv l s" "recv_inv l (s\<lparr>recvFrameLen_m := fl\<rparr>) = recv_inv l s"
  "recv_inv l (s\<lparr>msgIsBinary_m := b\<rparr>) = recv_inv l s" "recv_inv l (s\<lparr>bev_m := ob\<rparr>) = recv_inv l s"
  "recv_inv l (s\<lparr>bev_input := i\<rparr>) = recv_inv l s" "recv_inv l (s\<lparr>connectTimeoutEvent_m := b\<rparr>) = recv_inv l s"
  "recv_inv l (s\<lparr>sentCloseFlag_m := b\<rparr>) = recv_inv l s"
  "length p = length (ctrlPayload_m s) \<Longrightarrow> recv_inv l (s\<lparr>ctrlPayload_m := p\<rparr>) = recv_inv l s"
  by (simp_all add: recv_inv_def link_def)

abbreviation keeps :: "link \<Rightarrow> ('w, 'h) session \<Rightarrow> 'a \<Rightarrow> ('w, 'h) session \<Rightarrow> bool" where
  "keeps l s \<equiv> (\<lambda>_ t. recv_inv l t \<and> hasHeader_m t = hasHeader_m s)"

lemma close_then_keeps:
  assumes "env_laws E" "recv_inv l s"
  shows "ends F (keeps l s) (andThen (CloseWithStatus E status s) (\<lambda>_ t. Ret x t))"
proof -
  obtain rc t where "CloseWithStatus E status s = Ret rc t" "closed_on s t"
    using CloseWithStatus_returns [OF assms] .
  then show ?thesis using recv_inv_closed_on [OF _ assms(2)] closed_on_fields(1) by simp
qed

lemma HandleCloseFrame_ends:
  assumes "env_laws E" "recv_inv l s"
  shows "ends (\<lambda>e. e = OutOfBounds) (keeps l s) (HandleCloseFrame E s)"
proof -
  have close: "ends (\<lambda>e. e = OutOfBounds) (keeps l s) (andThen (CloseWithStatus E status t) (\<lambda>_ t. Ret 0 t))"
    if "recv_inv l t" "hasHeader_m t = hasHeader_m s" for t status
    using close_then_keeps [OF assms(1) that(1), of "\<lambda>e. e = OutOfBounds" status 0] that(2) by simp
  have echo: "ends (\<lambda>e. e = OutOfBounds) (keeps l s) (echo_close E t)"
    if "recv_inv l t" "hasHeader_m t = hasHeader_m s" for t
    using echo_close_ends [OF assms(1) that(1)] that(2) by simp
  show ?thesis
    unfolding HandleCloseFrame_def Let_def ends_if
    using assms(2) by (auto intro!: close echo)
qed

lemma HandleControlFrame_ends:
  assumes "env_laws E" "recv_inv l s"
  shows "ends (\<lambda>e. e \<noteq> OutOfFuel) (keeps l s) (HandleControlFrame E s)"
proof -
  have null: "call_ptr E (onPing_m s) ev s = Fault NullCall" "call_ptr E (onPong_m s) ev s = Fault NullCall" for ev
    using assms(2) by (simp_all add: recv_inv_def link_def call_ptr_def)
  have "ends (\<lambda>e. e \<noteq> OutOfFuel) (keeps l s) (HandleCloseFrame E s)"
    by (rule ends_mono [OF HandleCloseFrame_ends [OF assms]]) simp_all
  then show ?thesis
    using assms(2) by (simp add: HandleControlFrame_def HandlePingFrame_def HandlePongFrame_def ends_rules null)
qed

lemma OnMsgFrameEnd_ends:
  assumes "recv_inv l s"
  shows "ends (\<lambda>e. e = NullDeref) (\<lambda>_ t. recv_inv l t \<and> wsHeader_m t = wsHeader_m s) (OnMsgFrameEnd E s)"
  using assms by (auto simp: OnMsgFrameEnd_def OnMsgFrame_def Let_def split: option.splits prod.splits)

lemma MessageHandler_call_ends:
  assumes "user_ok E" "recv_inv l s"
  shows "ends (\<lambda>e. e \<noteq> OutOfFuel) (\<lambda>_. recv_inv l) (MessageHandler_call E m msg b s)"
proof -
  have "ends (\<lambda>e. e \<noteq> OutOfFuel) (\<lambda>_. recv_inv l) (user E h ev s)" for h ev
    using assms unfolding user_ok_def by (blast intro: ends_post)
  then show ?thesis using assms(2) by (simp add: MessageHandler_call_def split: option.splits)
qed

lemma OnRecvMsgEnd_ends:
  assumes "user_ok E" "recv_inv l s"
  shows "ends (\<lambda>e. e \<noteq> OutOfFuel) (\<lambda>_. recv_inv l) (OnRecvMsgEnd E s)"
proof (cases "msg_m s")
  case (Some m)
  obtain rc m' w where p: "evbuffer_add_printf E m [] (world s) = (rc, m', w)" by (rule prod_cases3)
  have "ends (\<lambda>e. e \<noteq> OutOfFuel) (\<lambda>_. recv_inv l) (MessageHandler_call E h m' b (s\<lparr>msg_m := Some m', world := w\<rparr>))" for h b
    by (rule MessageHandler_call_ends [OF assms(1)]) (simp add: assms(2))
  then have "ends (\<lambda>e. e \<noteq> OutOfFuel) (\<lambda>_ t. ends (\<lambda>e. e \<noteq> OutOfFuel) (\<lambda>_. recv_inv l)
      (case msg_m t of None \<Rightarrow> Fault NullDeref | Some _ \<Rightarrow> Ret () (t\<lparr>msg_m := None\<rparr>)))
      (MessageHandler_call E h m' b (s\<lparr>msg_m := Some m', world := w\<rparr>))" for h b
    by (rule ends_post) (simp split: option.splits)
  then show ?thesis
    using Some p assms(2) by (simp add: OnRecvMsgEnd_def Let_def ends_rules)
qed (simp add: OnRecvMsgEnd_def)

lemma HandleFrameEnd_ends:
  assumes "env_laws E" "user_ok E" "recv_inv l s"
  shows "ends (\<lambda>e. e \<noteq> OutOfFuel) (\<lambda>_ t. recv_inv l t \<and> \<not> hasHeader_m t) (HandleFrameEnd E s)"
proof (cases "IsControlOpcode (unat (opcode (wsHeader_m s)))")
  case True
  then show ?thesis
    using HandleControlFrame_ends [OF assms(1), of l "s\<lparr>hasHeader_m := False\<rparr>"] assms(3)
    by (auto simp: HandleFrameEnd_def elim: ends_post)
next
  case False
  have rest: "ends (\<lambda>e. e \<noteq> OutOfFuel) (\<lambda>_ t. recv_inv l t \<and> \<not> hasHeader_m t)
      (if fin (wsHeader_m t) \<noteq> 0 then andThen (OnRecvMsgEnd E t) (\<lambda>_ t. Ret 0 (t\<lparr>inMsgFlag_m := False, hasHeader_m := False\<rparr>))
       else Ret (0 :: int) (t\<lparr>hasHeader_m := False\<rparr>))" if "recv_inv l t" for t
    using OnRecvMsgEnd_ends [OF assms(2) that] that by (auto simp: ends_rules elim: ends_post)
  have "ends (\<lambda>e. e \<noteq> OutOfFuel) (\<lambda>_ t. ends (\<lambda>e. e \<noteq> OutOfFuel) (\<lambda>_ t. recv_inv l t \<and> \<not> hasHeader_m t)
      (if fin (wsHeader_m t) \<noteq> 0 then andThen (OnRecvMsgEnd E t) (\<lambda>_ t. Ret 0 (t\<lparr>inMsgFlag_m := False, hasHeader_m := False\<rparr>))
       else Ret (0 :: int) (t\<lparr>hasHeader_m := False\<rparr>))) (OnMsgFrameEnd E s)"
    by (rule ends_mono [OF OnMsgFrameEnd_ends [OF assms(3)]], erule conjunct1 [THEN rest]) simp
  then show ?thesis using False by (simp add: HandleFrameEnd_def ends_andThen)
qed

section \<open>The read loop returns\<close>

lemma UnpackHeader_result:
  assumes "UnpackHeader b len = (p, h, hl)"
  shows "p = NEED_MORE \<or> p = SUCCESS \<and> 2 \<le> len \<and> (\<exists>n. hl = Some n \<and> 2 \<le> n)"
  using assms by (auto simp: UnpackHeader_def Let_def ws_consts split: if_splits)

lemma HandleFrameBegin_keeps:
  assumes "recv_inv l s"
  shows "recv_inv l (HandleFrameBegin E s) \<and> hasHeader_m (HandleFrameBegin E s) = hasHeader_m s"
  using assms
  by (auto simp: HandleFrameBegin_def OnMsgFrameBegin_def OnRecvMsgBegin_def Let_def recv_inv_def link_def
      split: option.splits prod.splits)

lemma read_header_ends:
  assumes "env_laws E" "recv_inv l s"
  shows "ends (\<lambda>e. e \<noteq> OutOfFuel)
    (\<lambda>r t. recv_inv l t \<and> (\<forall>rest. r = Some rest \<longrightarrow> length rest + 2 \<le> length inb \<and> hasHeader_m t))
    (read_header E inb s)"
proof -
  let ?b = "take 14 inb @ drop (length (take 14 inb)) (stack_bytes E 14)"
  obtain p h hl where u: "UnpackHeader ?b (length (take 14 inb)) = (p, h, hl)" by (rule prod_cases3)
  note r = UnpackHeader_result [OF u]
  have "recv_inv l (s\<lparr>wsHeader_m := h\<rparr>)" using assms(2) by simp
  from CloseWithStatus_returns [OF assms(1) this]
  obtain rc t where t: "CloseWithStatus E PROTOCOL_ERR_1002 (s\<lparr>wsHeader_m := h\<rparr>) = Ret rc t"
    "closed_on (s\<lparr>wsHeader_m := h\<rparr>) t" .
  have it: "recv_inv l t" using recv_inv_closed_on [OF t(2)] assms(2) by simp
  have hb: "recv_inv l (HandleFrameBegin E (s\<lparr>wsHeader_m := h, hasHeader_m := True\<rparr>)) \<and>
      hasHeader_m (HandleFrameBegin E (s\<lparr>wsHeader_m := h, hasHeader_m := True\<rparr>))"
    using HandleFrameBegin_keeps [of l "s\<lparr>wsHeader_m := h, hasHeader_m := True\<rparr>" E] assms(2) by simp
  show ?thesis
    using r u t(1) it hb assms(2)
    by (auto simp: read_header_def Let_def ws_consts env_lawsD [OF assms(1)] ends_rules)
qed

lemma drop_shorter:
  "n \<noteq> 0 \<Longrightarrow> xs \<noteq> [] \<longrightarrow> length (drop (if length xs > n then n else length xs) xs) \<noteq> length xs"
  by auto

lemma read_frame_ends:
  assumes "env_laws E" "user_ok E" "recv_inv l s" "hasHeader_m s"
  shows "ends (\<lambda>e. e \<noteq> OutOfFuel)
    (\<lambda>rest t. recv_inv l t \<and> length rest \<le> length inb \<and> (inb \<noteq> [] \<longrightarrow> length rest = length inb \<longrightarrow> \<not> hasHeader_m t))
    (read_frame E inb s)"
proof -
  let ?rem = "ucast (payloadLen (wsHeader_m s)) - recvFrameLen_m s"
  let ?len = "if length inb > unat ?rem then unat ?rem else length inb"
  let ?rest = "drop ?len inb"
  have fe: "ends (\<lambda>e. e \<noteq> OutOfFuel) (\<lambda>rest' t. recv_inv l t \<and> length rest' \<le> length inb \<and>
      (inb \<noteq> [] \<longrightarrow> length rest' = length inb \<longrightarrow> \<not> hasHeader_m t)) (andThen (HandleFrameEnd E t) (\<lambda>_ s. Ret rest s))"
    if "recv_inv l t" "length rest \<le> length inb" for t rest
    using HandleFrameEnd_ends [OF assms(1,2) that(1)] that(2) by (auto simp: ends_andThen elim: ends_post)
  show ?thesis
  proof (cases "?rem = 0")
    case True
    then show ?thesis using fe [OF assms(3), of inb] by (simp add: read_frame_def)
  next
    case False
    then have "unat ?rem \<noteq> 0" unfolding unsigned_eq_0_iff .
    then have shorter: "inb \<noteq> [] \<longrightarrow> length ?rest \<noteq> length inb"
      by (rule drop_shorter)
    let ?s = "s\<lparr>recvFrameLen_m := recvFrameLen_m s + of_nat (length (take ?len inb))\<rparr>"
    define buf where "buf = (if maskBit (wsHeader_m s) \<noteq> 0
      then UnmaskPayload (mask_key (wsHeader_m s)) (take ?len inb) (length (take ?len inb)) else take ?len inb)"
    obtain t where t: "validate_text E buf ?s = Ret () t" "recv_inv l t"
      using validate_text_returns [OF assms(1), of l ?s buf] assms(3) by auto
    have "ends (\<lambda>e. e \<noteq> OutOfFuel) (\<lambda>rc u. recv_inv l u) (HandleFrameData E buf t)"
      by (rule ends_mono [OF HandleFrameData_ends [OF assms(1) t(2)]]) auto
    then have "ends (\<lambda>e. e \<noteq> OutOfFuel) (\<lambda>rc u. ends (\<lambda>e. e \<noteq> OutOfFuel) (\<lambda>rest' t. recv_inv l t \<and> length rest' \<le> length inb \<and>
        (inb \<noteq> [] \<longrightarrow> length rest' = length inb \<longrightarrow> \<not> hasHeader_m t))
        (if rc \<noteq> 0 then Ret ?rest u else if recvFrameLen_m u = ucast (payloadLen (wsHeader_m u))
         then andThen (HandleFrameEnd E u) (\<lambda>_ s. Ret ?rest s) else Ret ?rest u)) (HandleFrameData E buf t)"
      by (rule ends_post) (use fe shorter in \<open>auto\<close>)
    moreover have "read_frame E inb s = andThen (validate_text E buf ?s) (\<lambda>_ t. andThen (HandleFrameData E buf t)
        (\<lambda>rc u. if rc \<noteq> 0 then Ret ?rest u else if recvFrameLen_m u = ucast (payloadLen (wsHeader_m u))
         then andThen (HandleFrameEnd E u) (\<lambda>_ s. Ret ?rest s) else Ret ?rest u))"
      using False unfolding read_frame_def Let_def env_lawsD(7) [OF assms(1)] buf_def by simp
    ultimately show ?thesis
      unfolding t(1) by (simp only: andThen.simps ends_andThen)
  qed
qed

lemma read_loop_ends:
  fixes E :: "('w, 'h) env"
  assumes "env_laws E" "user_ok E"
  shows "recv_inv l s \<Longrightarrow> 2 * length inb + (if hasHeader_m s then 1 else 0) < fuel \<Longrightarrow>
    ends (\<lambda>e. e \<noteq> OutOfFuel) (\<lambda>_. recv_inv l) (read_loop E fuel inb s)"
proof (induction fuel arbitrary: inb s)
  case (Suc n)
  have frame: "ends (\<lambda>e. e \<noteq> OutOfFuel) (\<lambda>_. recv_inv l) (andThen (read_frame E rest t) (\<lambda>inb s. read_loop E n inb s))"
    if "recv_inv l t" "hasHeader_m t" "2 * length rest < n" "rest \<noteq> [] \<or> 2 * length rest + 1 < n" for rest t
    unfolding ends_andThen
  proof (rule ends_post [OF read_frame_ends [OF assms that(1,2), of rest]])
    fix rest' :: bytes and u :: "('w, 'h) session"
    assume u: "recv_inv l u \<and> length rest' \<le> length rest \<and>
      (rest \<noteq> [] \<longrightarrow> length rest' = length rest \<longrightarrow> \<not> hasHeader_m u)"
    then have "2 * length rest' + (if hasHeader_m u then 1 else 0) < n"
      using that(3,4) by (cases "length rest' = length rest") auto
    then show "ends (\<lambda>e. e \<noteq> OutOfFuel) (\<lambda>_. recv_inv l) (read_loop E n rest' u)"
      using Suc.IH u by blast
  qed
  show ?case
  proof (cases "inb = [] \<or> hasHeader_m s")
    case True
    then show ?thesis
      using frame [OF Suc.prems(1), of inb] Suc.prems by auto
  next
    case False
    have "ends (\<lambda>e. e \<noteq> OutOfFuel) (\<lambda>r t. ends (\<lambda>e. e \<noteq> OutOfFuel) (\<lambda>_. recv_inv l)
        (case r of None \<Rightarrow> Ret inb t | Some rest \<Rightarrow> if hasHeader_m t
          then andThen (read_frame E rest t) (\<lambda>inb s. read_loop E n inb s) else read_loop E n rest t)) (read_header E inb s)"
      by (rule ends_post [OF read_header_ends [OF assms(1) Suc.prems(1)]])
        (use Suc.prems(2) False frame in \<open>auto split: option.splits\<close>)
    then show ?thesis using False by (simp add: ends_andThen)
  qed
qed simp

lemma ReadWebsocket_ends:
  assumes "env_laws E" "user_ok E" "recv_inv l s"
  shows "ends (\<lambda>e. e \<noteq> OutOfFuel) (\<lambda>_. recv_inv l) (ReadWebsocket E inb s)"
  unfolding ReadWebsocket_def read_all_def ends_wtf_check
  using read_loop_ends [OF assms, of inb "2 * length inb + 2"] by simp

text \<open>
  C10. Reading received data always comes to an end and keeps the receiving side's invariant:
  for any bytes in the input buffer and any handlers that respect the session, \<open>ReadWebsocket\<close>
  returns or stops the process at a failed check or null call, never by running past the loop
  bound, and the control payload buffer is never overfilled.
\<close>
theorem ReadWebsocket_returns:
  assumes "env_laws E" "user_ok E" "recv_inv l s"
  shows "ends (\<lambda>e. e \<noteq> OutOfFuel) (\<lambda>_. recv_inv l) (ReadWebsocket E inb s)"
  using assms by (rule ReadWebsocket_ends)

lemma sample_user_ok: "user_ok sample_env"
  by (simp add: user_ok_def sample_env_def)

lemma recv_inv_new_session: "recv_inv (link (new_session w)) (new_session w)"
  by (simp add: recv_inv_def link_def new_session_def ws_consts)

lemma recv_inv_connected_session: "recv_inv (link connected_session) connected_session"
  by (simp add: recv_inv_def link_def connected_session_def new_session_def ws_consts)

text \<open>
  The handlers of the unit test \<^verbatim>\<open>session_unittests.cpp\<close>: say hello when connected, close on the
  first message. They call back into the session and respect it.
\<close>

definition chat_env :: "(user_event list, unit) env" where
  "chat_env = sample_env\<lparr>user := (\<lambda>h ev s.
     case ev of
       Connected \<Rightarrow> andThen (DoSendMsg sample_env (to_bytes ''hello'') s) (\<lambda>_ s. Ret () s)
     | Message _ _ \<Rightarrow> andThen (DoClose sample_env s) (\<lambda>_ s. Ret () s)
     | _ \<Rightarrow> Ret () s)\<rparr>"

lemma chat_env_laws: "env_laws chat_env"
  using sample_env_ok(1) by (simp add: chat_env_def env_laws_def)

lemma DoSendMsg_keeps:
  assumes "env_laws E" "recv_inv l s"
  shows "ends (\<lambda>e. e \<noteq> OutOfFuel) (keeps l s) (DoSendMsg E msg s)"
proof -
  obtain rc d t where t: "SendFrameRaw E TEXT_0X1 msg s = Ret (rc, d) t" "sent_on s t"
    using SendFrameRaw_sent_on [OF assms(1)] by blast
  have "recv_inv l t" "hasHeader_m t = hasHeader_m s"
    using recv_inv_closed_on [OF sent_on_closed_on [OF t(2)] assms(2)] sent_on_fields(3) [OF t(2)] by simp_all
  then show ?thesis
    using t(1) by (simp add: DoSendMsg_def SendMsgEx_def OnSendMsgBegin_def wtf_check_def)
qed

lemma DoClose_keeps:
  assumes "env_laws E" "recv_inv l s"
  shows "ends (\<lambda>e. e \<noteq> OutOfFuel) (keeps l s) (DoClose E s)"
proof -
  obtain rc t where t: "CloseWithStatus E NORMAL_1000 s = Ret rc t" "closed_on s t"
    using CloseWithStatus_returns [OF assms] .
  then show ?thesis
    using recv_inv_closed_on [OF t(2) assms(2)] closed_on_fields(1) [OF t(2)]
    by (simp add: DoClose_def CloseWithStatus_def)
qed

lemma chat_user_ok: "user_ok chat_env"
  using DoSendMsg_keeps [OF sample_env_ok(1)] DoClose_keeps [OF sample_env_ok(1)]
  by (auto simp: user_ok_def chat_env_def ends_andThen split: user_event.splits)

theorem ReadWebsocket_returns_witness:
  "ends (\<lambda>e. e \<noteq> OutOfFuel) (\<lambda>_. recv_inv (link connected_session)) (ReadWebsocket chat_env [0x81, 0x02, 0x68, 0x69] connected_session)"
  by (rule ReadWebsocket_returns) (simp_all add: chat_user_ok chat_env_laws recv_inv_connected_session)

section \<open>More fuel changes nothing\<close>

lemma read_loop_more:
  "read_loop E n inb s \<noteq> Fault OutOfFuel \<Longrightarrow> read_loop E (Suc n) inb s = read_loop E n inb s"
proof (induction n arbitrary: inb s)
  case 0
  then show ?case by (simp split: if_splits)
next
  case (Suc n)
  show ?case
  proof (cases "inb = []")
    case False
    let ?head = "if \<not> hasHeader_m s then read_header E inb s else Ret (Some inb) s"
    show ?thesis
    proof (cases ?head)
      case (Ret r t)
      have loop: "read_loop E n rest u \<noteq> Fault OutOfFuel \<Longrightarrow> read_loop E (Suc n) rest u = read_loop E n rest u" for rest u
        by (rule Suc.IH)
      show ?thesis
      proof (cases r)
        case (Some rest)
        show ?thesis
          using Suc.prems False Ret Some loop [of rest t] loop
          by (subst read_loop.simps(2) [of E "Suc n"], subst read_loop.simps(2) [of E n])
            (cases "hasHeader_m t"; cases "read_frame E rest t"; simp del: read_loop.simps add: read_loop.simps(2) [of E n inb s])
      qed (use False Ret in simp)
    qed (use False in simp)
  qed simp
qed

lemma read_loop_enough:
  "read_loop E n inb s \<noteq> Fault OutOfFuel \<Longrightarrow> n \<le> m \<Longrightarrow> read_loop E m inb s = read_loop E n inb s"
proof (induction m)
  case (Suc m)
  then show ?case using read_loop_more [of E m inb s] by (cases "n = Suc m") auto
qed simp

lemma read_all_fuel:
  assumes "env_laws E" "user_ok E" "recv_inv l s" "2 * length inb + 2 \<le> n"
  shows "read_loop E n inb s = read_all E inb s"
proof -
  have "read_all E inb s \<noteq> Fault OutOfFuel"
    using read_loop_ends [OF assms(1-3), of inb "2 * length inb + 2"] unfolding read_all_def by auto
  then show ?thesis using read_loop_enough assms(4) unfolding read_all_def by blast
qed

lemma read_all_step:
  assumes "inb \<noteq> []" "\<not> hasHeader_m s" "read_header E inb s = Ret (Some rest) t" "hasHeader_m t"
  shows "read_all E inb s = andThen (read_frame E rest t) (\<lambda>inb' s. read_loop E (2 * length inb + 1) inb' s)"
proof -
  have "2 * length inb + 2 = Suc (2 * length inb + 1)" by simp
  then show ?thesis
    unfolding read_all_def by (simp only: read_loop.simps(2) assms if_False if_True not_False_eq_True andThen.simps option.case)
qed

section \<open>Which headers are accepted\<close>

lemma opcode_ranges:
  "IsControlOpcode n \<longleftrightarrow> 8 \<le> n \<and> n \<le> 15"
  "IsReservedOpcode n \<longleftrightarrow> 11 \<le> n \<and> n \<le> 15 \<or> 3 \<le> n \<and> n \<le> 7"
  by (simp_all add: IsControlOpcode_def IsReservedOpcode_def IsReservedControlOpcode_def
      IsReservedNonControlOpcode_def)

text \<open>
  C11. A frame header is accepted exactly when its reserved bits are clear, its opcode is one of
  the six defined ones, and a control frame is final; within a message only control frames are
  accepted. RFC 6455 requires the opposite of the last clause for continuation frames: they are
  legal only within a message, so no fragmented message can be received.
\<close>
theorem ValidateHeader_iff:
  "ValidateHeader s = 0 \<longleftrightarrow>
     rsv1 (wsHeader_m s) = 0 \<and> rsv2 (wsHeader_m s) = 0 \<and> rsv3 (wsHeader_m s) = 0 \<and>
     unat (opcode (wsHeader_m s)) \<in> (if inMsgFlag_m s then {8, 9, 10} else {0, 1, 2, 8, 9, 10}) \<and>
     (if 8 \<le> unat (opcode (wsHeader_m s)) then fin (wsHeader_m s) \<noteq> 0 else True)"
proof -
  have "unat (opcode (wsHeader_m s)) < 16" using unat_lt_pow [of "opcode (wsHeader_m s)"] by simp
  then show ?thesis
    by (auto simp: ValidateHeader_def Let_def opcode_ranges has_opcode_def)
qed

section \<open>Delivering a message\<close>

lemma read_header_ok:
  assumes "env_laws E" "on_wire h = h"
  shows "read_header E (rfc_header h (unat (payloadLen h)) @ tl_in) s =
    (if ValidateHeader (s\<lparr>wsHeader_m := h\<rparr>) \<noteq> 0
     then andThen (CloseWithStatus E PROTOCOL_ERR_1002 (s\<lparr>wsHeader_m := h\<rparr>)) (\<lambda>_ s. Ret None s)
     else Ret (Some tl_in) (HandleFrameBegin E (s\<lparr>wsHeader_m := h, hasHeader_m := True\<rparr>)))"
proof -
  let ?hd = "rfc_header h (unat (payloadLen h))"
  let ?copied = "take 14 (?hd @ tl_in)"
  have l: "length ?hd \<le> 8"
    using length_rfc_header [of "unat (payloadLen h)" h] unat_lt_pow [of "payloadLen h"] by (simp split: if_splits)
  then have c: "?copied = ?hd @ take (14 - length ?hd) tl_in" by simp
  have u: "UnpackHeader (?copied @ x) (length ?copied) = (SUCCESS, h, Some (length ?hd))" for x
    unfolding c append_assoc using UnpackHeader_rfc [of h "length (?hd @ take (14 - length ?hd) tl_in)"] assms(2) by simp
  have d: "evbuffer_drain E (?hd @ tl_in) (length ?hd) = tl_in" by (simp add: env_lawsD [OF assms(1)])
  show ?thesis
    unfolding read_header_def Let_def env_lawsD(5) [OF assms(1)]
    by (simp only: ws_consts arith_simps u prod.case d) (simp add: u d)
qed

lemma HandleFrameBegin_data:
  assumes "env_no_failure E" "\<not> IsControlOpcode (unat (opcode (wsHeader_m s)))" "\<not> inMsgFlag_m s"
  shows "\<exists>w. HandleFrameBegin E s =
    s\<lparr>recvFrameLen_m := 0, inMsgFlag_m := True, utf8State_m := WS_UTF8_ACCEPT,
      msgIsBinary_m := has_opcode (wsHeader_m s) BINARY_0X2, msg_m := Some [], frameData_m := Some [], world := w\<rparr>"
proof -
  obtain w1 where w1: "evbuffer_new E (world s) = (True, w1)"
    using env_no_failureD(1) [OF assms(1), of "world s"] by (cases "evbuffer_new E (world s)") auto
  obtain w2 where w2: "evbuffer_new E w1 = (True, w2)"
    using env_no_failureD(1) [OF assms(1), of w1] by (cases "evbuffer_new E w1") auto
  show ?thesis
    using assms(2,3) w1 w2
    by (intro exI [of _ w2])
      (simp add: HandleFrameBegin_def OnRecvMsgBegin_def OnMsgFrameBegin_def Let_def split: option.splits)
qed

lemma HandleFrameEnd_data:
  assumes "env_laws E" "env_no_failure E" "\<not> IsControlOpcode (unat (opcode (wsHeader_m s)))" "fin (wsHeader_m s) \<noteq> 0"
    "msg_m s = Some m" "frameData_m s = Some d" "onMessage_m s = \<lparr>isValid_m = True, handler_m = Some h\<rparr>"
    "state_m s \<noteq> CLOSING"
  shows "\<exists>w. HandleFrameEnd E s =
    andThen (user E h (Message (m @ d) (msgIsBinary_m s)) (s\<lparr>frameData_m := None, msg_m := Some (m @ d), world := w\<rparr>))
      (\<lambda>_ t. case msg_m t of None \<Rightarrow> Fault NullDeref
             | Some _ \<Rightarrow> Ret 0 (t\<lparr>msg_m := None, inMsgFlag_m := False, hasHeader_m := False\<rparr>))"
proof -
  obtain rc m' d' w1 where b: "evbuffer_add_buffer E m d (world s) = (rc, m', d', w1)" by (metis prod_cases4)
  have "m' = m @ d"
    using env_lawsD(4) [OF assms(1) b] env_no_failureD(5) [OF assms(2), of m d "world s"] b by simp
  moreover obtain rc' m'' w2 where p: "evbuffer_add_printf E m' [] w1 = (rc', m'', w2)" by (metis prod_cases3)
  moreover have "m'' = m'" using env_lawsD(3) [OF assms(1) p] by (simp split: if_splits)
  ultimately show ?thesis
    using assms(3-8) b
    by (intro exI [of _ w2])
      (simp add: HandleFrameEnd_def OnMsgFrameEnd_def OnMsgFrame_def OnRecvMsgEnd_def MessageHandler_call_def
        andThen_assoc Let_def option.case_distrib [of "\<lambda>x. andThen x _"] cong: option.case_cong)
qed

lemma read_frame_whole:
  assumes "env_laws E" "env_no_failure E" "payload \<noteq> []" "length payload < 128"
    "payloadLen (wsHeader_m s) = of_nat (length payload)" "maskBit (wsHeader_m s) = 0" "recvFrameLen_m s = 0"
    "\<not> IsControlOpcode (unat (opcode (wsHeader_m s)))" "frameData_m s = Some []" "utf8State_m s = WS_UTF8_ACCEPT"
    "utf8_octets payload" "\<not> msgIsBinary s"
  shows "\<exists>w. read_frame E (payload @ rest) s =
    andThen (HandleFrameEnd E (s\<lparr>recvFrameLen_m := of_nat (length payload), utf8State_m := WS_UTF8_ACCEPT,
        frameData_m := Some payload, world := w\<rparr>))
      (\<lambda>_ t. Ret rest t)"
proof -
  let ?n = "length payload"
  have r: "ucast (of_nat ?n :: 7 word) = (of_nat ?n :: u64)"
    using assms(4) by (simp add: word_unat_eq_iff unat_ucast_down unsigned_of_nat take_bit_nat_eq_self)
  have n: "unat (of_nat ?n :: u64) = ?n" using assms(4) by (simp add: unsigned_of_nat take_bit_nat_eq_self)
  then have nz: "(of_nat ?n :: u64) \<noteq> 0" using assms(3) by (metis length_0_conv unsigned_0)
  have utf: "ValidateUtf8 WS_UTF8_ACCEPT payload = WS_UTF8_ACCEPT"
    using utf8_octets_accepted [OF assms(11)] by (simp add: WS_UTF8_ACCEPT_def)
  obtain w where w: "evbuffer_add E [] payload (world s) = (0, payload, w)"
    using evbuffer_add_ok [OF assms(1,2), of "[]" payload "world s"] by auto
  show ?thesis
    using assms(5-10,12) r n nz utf w
    by (intro exI [of _ w])
      (simp add: read_frame_def Let_def env_lawsD(7) [OF assms(1)] validate_text_def HandleFrameData_def
        OnMsgFrameData_def WS_UTF8_ACCEPT_def WS_UTF8_REJECT_def)
qed

definition data_header :: "WSOpcode \<Rightarrow> nat \<Rightarrow> WSHeader" where
  "data_header opc n = WSHeader0\<lparr>fin := 1, opcode := of_nat (opcode_value opc), payloadLen := of_nat n\<rparr>"

lemma data_header_simps:
  assumes "opc \<in> {TEXT_0X1, BINARY_0X2}" "n < 128"
  shows "on_wire (data_header opc n) = data_header opc n" "unat (payloadLen (data_header opc n)) = n"
    "\<not> IsControlOpcode (unat (opcode (data_header opc n)))" "fin (data_header opc n) \<noteq> 0"
    "maskBit (data_header opc n) = 0" "has_opcode (data_header opc n) BINARY_0X2 \<longleftrightarrow> opc = BINARY_0X2"
    "\<not> inMsgFlag_m s \<Longrightarrow> ValidateHeader (s\<lparr>wsHeader_m := data_header opc n\<rparr>) = 0"
  using assms
  by (auto simp: data_header_def WSHeader0_def on_wire_def unsigned_of_nat take_bit_nat_eq_self
      has_opcode_def ValidateHeader_def Let_def opcode_ranges)

text \<open>The state in which the handler of a complete one-frame message runs.\<close>

definition handler_state :: "WSOpcode \<Rightarrow> bytes \<Rightarrow> 'w \<Rightarrow> ('w, 'h) session \<Rightarrow> ('w, 'h) session" where
  "handler_state opc payload w s =
     s\<lparr>wsHeader_m := data_header opc (length payload), hasHeader_m := True, inMsgFlag_m := True,
       msgIsBinary_m := (opc = BINARY_0X2), recvFrameLen_m := of_nat (length payload),
       utf8State_m := WS_UTF8_ACCEPT, frameData_m := None, msg_m := Some payload, world := w\<rparr>"

definition after_message :: "('w, 'h) session \<Rightarrow> ('w, 'h) session" where
  "after_message t = t\<lparr>msg_m := None, inMsgFlag_m := False, hasHeader_m := False\<rparr>"

lemma data_frame_delivers:
  assumes "env_laws E" "env_no_failure E" "\<not> inMsgFlag_m s" "\<not> msgIsBinary s" "state_m s \<noteq> CLOSING"
    "onMessage_m s = \<lparr>isValid_m = True, handler_m = Some h\<rparr>" "opc \<in> {TEXT_0X1, BINARY_0X2}"
    "length payload < 128" "utf8_octets payload"
  shows "\<exists>w. read_frame E (payload @ rest)
      (HandleFrameBegin E (s\<lparr>wsHeader_m := data_header opc (length payload), hasHeader_m := True\<rparr>)) =
    andThen (user E h (Message payload (opc = BINARY_0X2)) (handler_state opc payload w s))
      (\<lambda>_ t. case msg_m t of None \<Rightarrow> Fault NullDeref | Some _ \<Rightarrow> Ret rest (after_message t))"
proof -
  note hd = data_header_simps [OF assms(7,8)]
  obtain w1 where b: "HandleFrameBegin E (s\<lparr>wsHeader_m := data_header opc (length payload), hasHeader_m := True\<rparr>) =
      s\<lparr>wsHeader_m := data_header opc (length payload), hasHeader_m := True, recvFrameLen_m := 0,
        inMsgFlag_m := True, utf8State_m := WS_UTF8_ACCEPT, msgIsBinary_m := (opc = BINARY_0X2),
        msg_m := Some [], frameData_m := Some [], world := w1\<rparr>" (is "_ = ?b")
    using HandleFrameBegin_data [OF assms(2), of "s\<lparr>wsHeader_m := data_header opc (length payload), hasHeader_m := True\<rparr>"]
      hd(3,6) assms(3) by auto
  define e where "e w = ?b\<lparr>recvFrameLen_m := of_nat (length payload), utf8State_m := WS_UTF8_ACCEPT,
      frameData_m := Some payload, world := w\<rparr>" for w
  have "\<exists>w. read_frame E (payload @ rest) ?b = andThen (HandleFrameEnd E (e w)) (\<lambda>_ t. Ret rest t)"
  proof (cases "payload = []")
    case True
    then have "e w1 = ?b" by (intro session.equality) (simp_all add: e_def)
    moreover have "read_frame E (payload @ rest) ?b = andThen (HandleFrameEnd E ?b) (\<lambda>_ t. Ret rest t)"
      using True by (simp add: read_frame_def Let_def data_header_def WSHeader0_def)
    ultimately show ?thesis by (intro exI [of _ w1]) simp
  next
    case False
    have "\<exists>w. read_frame E (payload @ rest) ?b = andThen (HandleFrameEnd E (?b\<lparr>recvFrameLen_m := of_nat (length payload),
        utf8State_m := WS_UTF8_ACCEPT, frameData_m := Some payload, world := w\<rparr>)) (\<lambda>_ t. Ret rest t)"
      by (rule read_frame_whole [OF assms(1,2) False assms(8)])
        (use hd(3,5) assms(4,9) in \<open>simp_all add: data_header_def\<close>)
    then show ?thesis by (simp add: e_def)
  qed
  then obtain w2 where f: "read_frame E (payload @ rest) ?b = andThen (HandleFrameEnd E (e w2)) (\<lambda>_ t. Ret rest t)" ..
  obtain w where g: "HandleFrameEnd E (e w2) =
      andThen (user E h (Message payload (opc = BINARY_0X2)) ((e w2)\<lparr>frameData_m := None, msg_m := Some payload, world := w\<rparr>))
      (\<lambda>_ t. case msg_m t of None \<Rightarrow> Fault NullDeref
             | Some _ \<Rightarrow> Ret 0 (t\<lparr>msg_m := None, inMsgFlag_m := False, hasHeader_m := False\<rparr>))"
    using HandleFrameEnd_data [OF assms(1,2), of "e w2" "[]" payload h] hd(3,4) assms(5,6) by (auto simp: e_def)
  have "(e w2)\<lparr>frameData_m := None, msg_m := Some payload, world := w\<rparr> = handler_state opc payload w s"
    by (simp add: e_def handler_state_def)
  then show ?thesis
    unfolding b f g andThen_assoc after_message_def
    by (intro exI [of _ w]) (simp add: option.case_distrib [of "\<lambda>x. andThen x _"] cong: option.case_cong)
qed

lemma recv_inv_handler_state: "recv_inv l s \<Longrightarrow> recv_inv l (handler_state opc payload w s)"
  by (simp add: handler_state_def)

lemma recv_inv_after_message [simp]: "recv_inv l (after_message t) = recv_inv l t"
  by (simp add: after_message_def)

text \<open>
  C12. A complete text or binary message in one unmasked frame, with a payload of fewer than 128
  bytes of well-formed UTF-8, is delivered: reading it calls the message handler exactly once, with
  exactly the payload and the kind of message, while the session is still in its state and its
  output untouched; then reading goes on with the bytes behind the frame. (The length limit is the
  7-bit length field, and UTF-8 is demanded of binary messages too.)
\<close>
theorem message_delivered:
  assumes "env_laws E" "env_no_failure E" "user_ok E" "recv_inv l s" "bev_m s \<noteq> None" "\<not> hasHeader_m s"
    "\<not> inMsgFlag_m s" "\<not> msgIsBinary s" "state_m s \<noteq> CLOSING"
    "onMessage_m s = \<lparr>isValid_m = True, handler_m = Some h\<rparr>" "opc \<in> {TEXT_0X1, BINARY_0X2}"
    "length payload < 128" "utf8_octets payload"
  shows "\<exists>w. ReadWebsocket E (rfc_header (data_header opc (length payload)) (length payload) @ payload @ rest) s =
    andThen (user E h (Message payload (opc = BINARY_0X2)) (handler_state opc payload w s))
      (\<lambda>_ t. case msg_m t of None \<Rightarrow> Fault NullDeref | Some _ \<Rightarrow> read_all E rest (after_message t))"
proof -
  let ?hd = "rfc_header (data_header opc (length payload)) (length payload)"
  let ?in = "?hd @ payload @ rest"
  let ?b = "HandleFrameBegin E (s\<lparr>wsHeader_m := data_header opc (length payload), hasHeader_m := True\<rparr>)"
  note hd = data_header_simps [OF assms(11,12)]
  have rh: "read_header E ?in s = Ret (Some (payload @ rest)) ?b"
    using read_header_ok [OF assms(1) hd(1), of "payload @ rest" s] hd(2) data_header_simps(7) [OF assms(11,12,7)] by simp
  have hb: "hasHeader_m ?b"
    using HandleFrameBegin_keeps [of l "s\<lparr>wsHeader_m := data_header opc (length payload), hasHeader_m := True\<rparr>" E] assms(4) by simp
  obtain w where f: "read_frame E (payload @ rest) ?b =
      andThen (user E h (Message payload (opc = BINARY_0X2)) (handler_state opc payload w s))
        (\<lambda>_ t. case msg_m t of None \<Rightarrow> Fault NullDeref | Some _ \<Rightarrow> Ret rest (after_message t))"
    using data_frame_delivers [OF assms(1,2,7-13), of rest] ..
  have ne: "?in \<noteq> []" by (simp add: rfc_header_def)
  have len: "2 * length rest + 2 \<le> 2 * length ?in + 1" by (simp add: rfc_header_def)
  have "ReadWebsocket E ?in s = andThen (read_frame E (payload @ rest) ?b) (\<lambda>inb s. read_loop E (2 * length ?in + 1) inb s)"
    using assms(5) read_all_step [OF ne assms(6) rh hb] by (simp add: ReadWebsocket_def wtf_check_def)
  also have "\<dots> = andThen (user E h (Message payload (opc = BINARY_0X2)) (handler_state opc payload w s))
      (\<lambda>_ t. case msg_m t of None \<Rightarrow> Fault NullDeref | Some _ \<Rightarrow> read_all E rest (after_message t))"
  proof (cases "user E h (Message payload (opc = BINARY_0X2)) (handler_state opc payload w s)")
    case (Ret x t)
    have "recv_inv l t"
      using user_okD [OF assms(3) recv_inv_handler_state [OF assms(4), of opc payload w], of h "Message payload (opc = BINARY_0X2)"] Ret
      by simp
    then show ?thesis
      using Ret read_all_fuel [OF assms(1,3) _ len, of l "after_message t"] unfolding f
      by (simp split: option.splits)
  qed (simp add: f)
  finally show ?thesis ..
qed

theorem message_delivered_witness:
  "\<exists>w. ReadWebsocket chat_env (rfc_header (data_header TEXT_0X1 (length [0x68, 0x69 :: u8])) (length [0x68, 0x69 :: u8]) @ [0x68, 0x69] @ []) connected_session =
    andThen (user chat_env () (Message [0x68, 0x69] (TEXT_0X1 = BINARY_0X2)) (handler_state TEXT_0X1 [0x68, 0x69] w connected_session))
      (\<lambda>_ t. case msg_m t of None \<Rightarrow> Fault NullDeref | Some _ \<Rightarrow> read_all chat_env [] (after_message t))"
proof (rule message_delivered [OF chat_env_laws _ chat_user_ok recv_inv_connected_session])
  show "env_no_failure chat_env" using sample_env_ok(2) by (simp add: chat_env_def env_no_failure_def)
  have "utf8_char [0x68]" "utf8_char [0x69]" by (auto intro: utf8_1)
  then have "utf8_octets ([0x68] @ [0x69] @ [])" by (intro octets_char octets_nil)
  then show "utf8_octets [0x68, 0x69]" by simp
qed (simp_all add: connected_session_def new_session_def)

section \<open>Control frames\<close>

definition control_header :: "WSOpcode \<Rightarrow> nat \<Rightarrow> WSHeader" where
  "control_header opc n = WSHeader0\<lparr>fin := 1, opcode := of_nat (opcode_value opc), payloadLen := of_nat n\<rparr>"

text \<open>The state in which a control frame with payload \<open>p\<close> is handled.\<close>

definition control_state :: "WSOpcode \<Rightarrow> bytes \<Rightarrow> ('w, 'h) session \<Rightarrow> ('w, 'h) session" where
  "control_state opc p s =
     s\<lparr>wsHeader_m := control_header opc (length p), hasHeader_m := False, recvFrameLen_m := of_nat (length p),
       ctrlPayload_m := p @ replicate (125 - length p) 0, ctrlLen_m := length p\<rparr>"

lemma control_header_simps:
  assumes "opc \<in> {CLOSE_0X8, PING_0X9, PONG_0XA}" "n \<le> 125"
  shows "on_wire (control_header opc n) = control_header opc n" "unat (payloadLen (control_header opc n)) = n"
    "IsControlOpcode (unat (opcode (control_header opc n)))" "maskBit (control_header opc n) = 0"
    "has_opcode (control_header opc n) c \<longleftrightarrow> opc = c"
    "ValidateHeader (s\<lparr>wsHeader_m := control_header opc n\<rparr>) = 0"
  using assms
  by (auto simp: control_header_def WSHeader0_def on_wire_def unsigned_of_nat take_bit_nat_eq_self
      has_opcode_def ValidateHeader_def Let_def opcode_ranges) (cases c; simp)+

lemma control_frame_read:
  assumes "env_laws E" "recv_inv l s" "opc \<in> {CLOSE_0X8, PING_0X9, PONG_0XA}" "length p \<le> 125"
  shows "read_frame E (p @ rest)
      (HandleFrameBegin E (s\<lparr>wsHeader_m := control_header opc (length p), hasHeader_m := True\<rparr>)) =
    andThen (HandleControlFrame E (control_state opc p s)) (\<lambda>_ t. Ret rest t)"
proof -
  let ?n = "length p"
  note hd = control_header_simps [OF assms(3,4)]
  have cp: "length (ctrlPayload_m s) = 125" using assms(2) by (simp add: recv_inv_def link_def ws_consts)
  let ?b = "s\<lparr>wsHeader_m := control_header opc ?n, hasHeader_m := True, recvFrameLen_m := 0,
      ctrlPayload_m := replicate 125 0, ctrlLen_m := 0\<rparr>"
  have b: "HandleFrameBegin E (s\<lparr>wsHeader_m := control_header opc ?n, hasHeader_m := True\<rparr>) = ?b"
    using hd(3) cp by (simp add: HandleFrameBegin_def Let_def)
  have r: "ucast (of_nat ?n :: 7 word) = (of_nat ?n :: u64)"
    using assms(4) by (simp add: word_unat_eq_iff unat_ucast_down unsigned_of_nat take_bit_nat_eq_self)
  have n: "unat (of_nat ?n :: u64) = ?n" using assms(4) by (simp add: unsigned_of_nat take_bit_nat_eq_self)
  have pl: "payloadLen (control_header opc ?n) = of_nat ?n" by (simp add: control_header_def)
  show ?thesis
  proof (cases "p = []")
    case True
    then have "?b\<lparr>hasHeader_m := False\<rparr> = control_state opc p s"
      by (intro session.equality) (simp_all add: control_state_def)
    then show ?thesis
      using hd(3) r pl True unfolding b by (simp add: read_frame_def Let_def HandleFrameEnd_def)
  next
    case False
    then have nz: "(of_nat ?n :: u64) \<noteq> 0" using n by (metis length_0_conv unsigned_0)
    have "?b\<lparr>recvFrameLen_m := of_nat ?n, ctrlPayload_m := p @ replicate (125 - ?n) 0, ctrlLen_m := ?n, hasHeader_m := False\<rparr> =
        control_state opc p s"
      by (intro session.equality) (simp_all add: control_state_def)
    then show ?thesis
      using hd(3,4) r n nz pl assms(4) unfolding b
      by (simp add: read_frame_def Let_def env_lawsD(7) [OF assms(1)] validate_text_def HandleFrameData_def
          HandleFrameEnd_def write_at_def ws_consts)
  qed
qed

text \<open>Reading a control frame at the start of the input.\<close>

lemma ReadWebsocket_control:
  assumes "env_laws E" "recv_inv l s" "bev_m s \<noteq> None" "\<not> hasHeader_m s"
    "opc \<in> {CLOSE_0X8, PING_0X9, PONG_0XA}" "length p \<le> 125"
  shows "ReadWebsocket E (rfc_header (control_header opc (length p)) (length p) @ p @ rest) s =
    andThen (HandleControlFrame E (control_state opc p s))
      (\<lambda>_ t. read_loop E (2 * length (rfc_header (control_header opc (length p)) (length p) @ p @ rest) + 1) rest t)"
proof -
  let ?in = "rfc_header (control_header opc (length p)) (length p) @ p @ rest"
  let ?b = "HandleFrameBegin E (s\<lparr>wsHeader_m := control_header opc (length p), hasHeader_m := True\<rparr>)"
  note hd = control_header_simps [OF assms(5,6)]
  have rh: "read_header E ?in s = Ret (Some (p @ rest)) ?b"
    using read_header_ok [OF assms(1) hd(1), of "p @ rest" s] hd(2) control_header_simps(6) [OF assms(5,6), of s] by simp
  have hb: "hasHeader_m ?b"
    using HandleFrameBegin_keeps [of l "s\<lparr>wsHeader_m := control_header opc (length p), hasHeader_m := True\<rparr>" E] assms(2) by simp
  have ne: "?in \<noteq> []" by (simp add: rfc_header_def)
  show ?thesis
    using assms(3) read_all_step [OF ne assms(4) rh hb]
    unfolding control_frame_read [OF assms(1,2,5,6)] andThen_assoc
    by (simp add: ReadWebsocket_def wtf_check_def)
qed

text \<open>
  A ping or pong frame ends the process: the handlers call the function pointers \<open>onPing_\<close> and
  \<open>onPong_\<close>, which nothing ever sets.
\<close>
theorem ping_pong_null_call:
  assumes "env_laws E" "recv_inv l s" "bev_m s \<noteq> None" "\<not> hasHeader_m s" "opc \<in> {PING_0X9, PONG_0XA}"
    "length p \<le> 125"
  shows "ReadWebsocket E (rfc_header (control_header opc (length p)) (length p) @ p @ rest) s = Fault NullCall"
proof -
  have o: "opc \<in> {CLOSE_0X8, PING_0X9, PONG_0XA}" using assms(5) by auto
  have "onPing_m (control_state opc p s) = None" "onPong_m (control_state opc p s) = None"
    "wsHeader_m (control_state opc p s) = control_header opc (length p)"
    using assms(2) by (simp_all add: recv_inv_def link_def control_state_def)
  then have "HandleControlFrame E (control_state opc p s) = Fault NullCall"
    using assms(5) control_header_simps(3) [OF o assms(6)]
    by (elim insertE emptyE)
      (simp_all add: HandleControlFrame_def HandlePingFrame_def HandlePongFrame_def call_ptr_def
        control_header_simps(5) [OF _ assms(6)])
  then show ?thesis unfolding ReadWebsocket_control [OF assms(1-4) o assms(6)] by simp
qed

theorem ping_pong_null_call_witness:
  "ReadWebsocket sample_env (rfc_header (control_header PING_0X9 (length [1 :: u8])) (length [1 :: u8]) @ [1] @ []) connected_session =
    Fault NullCall"
  by (rule ping_pong_null_call [OF _ recv_inv_connected_session])
    (simp_all, simp_all add: connected_session_def new_session_def)

lemma close_frame_handled:
  assumes "env_laws E" "env_no_failure E" "recv_inv l s" "bev_m s = Some out" "sendState_m s = SEND_NONE"
    "\<not> sentCloseFlag_m s" "WS_IS_PEER_CLOSE_STATUS_VALID (int (unat status))" "length reason \<le> 122"
    "ValidateUtf8 WS_UTF8_ACCEPT reason \<noteq> WS_UTF8_REJECT"
  shows "\<exists>key t. HandleControlFrame E (control_state CLOSE_0X8 (store_le 2 (htons status) @ reason) s) = Ret 0 t \<and> recv_inv l t \<and>
    state_m t = CLOSING \<and> receivedCloseFlag_m t \<and> sentCloseFlag_m t \<and> closeTimeoutEvent_m t \<and>
    serverCloseStatus_m t = int (unat status) \<and> serverReasonLen_m t = length reason \<and>
    bev_m t = Some (out @ rfc_header (frame_header CLOSE_0X8 key) (length reason + 2) @
      xor_key (store_le 4 key) (store_le 2 (htons status) @ reason))"
proof -
  let ?p = "store_le 2 (htons status) @ reason"
  let ?c = "control_state CLOSE_0X8 ?p s"
  let ?pay = "(?p @ replicate (125 - length ?p) 0)[length ?p := 0]"
  have lp: "length ?p = length reason + 2" by simp
  have hd: "IsControlOpcode (unat (opcode (wsHeader_m ?c)))" "has_opcode (wsHeader_m ?c) CLOSE_0X8"
    using control_header_simps(3,5) [of CLOSE_0X8 "length ?p"] assms(8) by (simp_all add: control_state_def)
  have "take 2 (ctrlPayload_m ?c) = store_le 2 (htons status)" by (simp add: control_state_def)
  moreover have "load_le (store_le 2 (htons status)) = htons status"
    unfolding load_le_store_le by (rule take_bit_word_eq_self) simp
  ultimately have st: "ntohs (load_le (take 2 (ctrlPayload_m ?c))) = status" by simp
  have rest: "take (length reason) (drop 2 ?pay) = reason"
    using assms(8) by (simp add: list_update_append drop_append)
  define u where "u = ?c\<lparr>serverCloseStatus_m := int (unat status), serverReason_m := ReasonCtrl,
      closeTimeoutEvent_m := False, state_m := CLOSING, receivedCloseFlag_m := True,
      serverReasonLen_m := length reason, ctrlPayload_m := ?pay, utf8State_m := ValidateUtf8 WS_UTF8_ACCEPT reason\<rparr>"
  have f: "ctrlLen_m ?c = length reason + 2" "length (ctrlPayload_m ?c) = 125" "ctrlPayload_m ?c = ?p @ replicate (125 - length ?p) 0"
    using assms(8) by (simp_all add: control_state_def)
  define x where "x = (if closeTimeoutEvent_m ?c then ?c\<lparr>serverCloseStatus_m := NORMAL_1000, serverReason_m := ReasonLiteral, closeTimeoutEvent_m := False\<rparr>
      else ?c\<lparr>serverCloseStatus_m := NORMAL_1000, serverReason_m := ReasonLiteral\<rparr>)\<lparr>state_m := CLOSING, receivedCloseFlag_m := True\<rparr>"
  have "HandleCloseFrame E ?c = echo_close E u"
  proof -
    have "HandleCloseFrame E ?c = echo_close E (x\<lparr>serverCloseStatus_m := int (unat status), serverReason_m := ReasonCtrl,
       serverReasonLen_m := length reason, ctrlPayload_m := ?pay, utf8State_m := ValidateUtf8 WS_UTF8_ACCEPT reason\<rparr>)"
      using f st rest assms(7-9) by (simp add: HandleCloseFrame_def Let_def x_def reason_memory_def)
    moreover have "x\<lparr>serverCloseStatus_m := int (unat status), serverReason_m := ReasonCtrl,
       serverReasonLen_m := length reason, ctrlPayload_m := ?pay, utf8State_m := ValidateUtf8 WS_UTF8_ACCEPT reason\<rparr> = u"
      by (intro session.equality) (simp_all add: u_def x_def)
    ultimately show ?thesis by simp
  qed
  then have h: "HandleControlFrame E ?c = CloseWithStatusReason E (int (unat status)) (drop 2 ?pay) (length reason) u"
    using hd assms(6) by (simp add: HandleControlFrame_def echo_close_def u_def reason_memory_def control_state_def)
  have echo: "store_le 2 (htons (of_int (int (unat status)))) @ take (length reason) (drop 2 ?pay) = ?p"
    unfolding rest by simp
  obtain key t where t: "CloseWithStatusReason E (int (unat status)) (drop 2 ?pay) (length reason) u = Ret 0 t"
    "closed_on u t" "state_m t = CLOSING" "sentCloseFlag_m t" "closeTimeoutEvent_m t"
    "bev_m t = Some (out @ rfc_header (frame_header CLOSE_0X8 key) (length reason + 2) @ xor_key (store_le 4 key) ?p)"
    using CloseWithStatusReason_ok [OF assms(1,2), of u out "int (unat status)" "length reason" "drop 2 ?pay"]
      assms(4-6,8) peer_valid_is_used [OF assms(7)] unfolding echo
    by (auto simp: u_def control_state_def frame_header_def)
  from t(2) have "receivedCloseFlag_m t" "serverCloseStatus_m t = int (unat status)" "serverReasonLen_m t = length reason"
    by (auto elim!: closed_onE simp: u_def)
  moreover have "recv_inv l u"
    using assms(3,8) by (simp add: u_def control_state_def recv_inv_def link_def ws_consts)
  then have "recv_inv l t" by (rule recv_inv_closed_on [OF t(2)])
  ultimately show ?thesis using h t by auto
qed

text \<open>
  C13. Closing handshake: when the peer closes with a valid status code and a reason of at most 122
  bytes that is not malformed UTF-8, and no close frame was sent yet, the session records status and
  reason length, moves to \<open>CLOSING\<close>, arms the close timer and answers with exactly one close frame
  whose payload is the received payload, status and reason alike; then reading goes on behind it.
\<close>
theorem close_frame_echoed:
  assumes "env_laws E" "env_no_failure E" "user_ok E" "recv_inv l s" "bev_m s = Some out" "\<not> hasHeader_m s"
    "sendState_m s = SEND_NONE" "\<not> sentCloseFlag_m s" "WS_IS_PEER_CLOSE_STATUS_VALID (int (unat status))"
    "length reason \<le> 122" "ValidateUtf8 WS_UTF8_ACCEPT reason \<noteq> WS_UTF8_REJECT"
  shows "\<exists>key t. ReadWebsocket E (rfc_header (control_header CLOSE_0X8 (length reason + 2)) (length reason + 2) @
      (store_le 2 (htons status) @ reason) @ rest) s = read_all E rest t \<and>
    state_m t = CLOSING \<and> receivedCloseFlag_m t \<and> sentCloseFlag_m t \<and> closeTimeoutEvent_m t \<and>
    serverCloseStatus_m t = int (unat status) \<and> serverReasonLen_m t = length reason \<and>
    bev_m t = Some (out @ rfc_header (frame_header CLOSE_0X8 key) (length reason + 2) @
      xor_key (store_le 4 key) (store_le 2 (htons status) @ reason))"
proof -
  let ?p = "store_le 2 (htons status) @ reason"
  obtain key t where t: "HandleControlFrame E (control_state CLOSE_0X8 ?p s) = Ret 0 t" "recv_inv l t"
    "state_m t = CLOSING \<and> receivedCloseFlag_m t \<and> sentCloseFlag_m t \<and> closeTimeoutEvent_m t \<and>
    serverCloseStatus_m t = int (unat status) \<and> serverReasonLen_m t = length reason \<and>
    bev_m t = Some (out @ rfc_header (frame_header CLOSE_0X8 key) (length reason + 2) @ xor_key (store_le 4 key) ?p)"
    using close_frame_handled [OF assms(1,2,4,5,7-11)] by blast
  have "ReadWebsocket E (rfc_header (control_header CLOSE_0X8 (length ?p)) (length ?p) @ ?p @ rest) s =
      read_loop E (2 * length (rfc_header (control_header CLOSE_0X8 (length ?p)) (length ?p) @ ?p @ rest) + 1) rest t"
    using ReadWebsocket_control [OF assms(1,4) _ assms(6), of CLOSE_0X8 ?p rest] assms(5,10) t(1) by simp
  also have "\<dots> = read_all E rest t"
    by (rule read_all_fuel [OF assms(1,3) t(2)]) simp
  finally show ?thesis using t(3) by (intro exI [of _ key] exI [of _ t]) (simp add: add.commute)
qed

theorem close_frame_echoed_witness:
  "\<exists>key t. ReadWebsocket chat_env (rfc_header (control_header CLOSE_0X8 (length [0x6F, 0x6B :: u8] + 2)) (length [0x6F, 0x6B :: u8] + 2) @
      (store_le 2 (htons 1000) @ [0x6F, 0x6B]) @ []) connected_session = read_all chat_env [] t \<and>
    state_m t = CLOSING \<and> receivedCloseFlag_m t \<and> sentCloseFlag_m t \<and> closeTimeoutEvent_m t \<and>
    serverCloseStatus_m t = int (unat (1000 :: u16)) \<and> serverReasonLen_m t = length [0x6F, 0x6B :: u8] \<and>
    bev_m t = Some ([] @ rfc_header (frame_header CLOSE_0X8 key) (length [0x6F, 0x6B :: u8] + 2) @
      xor_key (store_le 4 key) (store_le 2 (htons 1000) @ [0x6F, 0x6B]))"
proof (rule close_frame_echoed [OF chat_env_laws _ chat_user_ok recv_inv_connected_session])
  show "env_no_failure chat_env" using sample_env_ok(2) by (simp add: chat_env_def env_no_failure_def)
  show "WS_IS_PEER_CLOSE_STATUS_VALID (int (unat (1000 :: u16)))"
    by (simp add: WS_IS_PEER_CLOSE_STATUS_VALID_def ws_consts)
  show "ValidateUtf8 WS_UTF8_ACCEPT [0x6F, 0x6B] \<noteq> WS_UTF8_REJECT"
    unfolding ValidateUtf8_Cons WS_UTF8_ACCEPT_def WS_UTF8_REJECT_def by (simp add: utf8_next_simps)
qed (simp_all add: connected_session_def new_session_def)

text \<open>
  A close frame with the largest legal control payload, 125 bytes, makes the session write the
  terminating NUL of the reason one byte behind \<open>ctrlPayload_\<close>.
\<close>
theorem close_frame_125_out_of_bounds:
  assumes "env_laws E" "recv_inv l s" "bev_m s \<noteq> None" "\<not> hasHeader_m s" "length p = 125"
  shows "ReadWebsocket E (rfc_header (control_header CLOSE_0X8 125) 125 @ p @ rest) s = Fault OutOfBounds"
proof -
  let ?c = "control_state CLOSE_0X8 p s"
  have hd: "IsControlOpcode (unat (opcode (wsHeader_m ?c)))" "has_opcode (wsHeader_m ?c) CLOSE_0X8"
    using control_header_simps(3,5) [of CLOSE_0X8 125] assms(5) by (simp_all add: control_state_def)
  have "HandleControlFrame E ?c = Fault OutOfBounds"
    using hd assms(5) by (simp add: HandleControlFrame_def HandleCloseFrame_def Let_def control_state_def)
  then show ?thesis
    using ReadWebsocket_control [OF assms(1-4), of CLOSE_0X8 p rest] assms(5) by simp
qed

theorem close_frame_125_out_of_bounds_witness:
  "ReadWebsocket sample_env (rfc_header (control_header CLOSE_0X8 125) 125 @ replicate 125 3 @ []) connected_session =
    Fault OutOfBounds"
  by (rule close_frame_125_out_of_bounds [OF _ recv_inv_connected_session])
    (simp_all, simp_all add: connected_session_def new_session_def)

text \<open>
  C14. A frame header that \<open>ValidateHeader\<close> rejects, such as one with a reserved bit, a reserved
  opcode, or a continuation frame within a message, is answered with one close frame with status
  1002 and reading stops there: the session is \<open>CLOSING\<close>, no handler runs and nothing is consumed.
\<close>
theorem bad_header_closes:
  assumes "env_laws E" "env_no_failure E" "bev_m s = Some out" "\<not> hasHeader_m s" "sendState_m s = SEND_NONE"
    "\<not> sentCloseFlag_m s" "on_wire h = h" "ValidateHeader (s\<lparr>wsHeader_m := h\<rparr>) \<noteq> 0"
  shows "\<exists>key t. ReadWebsocket E (rfc_header h (unat (payloadLen h)) @ tl_in) s =
      Ret (rfc_header h (unat (payloadLen h)) @ tl_in) t \<and> state_m t = CLOSING \<and> sentCloseFlag_m t \<and>
    bev_m t = Some (out @ rfc_header (frame_header CLOSE_0X8 key) 2 @ xor_key (store_le 4 key) (store_le 2 (htons 1002)))"
proof -
  let ?in = "rfc_header h (unat (payloadLen h)) @ tl_in"
  obtain key t where t: "CloseWithStatus E PROTOCOL_ERR_1002 (s\<lparr>wsHeader_m := h\<rparr>) = Ret 0 t" "state_m t = CLOSING" "sentCloseFlag_m t"
    "bev_m t = Some (out @ rfc_header (frame_header CLOSE_0X8 key) 2 @ xor_key (store_le 4 key) (store_le 2 (htons 1002)))"
    using CloseWithStatusReason_ok [OF assms(1,2), of "s\<lparr>wsHeader_m := h\<rparr>" out PROTOCOL_ERR_1002 0 "[]"] assms(3,5,6)
    by (auto simp: CloseWithStatus_def WS_IS_CLOSE_STATUS_NOT_USED_def frame_header_def ws_consts numeral_2_eq_2)
  have "read_header E ?in s = Ret None t"
    using read_header_ok [OF assms(1,7), of tl_in s] assms(8) t(1) by simp
  moreover have "?in \<noteq> []" by (simp add: rfc_header_def)
  ultimately have "ReadWebsocket E ?in s = Ret ?in t"
    using assms(3,4) by (simp add: ReadWebsocket_def read_all_def wtf_check_def del: append_is_Nil_conv)
  with t show ?thesis by blast
qed

theorem bad_header_closes_witness:
  "\<exists>key t. ReadWebsocket sample_env (rfc_header WSHeader0 (unat (payloadLen WSHeader0)) @ []) (connected_session\<lparr>inMsgFlag_m := True\<rparr>) =
      Ret (rfc_header WSHeader0 (unat (payloadLen WSHeader0)) @ []) t \<and> state_m t = CLOSING \<and> sentCloseFlag_m t \<and>
    bev_m t = Some ([] @ rfc_header (frame_header CLOSE_0X8 key) 2 @ xor_key (store_le 4 key) (store_le 2 (htons 1002)))"
  by (rule bad_header_closes)
    (simp_all add: connected_session_def new_session_def on_wire_def WSHeader0_def ValidateHeader_def Let_def
      opcode_ranges has_opcode_def)

end
