(* ===== verification/Header_Map.thy ===== *)
theory Header_Map
  imports Prelude
begin

text \<open>
  The case-insensitive header maps of \<^verbatim>\<open>src/net/header.h\<close> and \<^verbatim>\<open>src/net/ws_cli/header.h\<close>: a \<open>std::map\<close>
  ordered by \<open>CaseInsensitiveCompare\<close>. A \<open>std::map\<close> is a list of pairs sorted by its comparison;
  its operations only use the comparison. The contract of the comparison is a locale: a strict
  weak order, under which the map behaves as a map on equivalence classes of keys. The locale is
  interpreted with the comparison of the sources.
\<close>

section \<open>The comparison\<close>

fun lexicographical_compare :: "('a \<Rightarrow> 'a \<Rightarrow> bool) \<Rightarrow> 'a list \<Rightarrow> 'a list \<Rightarrow> bool" where
  "lexicographical_compare cmp [] [] = False"
| "lexicographical_compare cmp [] (b # ys) = True"
| "lexicographical_compare cmp (a # xs) [] = False"
| "lexicographical_compare cmp (a # xs) (b # ys) =
     (if cmp a b then True else if cmp b a then False else lexicographical_compare cmp xs ys)"

definition CaseInsensitiveCompare :: "string \<Rightarrow> string \<Rightarrow> bool" where
  "CaseInsensitiveCompare = lexicographical_compare (\<lambda>ac bc. (of_char (tolower ac) :: nat) < of_char (tolower bc))"

section \<open>The map\<close>

fun insert_or_assign :: "('k \<Rightarrow> 'k \<Rightarrow> bool) \<Rightarrow> 'k \<Rightarrow> 'v \<Rightarrow> ('k \<times> 'v) list \<Rightarrow> ('k \<times> 'v) list" where
  "insert_or_assign lt k v [] = [(k, v)]"
| "insert_or_assign lt k v ((k', v') # m) =
     (if lt k k' then (k, v) # (k', v') # m
      else if lt k' k then (k', v') # insert_or_assign lt k v m
      else (k', v) # m)"

fun map_find :: "('k \<Rightarrow> 'k \<Rightarrow> bool) \<Rightarrow> 'k \<Rightarrow> ('k \<times> 'v) list \<Rightarrow> 'v option" where
  "map_find lt k [] = None"
| "map_find lt k ((k', v) # m) =
     (if lt k k' then None else if lt k' k then map_find lt k m else Some v)"

fun sorted_keys :: "('k \<Rightarrow> 'k \<Rightarrow> bool) \<Rightarrow> ('k \<times> 'v) list \<Rightarrow> bool" where
  "sorted_keys lt [] \<longleftrightarrow> True"
| "sorted_keys lt ((k, v) # m) \<longleftrightarrow> (\<forall>(k', _) \<in> set m. lt k k') \<and> sorted_keys lt m"

locale strict_weak_order =
  fixes lt :: "'k \<Rightarrow> 'k \<Rightarrow> bool"
  assumes irrefl: "\<not> lt a a"
    and trans: "lt a b \<Longrightarrow> lt b c \<Longrightarrow> lt a c"
    and cotrans: "lt a c \<Longrightarrow> lt a b \<or> lt b c"
begin

definition equivalent :: "'k \<Rightarrow> 'k \<Rightarrow> bool" where
  "equivalent a b \<longleftrightarrow> \<not> lt a b \<and> \<not> lt b a"

lemma keys_insert:
  "fst ` set (insert_or_assign lt k v m) \<subseteq> insert k (fst ` set m)"
  by (induction m) (force split: if_splits)+

lemma sorted_insert: "sorted_keys lt m \<Longrightarrow> sorted_keys lt (insert_or_assign lt k v m)"
proof (induction m)
  case (Cons p m)
  obtain k' v' where p: "p = (k', v')" by force
  have "lt k' k'' " if "k'' \<in> fst ` set (insert_or_assign lt k v m)" "lt k' k" for k''
    using that subsetD [OF keys_insert [of k v m] that(1)] Cons.prems p by force
  then have "lt k' a" if "(a, b) \<in> set (insert_or_assign lt k v m)" "lt k' k" for a b
    using that by force
  with Cons p show ?case by (auto intro: trans)
qed simp

lemma find_none: "\<forall>(k', _) \<in> set m. lt k k' \<Longrightarrow> map_find lt k m = None"
  by (cases m) auto

lemma lt_cases:
  "equivalent j k \<Longrightarrow> lt j x = lt k x" "equivalent j k \<Longrightarrow> lt x j = lt x k"
  unfolding equivalent_def by (metis cotrans)+

lemma find_insert:
  "sorted_keys lt m \<Longrightarrow>
   map_find lt j (insert_or_assign lt k v m) = (if equivalent j k then Some v else map_find lt j m)"
proof (induction m)
  case Nil
  then show ?case by (simp add: equivalent_def)
next
  case (Cons p m)
  obtain k' v' where p: "p = (k', v')" by force
  show ?case
  proof (cases "equivalent j k")
    case True
    then show ?thesis using Cons p lt_cases [OF True] irrefl by simp
  next
    case False
    then have j: "lt j k \<or> lt k j" by (simp add: equivalent_def)
    consider "lt k k'" | "\<not> lt k k'" "lt k' k" | "equivalent k k'" by (auto simp: equivalent_def)
    then show ?thesis
    proof cases
      case 1
      with j trans [of j k k'] False show ?thesis by (auto simp: p)
    next
      case 2
      with Cons False show ?thesis by (simp add: p)
    next
      case 3
      with j False lt_cases [OF 3, of j] irrefl show ?thesis by (auto simp: p equivalent_def)
    qed
  qed
qed

lemma find_equivalent: "equivalent j k \<Longrightarrow> map_find lt j m = map_find lt k m"
proof (induction m)
  case (Cons p m)
  obtain k' v' where p: "p = (k', v')" by force
  with Cons lt_cases [OF Cons.prems] show ?case by simp
qed simp

end

section \<open>The interpretation\<close>

lemma lexicographical_compare_irrefl: "(\<And>a. \<not> cmp a a) \<Longrightarrow> \<not> lexicographical_compare cmp xs xs"
  by (induction xs) auto

lemma lexicographical_compare_key:
  "lexicographical_compare (\<lambda>a b. (f a :: nat) < f b) xs ys \<longleftrightarrow> lexicographical_compare (<) (map f xs) (map f ys)"
  by (induction "\<lambda>a b. (f a :: nat) < f b" xs ys rule: lexicographical_compare.induct) auto

lemma lexicographical_compare_linear:
  fixes xs ys zs :: "nat list"
  shows "lexicographical_compare (<) xs ys \<Longrightarrow> lexicographical_compare (<) ys zs \<Longrightarrow> lexicographical_compare (<) xs zs"
    "xs \<noteq> ys \<Longrightarrow> lexicographical_compare (<) xs ys \<or> lexicographical_compare (<) ys xs"
proof -
  show "lexicographical_compare (<) xs ys \<Longrightarrow> lexicographical_compare (<) ys zs \<Longrightarrow> lexicographical_compare (<) xs zs"
  proof (induction xs arbitrary: ys zs)
    case Nil
    then show ?case by (cases ys; cases zs) auto
  next
    case (Cons x xs)
    then show ?case by (cases ys; cases zs) (auto split: if_splits)
  qed
  show "xs \<noteq> ys \<Longrightarrow> lexicographical_compare (<) xs ys \<or> lexicographical_compare (<) ys xs"
  proof (induction xs arbitrary: ys)
    case Nil
    then show ?case by (cases ys) auto
  next
    case (Cons x xs)
    then show ?case by (cases ys) auto
  qed
qed

definition fold_case :: "string \<Rightarrow> nat list" where
  "fold_case s = map (\<lambda>c. of_char (tolower c)) s"

lemma CaseInsensitiveCompare_fold: "CaseInsensitiveCompare a b \<longleftrightarrow> lexicographical_compare (<) (fold_case a) (fold_case b)"
  unfolding CaseInsensitiveCompare_def fold_case_def by (rule lexicographical_compare_key)

text \<open>A comparison by a key that is a list of numbers.\<close>

lemma lexicographical_key_order:
  assumes lt: "\<And>a b. lt a b \<longleftrightarrow> lexicographical_compare (<) (f a :: nat list) (f b)"
  shows "strict_weak_order lt"
proof
  show "\<not> lt a a" for a by (simp add: lt lexicographical_compare_irrefl)
  show "lt a b \<Longrightarrow> lt b c \<Longrightarrow> lt a c" for a b c unfolding lt by (rule lexicographical_compare_linear(1))
  show "lt a c \<Longrightarrow> lt a b \<or> lt b c" for a b c
    unfolding lt
    by (cases "f a = f b")
      (use lexicographical_compare_linear(2) [of "f a" "f b"] lexicographical_compare_linear(1) [of "f b" "f a" "f c"] in auto)
qed

lemma lexicographical_key_equal:
  assumes lt: "\<And>a b. lt a b \<longleftrightarrow> lexicographical_compare (<) (f a :: nat list) (f b)"
  shows "\<not> lt a b \<and> \<not> lt b a \<longleftrightarrow> f a = f b"
  using lexicographical_compare_linear(2) [of "f a" "f b"] lexicographical_compare_irrefl [of "(<)" "f b"] by (auto simp: lt)

interpretation hdr: strict_weak_order CaseInsensitiveCompare
  by (rule lexicographical_key_order [OF CaseInsensitiveCompare_fold])

lemma fold_case_eq: "fold_case a = fold_case b \<longleftrightarrow> map tolower a = map tolower b"
proof -
  have f: "fold_case s = map of_char (map tolower s)" for s
    by (simp add: fold_case_def)
  have "inj (of_char :: char \<Rightarrow> nat)"
    by (simp add: inj_def)
  then show ?thesis
    unfolding f by (rule inj_map_eq_map)
qed

lemma hdr_equivalent: "hdr.equivalent a b \<longleftrightarrow> map tolower a = map tolower b"
  using lexicographical_key_equal [of CaseInsensitiveCompare fold_case a b, OF CaseInsensitiveCompare_fold] by (simp add: hdr.equivalent_def fold_case_eq)

text \<open>
  The header map is case-insensitive: after \<open>insert_or_assign(k, v)\<close> a lookup by any name that
  differs from \<open>k\<close> only in the case of letters finds \<open>v\<close>, every other lookup is unchanged, and the
  entries stay strictly sorted, so no two stored names differ only in case.
\<close>
theorem header_insert_or_assign:
  assumes "sorted_keys CaseInsensitiveCompare m"
  shows "sorted_keys CaseInsensitiveCompare (insert_or_assign CaseInsensitiveCompare k v m) \<and>
    map_find CaseInsensitiveCompare j (insert_or_assign CaseInsensitiveCompare k v m) =
      (if map tolower j = map tolower k then Some v else map_find CaseInsensitiveCompare j m)"
  using hdr.sorted_insert [OF assms] hdr.find_insert [OF assms] by (simp add: hdr_equivalent)

theorem header_insert_or_assign_witness:
  "sorted_keys CaseInsensitiveCompare (insert_or_assign CaseInsensitiveCompare ''Upgrade'' ''websocket'' [(''Host'', ''h'')]) \<and>
    map_find CaseInsensitiveCompare ''UPGRADE'' (insert_or_assign CaseInsensitiveCompare ''Upgrade'' ''websocket'' [(''Host'', ''h'')]) =
      (if map tolower ''UPGRADE'' = map tolower ''Upgrade'' then Some ''websocket''
       else map_find CaseInsensitiveCompare ''UPGRADE'' [(''Host'', ''h'')])"
  using header_insert_or_assign [of "[(''Host'', ''h'')]" "''Upgrade''" "''websocket''" "''UPGRADE''"] by simp

end
