(* ===== verification/Ws_Handshake.thy ===== *)
theory Ws_Handshake
  imports Ws_Recv Header_Map
begin

text \<open>
  The opening handshake of \<open>SessionImplEV\<close>: the request it writes (\<open>SendHandshake\<close>), and how it
  reads the server's reply line by line (\<open>ReadServerHandshakeReply\<close> and what it calls).
  \<open>std::istringstream\<close>, \<open>std::getline\<close>, \<open>operator>>\<close> and \<open>sscanf\<close> are modelled as far as the
  code uses them. The input buffer is a byte list that the readers return shortened.
\<close>

section \<open>The request\<close>

definition CompareStrIgnoreCase :: "string \<Rightarrow> string \<Rightarrow> bool" where
  "CompareStrIgnoreCase a b = list_all2 (\<lambda>a b. tolower a = tolower b) a b"

definition GenerateHandshakeKey :: "('w, 'h) env \<Rightarrow> ('w, 'h) session \<Rightarrow> int \<times> ('w, 'h) session" where
  "GenerateHandshakeKey E s =
     (let (randKey, n, w) = GetRandomMask (rand_s E) 16 (world s);
          s = s\<lparr>world := w\<rparr>
      in if int n < 0 then (-1, s)
         else
           (let s = s\<lparr>handshakeKeyBase64_m := EncodeBase64 randKey\<rparr>
            in if handshakeKeyBase64_m s = [] then (-1, s) else (0, s)))"

text \<open>\<open>evbuffer_add_printf\<close> with the text its format gives; the result is ignored by the callers.\<close>

fun add_printfs :: "('w, 'h) env \<Rightarrow> string list \<Rightarrow> bytes \<Rightarrow> 'w \<Rightarrow> bytes \<times> 'w" where
  "add_printfs E [] out w = (out, w)"
| "add_printfs E (t # ts) out w =
     (let (rc, out, w) = evbuffer_add_printf E out (to_bytes t) w in add_printfs E ts out w)"

definition handshake_lines :: "('w, 'h) session \<Rightarrow> string list" where
  "handshake_lines s =
     [''GET /'' @ (if uri_m s \<noteq> [] then c_str (uri_m s) else '''') @ '' HTTP/1.1'' @ crlf,
      ''Host: '' @ c_str (host_m s) @ '':'' @ dec_int (port_m s) @ crlf,
      ''Connection: Upgrade'' @ crlf,
      ''Upgrade: websocket'' @ crlf,
      ''Sec-Websocket-Version: 13'' @ crlf,
      ''Sec-WebSocket-Key: '' @ c_str (handshakeKeyBase64_m s) @ crlf] @
     (if origin_m s \<noteq> [] then [''Origin: '' @ c_str (origin_m s) @ crlf] else []) @
     (if numSubprotocols_m s > 0
      then (''Sec-WebSocket-Protocol: '' @ c_str (subprotocols_m s ! 0)) #
           map (\<lambda>i. '', '' @ c_str (subprotocols_m s ! i)) [1..<numSubprotocols_m s]
      else []) @
     [crlf]"

definition SendHandshake ::
  "('w, 'h) env \<Rightarrow> bytes \<Rightarrow> ('w, 'h) session \<Rightarrow> (int \<times> bytes, ('w, 'h) session) outcome" where
  "SendHandshake E out s =
     (let (rc, s) = GenerateHandshakeKey E s
      in if rc \<noteq> 0 then Ret (-1, out) s
         else if numSubprotocols_m s > length (subprotocols_m s) then Fault OutOfBounds
         else
           (let (out, w) = add_printfs E (handshake_lines s) out (world s);
                s = s\<lparr>world := w\<rparr>;
                s = s\<lparr>connectState_m := SENT_REQ\<rparr>
            in Ret (0, out) s))"

section \<open>The reply: status line\<close>

text \<open>
  \<open>sscanf\<close>: \<open>%d\<close> skips white space, takes a sign and digits, and is undefined when the value
  does not fit an \<open>int\<close>; a literal character has to match; a blank skips white space.
\<close>

definition scan_int :: "string \<Rightarrow> (int option, string) outcome" where
  "scan_int s =
     (let s1 = dropWhile isspace s;
          neg = (s1 \<noteq> [] \<and> hd s1 = CHR ''-'');
          s2 = (if s1 \<noteq> [] \<and> (hd s1 = CHR ''-'' \<or> hd s1 = CHR ''+'') then tl s1 else s1);
          ds = takeWhile isdigit s2;
          v = (if neg then - int (digits_value ds) else int (digits_value ds))
      in if ds = [] then Ret None s1
         else if v < - (2 ^ 31) \<or> v \<ge> 2 ^ 31 then Fault UndefinedValue
         else Ret (Some v) (drop (length ds) s2))"

fun scan_literal :: "string \<Rightarrow> string \<Rightarrow> string option" where
  "scan_literal [] s = Some s"
| "scan_literal (c # cs) [] = None"
| "scan_literal (c # cs) (d # s) = (if c = d then scan_literal cs s else None)"

text \<open>The result is the return value and the three output parameters.\<close>

definition ParseHttpStatus :: "string \<Rightarrow> (int \<times> int \<times> int \<times> int, unit) outcome" where
  "ParseHttpStatus line =
     (case scan_literal ''HTTP/'' line of
        None \<Rightarrow> Ret (-1, -1, -1, -1) ()
      | Some r \<Rightarrow>
          andThen (scan_int r) (\<lambda>maj r. case maj of
            None \<Rightarrow> Ret (-1, -1, -1, -1) ()
          | Some httpMajorVersion \<Rightarrow>
              (case scan_literal ''.'' r of
                 None \<Rightarrow> Ret (-1, httpMajorVersion, -1, -1) ()
               | Some r \<Rightarrow>
                   andThen (scan_int r) (\<lambda>min r. case min of
                     None \<Rightarrow> Ret (-1, httpMajorVersion, -1, -1) ()
                   | Some httpMinorVersion \<Rightarrow>
                       andThen (scan_int (dropWhile isspace r)) (\<lambda>st r. case st of
                         None \<Rightarrow> Ret (-1, httpMajorVersion, httpMinorVersion, -1) ()
                       | Some statusCode \<Rightarrow>
                           Ret (0, httpMajorVersion, httpMinorVersion, statusCode) ())))))"

text \<open>The output parameters are written unless more input is needed.\<close>

definition ReadHttpStatus ::
  "('w, 'h) env \<Rightarrow> bytes \<Rightarrow> (WSParseState \<times> (int \<times> int \<times> int) option \<times> bytes, unit) outcome" where
  "ReadHttpStatus E inBuf =
     (case evbuffer_readln E inBuf of
        (None, inBuf) \<Rightarrow> Ret (NEED_MORE, None, inBuf) ()
      | (Some line, inBuf) \<Rightarrow>
          andThen (ParseHttpStatus (c_str (of_bytes line))) (\<lambda>(rc, vs) _.
            Ret (if rc \<noteq> 0 then PARSE_ERROR else SUCCESS, Some vs, inBuf) ()))"

section \<open>The reply: header lines\<close>

text \<open>
  \<open>getline\<close> up to the colon, then one token. The extraction leaves \<open>headerVal\<close> as it was when
  the stream has already ended or only white space is left.
\<close>

definition parse_header_line :: "string \<Rightarrow> string \<Rightarrow> string \<times> string" where
  "parse_header_line line headerVal =
     (let headerKey = takeWhile (\<lambda>c. c \<noteq> CHR '':'') line;
          r = dropWhile isspace (drop (Suc (length headerKey)) line)
      in (headerKey, if r = [] then headerVal else takeWhile (\<lambda>c. \<not> isspace c) r))"

definition ParseHttpHeader ::
  "string \<Rightarrow> string \<Rightarrow> ('w, 'h) session \<Rightarrow> int \<times> string \<times> string \<times> ('w, 'h) session" where
  "ParseHttpHeader line headerVal s =
     (let (headerKey, headerVal) = parse_header_line line headerVal
      in (0, headerKey, headerVal,
          s\<lparr>header_m := insert_or_assign CaseInsensitiveCompare headerKey headerVal (header_m s)\<rparr>))"

definition CalculateKeyHash :: "('w, 'h) env \<Rightarrow> string \<Rightarrow> string" where
  "CalculateKeyHash E handshake_key_base64 =
     (let keyHash = handshake_key_base64 @ ''258EAFA5-E914-47DA-95CA-C5AB0DC85B11''
      in EncodeBase64 (SHA1 E (to_bytes keyHash)))"

definition ValidateHttpHeader ::
  "u8 \<Rightarrow> string \<Rightarrow> string \<Rightarrow> string \<Rightarrow> string \<Rightarrow> bool \<Rightarrow> ('w, 'h) session \<Rightarrow> int \<times> ('w, 'h) session" where
  "ValidateHttpHeader flag name val expectedName expected_val must_appear_only_once s =
     (if CompareStrIgnoreCase expectedName name then
        (if must_appear_only_once \<and> httpHeaderFlags_m s AND flag \<noteq> 0 then (-1, s)
         else if \<not> CompareStrIgnoreCase expected_val val then (-1, s)
         else (0, s\<lparr>httpHeaderFlags_m := httpHeaderFlags_m s OR flag\<rparr>))
      else (0, s))"

definition ValidateHttpHeaders ::
  "('w, 'h) env \<Rightarrow> string \<Rightarrow> string \<Rightarrow> ('w, 'h) session \<Rightarrow> int \<times> ('w, 'h) session" where
  "ValidateHttpHeaders E name val s =
     (let (rc, s) = ValidateHttpHeader WS_HAS_VALID_UPGRADE_HEADER name val ''Upgrade'' ''websocket'' True s
      in if rc \<noteq> 0 then (-1, s) else
      let (rc, s) = ValidateHttpHeader WS_HAS_VALID_CONNECTION_HEADER name val ''Connection'' ''upgrade'' True s
      in if rc \<noteq> 0 then (-1, s) else
      let acceptKeyHash = CalculateKeyHash E (c_str (handshakeKeyBase64_m s))
      in if acceptKeyHash = [] then (-1, s) else
      let (rc, s) = ValidateHttpHeader WS_HAS_VALID_WS_ACCEPT_HEADER name val ''Sec-WebSocket-Accept''
                      (c_str acceptKeyHash) True s
      in if rc \<noteq> 0 then (-1, s) else
      if CompareStrIgnoreCase name ''Sec-WebSocket-Extensions'' then (-1, s) else
      if CompareStrIgnoreCase ''Sec-WebSocket-Protocol'' name then
        (-1, s\<lparr>httpHeaderFlags_m := httpHeaderFlags_m s AND NOT WS_HAS_VALID_WS_PROTOCOL_HEADER\<rparr>)
      else (0, s))"

text \<open>
  The loop over the header lines. Every line takes at least its linefeed from the buffer, so as
  much fuel as there are bytes is enough.
\<close>

fun read_headers ::
  "('w, 'h) env \<Rightarrow> nat \<Rightarrow> bytes \<Rightarrow> string \<Rightarrow> ('w, 'h) session \<Rightarrow> (WSParseState \<times> bytes, ('w, 'h) session) outcome" where
  "read_headers E 0 inb headerVal s = Fault OutOfFuel"
| "read_headers E (Suc n) inb headerVal s =
     (case evbuffer_readln E inb of
        (None, inb) \<Rightarrow> Ret (NEED_MORE, inb) s
      | (Some line, inb) \<Rightarrow>
          (let line = c_str (of_bytes line) in
           if line = [] then Ret (SUCCESS, inb) s
           else
             (let (rc, headerKey, headerVal, s) = ParseHttpHeader line headerVal s in
              if rc \<noteq> 0 then Ret (PARSE_ERROR, inb) s
              else
                (let (rc, s) = ValidateHttpHeaders E headerKey headerVal s in
                 if rc \<noteq> 0 then Ret (PARSE_ERROR, inb) s
                 else read_headers E n inb headerVal s))))"

definition ReadHttpHeaders ::
  "('w, 'h) env \<Rightarrow> bytes \<Rightarrow> ('w, 'h) session \<Rightarrow> (WSParseState \<times> bytes, ('w, 'h) session) outcome" where
  "ReadHttpHeaders E inb s = read_headers E (Suc (length inb)) inb '''' s"

section \<open>The reply as a whole\<close>

text \<open>The last case of the switch.\<close>

definition check_headers :: "('w, 'h) session \<Rightarrow> WSParseState \<times> ('w, 'h) session" where
  "check_headers s =
     (let flag = httpHeaderFlags_m s in
      if flag AND WS_HAS_VALID_UPGRADE_HEADER = 0 then (PARSE_ERROR, s)
      else if flag AND WS_HAS_VALID_CONNECTION_HEADER = 0 then (PARSE_ERROR, s)
      else if flag AND WS_HAS_VALID_WS_ACCEPT_HEADER = 0 then (PARSE_ERROR, s)
      else (SUCCESS, s\<lparr>connectState_m := HANDSHAKE_COMPLETE\<rparr>))"

definition reply_headers ::
  "('w, 'h) env \<Rightarrow> bytes \<Rightarrow> ('w, 'h) session \<Rightarrow> (WSParseState \<times> bytes, ('w, 'h) session) outcome" where
  "reply_headers E inBuf s =
     andThen (ReadHttpHeaders E inBuf s) (\<lambda>(parseState, inBuf) s.
       if parseState \<noteq> SUCCESS then Ret (parseState, inBuf) s
       else
         (let (r, s) = check_headers (s\<lparr>connectState_m := PARSED_HEADERS\<rparr>) in Ret (r, inBuf) s))"

definition ReadServerHandshakeReply ::
  "('w, 'h) env \<Rightarrow> bytes \<Rightarrow> ('w, 'h) session \<Rightarrow> (WSParseState \<times> bytes, ('w, 'h) session) outcome" where
  "ReadServerHandshakeReply E inBuf s =
     (case connectState_m s of
        SENT_REQ \<Rightarrow>
          (let s = s\<lparr>httpHeaderFlags_m := 0\<rparr> in
           andThen (ReadHttpStatus E inBuf) (\<lambda>(parseState, vs, inBuf) _.
             if parseState \<noteq> SUCCESS then Ret (parseState, inBuf) s
             else
               (case vs of
                  None \<Rightarrow> Fault IndeterminateRead
                | Some (majorVersion, minorVersion, statusCode) \<Rightarrow>
                    if majorVersion \<noteq> 1 \<or> minorVersion \<noteq> 1 then Ret (PARSE_ERROR, inBuf) s
                    else if statusCode \<noteq> HTTP_STATUS_SWITCHING_PROTOCOLS_101 then Ret (PARSE_ERROR, inBuf) s
                    else reply_headers E inBuf (s\<lparr>connectState_m := PARSED_STATUS\<rparr>))))
      | PARSED_STATUS \<Rightarrow> reply_headers E inBuf s
      | PARSED_HEADERS \<Rightarrow> (let (r, s) = check_headers s in Ret (r, inBuf) s)
      | _ \<Rightarrow> Ret (PARSE_ERROR, inBuf) s)"

section \<open>Reading numbers and status lines\<close>

lemma scan_int_dec_nat:
  assumes "n < 2 ^ 31" "rest = [] \<or> \<not> isdigit (hd rest)"
  shows "scan_int (dec_nat n @ rest) = Ret (Some (int n)) rest"
proof -
  obtain c cs where d: "dec_nat n = c # cs" using dec_nat_not_Nil [of n] by (cases "dec_nat n") auto
  have c: "\<not> isspace c" "c \<noteq> CHR ''-''" "c \<noteq> CHR ''+''"
    using isdigit_dec_nat [of n] isspace_digit [of c] d by auto
  have t: "takeWhile isdigit (dec_nat n @ rest) = dec_nat n"
    by (rule takeWhile_digits [OF isdigit_dec_nat assms(2)])
  have "int n < 2 ^ 31" using assms(1) by simp
  then show ?thesis
    using t c digits_value_dec_nat [of n] by (simp add: scan_int_def d Let_def)
qed

lemma scan_literal_append [simp]: "scan_literal t (t @ r) = Some r"
  by (induction t) simp_all

lemma isdigit_dot [simp]: "\<not> isdigit CHR ''.''" "\<not> isdigit CHR '' ''" "isspace CHR '' ''"
  by (simp_all add: isdigit_def isspace_def)

lemma dropWhile_dec_nat [simp]: "dropWhile isspace (dec_nat n @ r) = dec_nat n @ r"
proof -
  obtain c cs where d: "dec_nat n = c # cs" using dec_nat_not_Nil [of n] by (cases "dec_nat n") auto
  then show ?thesis using isdigit_dec_nat [of n] isspace_digit [of c] by simp
qed

text \<open>
  Parsing a status line gives back the numbers printed into it: for every version and status
  code that fits an \<open>int\<close> and any reason phrase that does not begin with a digit.
\<close>
theorem ParseHttpStatus_status_line:
  assumes "maj < 2 ^ 31" "minor < 2 ^ 31" "code < 2 ^ 31" "phrase = [] \<or> \<not> isdigit (hd phrase)"
  shows "ParseHttpStatus (''HTTP/'' @ dec_nat maj @ ''.'' @ dec_nat minor @ '' '' @ dec_nat code @ phrase) =
    Ret (0, int maj, int minor, int code) ()"
proof -
  have "scan_int (dec_nat maj @ ''.'' @ r) = Ret (Some (int maj)) (''.'' @ r)" for r
    by (rule scan_int_dec_nat [OF assms(1)]) simp
  moreover have "scan_int (dec_nat minor @ '' '' @ r) = Ret (Some (int minor)) ('' '' @ r)" for r
    by (rule scan_int_dec_nat [OF assms(2)]) simp
  moreover have "scan_int (dec_nat code @ phrase) = Ret (Some (int code)) phrase"
    by (rule scan_int_dec_nat [OF assms(3,4)])
  ultimately show ?thesis
    unfolding ParseHttpStatus_def scan_literal_append by simp
qed

theorem ParseHttpStatus_status_line_witness:
  "ParseHttpStatus (''HTTP/'' @ dec_nat 1 @ ''.'' @ dec_nat 1 @ '' '' @ dec_nat 101 @ '' Switching Protocols'') =
    Ret (0, int 1, int 1, int 101) ()"
  by (rule ParseHttpStatus_status_line) simp_all

section \<open>Soundness of the reply check\<close>

lemma CompareStrIgnoreCase_iff: "CompareStrIgnoreCase a b \<longleftrightarrow> map tolower a = map tolower b"
  unfolding CompareStrIgnoreCase_def
  by (auto simp: list_all2_conv_all_nth list_eq_iff_nth_eq)

text \<open>
  A header field was received with a value that matches what is required. The first three flags
  stand for the three required fields.
\<close>

definition header_is :: "('w, 'h) session \<Rightarrow> string \<Rightarrow> string \<Rightarrow> bool" where
  "header_is s name v \<longleftrightarrow>
     (\<exists>x. map_find CaseInsensitiveCompare name (header_m s) = Some x \<and> map tolower x = map tolower v)"

definition required :: "('w, 'h) env \<Rightarrow> ('w, 'h) session \<Rightarrow> (nat \<times> string \<times> string) list" where
  "required E s =
     [(0, ''Upgrade'', ''websocket''), (1, ''Connection'', ''upgrade''),
      (2, ''Sec-WebSocket-Accept'', c_str (CalculateKeyHash E (c_str (handshakeKeyBase64_m s))))]"

definition flags_inv :: "('w, 'h) env \<Rightarrow> ('w, 'h) session \<Rightarrow> bool" where
  "flags_inv E s \<longleftrightarrow> sorted_keys CaseInsensitiveCompare (header_m s) \<and>
     (\<forall>(n, name, v) \<in> set (required E s). bit (httpHeaderFlags_m s) n \<longrightarrow> header_is s name v)"

lemma flags_invD:
  "flags_inv E s \<Longrightarrow> (n, name, v) \<in> set (required E s) \<Longrightarrow> bit (httpHeaderFlags_m s) n \<Longrightarrow> header_is s name v"
  unfolding flags_inv_def by blast

lemma flag_set: "(f :: u8) AND push_bit n 1 = 0 \<longleftrightarrow> \<not> bit f n"
  by (simp add: and_exp_eq_0_iff_not_bit)

lemma ValidateHttpHeader_0:
  assumes "ValidateHttpHeader (push_bit n 1) name val en ev True s = (0, t)" "n < 8"
  shows "if map tolower name = map tolower en
    then \<not> bit (httpHeaderFlags_m s) n \<and> map tolower val = map tolower ev \<and>
      t = s\<lparr>httpHeaderFlags_m := httpHeaderFlags_m s OR push_bit n 1\<rparr>
    else t = s"
  using assms unfolding ValidateHttpHeader_def CompareStrIgnoreCase_iff flag_set
  by (auto split: if_splits)

text \<open>What an accepted header line does to the flags: at most one is set, and its field matches.\<close>

lemma ValidateHttpHeaders_0:
  assumes "ValidateHttpHeaders E name val s = (0, t)"
  shows "\<exists>f. t = s\<lparr>httpHeaderFlags_m := f\<rparr> \<and>
    (\<forall>(n, en, ev) \<in> set (required E s).
       if map tolower name = map tolower en
       then bit f n \<and> map tolower val = map tolower ev
       else bit f n = bit (httpHeaderFlags_m s) n)"
proof -
  let ?hash = "CalculateKeyHash E (c_str (handshakeKeyBase64_m s))"
  obtain rc1 t1 where 1: "ValidateHttpHeader (push_bit 0 1) name val ''Upgrade'' ''websocket'' True s = (rc1, t1)"
    by force
  obtain rc2 t2 where 2: "ValidateHttpHeader (push_bit 1 1) name val ''Connection'' ''upgrade'' True t1 = (rc2, t2)"
    by force
  obtain rc3 t3 where 3: "ValidateHttpHeader (push_bit 2 1) name val ''Sec-WebSocket-Accept'' (c_str ?hash) True t2 = (rc3, t3)"
    by force
  have rc1: "rc1 = 0" using assms 1 by (simp add: ValidateHttpHeaders_def ws_consts split: if_splits)
  then have rc2: "rc2 = 0" using assms 1 2 by (simp add: ValidateHttpHeaders_def ws_consts split: if_splits)
  note a = ValidateHttpHeader_0 [OF 1 [unfolded rc1], simplified]
    and b = ValidateHttpHeader_0 [OF 2 [unfolded rc2], simplified]
  have k: "handshakeKeyBase64_m t2 = handshakeKeyBase64_m s"
    using a b by (auto split: if_splits)
  have rc3: "rc3 = 0" "t = t3"
    using assms 1 2 3 rc1 rc2 k by (simp_all add: ValidateHttpHeaders_def ws_consts Let_def split: if_splits)
  note c = ValidateHttpHeader_0 [OF 3 [unfolded rc3], simplified]
  have ne: "map tolower ''Upgrade'' \<noteq> map tolower ''Connection''"
      "map tolower ''Upgrade'' \<noteq> map tolower ''Sec-WebSocket-Accept''"
      "map tolower ''Connection'' \<noteq> map tolower ''Sec-WebSocket-Accept''"
    by (simp_all add: tolower_def)
  consider "map tolower name = map tolower ''Upgrade''" | "map tolower name = map tolower ''Connection''"
    | "map tolower name = map tolower ''Sec-WebSocket-Accept''"
    | "map tolower name \<noteq> map tolower ''Upgrade''" "map tolower name \<noteq> map tolower ''Connection''"
      "map tolower name \<noteq> map tolower ''Sec-WebSocket-Accept''" by blast
  then show ?thesis
  proof cases
    case 1
    with a b c ne show ?thesis
      unfolding rc3(2) required_def by (intro exI [of _ "httpHeaderFlags_m t3"]) (simp add: bit_simps)
  next
    case 2
    with a b c ne show ?thesis
      unfolding rc3(2) required_def by (intro exI [of _ "httpHeaderFlags_m t3"]) (simp add: bit_simps)
  next
    case 3
    with a b c ne show ?thesis
      unfolding rc3(2) required_def by (intro exI [of _ "httpHeaderFlags_m t3"]) (simp add: bit_simps)
  next
    case 4
    with a b c show ?thesis
      unfolding rc3(2) required_def by (intro exI [of _ "httpHeaderFlags_m s"]) simp
  qed
qed

lemma header_line_keeps:
  assumes "flags_inv E s" "ParseHttpHeader line v0 s = (rc, key, val, s1)" "ValidateHttpHeaders E key val s1 = (0, t)"
  shows "flags_inv E t"
proof -
  have s1: "s1 = s\<lparr>header_m := insert_or_assign CaseInsensitiveCompare key val (header_m s)\<rparr>"
    using assms(2) by (auto simp: ParseHttpHeader_def split: prod.splits)
  obtain f where t: "t = s1\<lparr>httpHeaderFlags_m := f\<rparr>"
    and f: "\<forall>(n, en, ev) \<in> set (required E s1). if map tolower key = map tolower en
       then bit f n \<and> map tolower val = map tolower ev else bit f n = bit (httpHeaderFlags_m s1) n"
    using ValidateHttpHeaders_0 [OF assms(3)] by blast
  have sorted: "sorted_keys CaseInsensitiveCompare (header_m s)" using assms(1) by (simp add: flags_inv_def)
  have req: "required E s1 = required E s" "required E t = required E s"
    by (simp_all add: required_def t s1)
  have "header_is t en ev" if "(n, en, ev) \<in> set (required E s)" "bit f n" for n en ev
  proof (cases "map tolower key = map tolower en")
    case True
    then have "map tolower val = map tolower ev" using bspec [OF f [unfolded req], OF that(1)] by simp
    with True show ?thesis
      using hdr.find_insert [OF sorted, of en key val] by (simp add: header_is_def t s1 hdr_equivalent)
  next
    case False
    then have "bit (httpHeaderFlags_m s) n"
      using bspec [OF f [unfolded req], OF that(1)] that(2) by (simp add: s1)
    then have "header_is s en ev"
      by (rule flags_invD [OF assms(1) that(1)])
    with False show ?thesis
      using hdr.find_insert [OF sorted, of en key val] by (auto simp: header_is_def t s1 hdr_equivalent)
  qed
  then show ?thesis
    using hdr.sorted_insert [OF sorted, of key val] unfolding flags_inv_def req
    by (auto simp: t s1 recv_inv_def)
qed

text \<open>Reading the reply changes the header map, the flags and the connect state only.\<close>

definition reply_on :: "('w, 'h) session \<Rightarrow> ('w, 'h) session \<Rightarrow> bool" where
  "reply_on s t \<longleftrightarrow> (\<exists>h f c. t = s\<lparr>header_m := h, httpHeaderFlags_m := f, connectState_m := c\<rparr>)"

lemma reply_onI: "reply_on s (s\<lparr>header_m := h, httpHeaderFlags_m := f, connectState_m := c\<rparr>)"
  unfolding reply_on_def by blast

lemma reply_on_refl [simp]: "reply_on s s"
  unfolding reply_on_def
  by (intro exI [of _ "header_m s"] exI [of _ "httpHeaderFlags_m s"] exI [of _ "connectState_m s"]) simp

lemma reply_on_updates [simp]:
  "reply_on s (t\<lparr>header_m := h\<rparr>) = reply_on s t"
  "reply_on s (t\<lparr>httpHeaderFlags_m := f\<rparr>) = reply_on s t"
  "reply_on s (t\<lparr>connectState_m := c\<rparr>) = reply_on s t"
proof -
  have "reply_on s t \<longleftrightarrow> t\<lparr>header_m := [], httpHeaderFlags_m := 0, connectState_m := CONN_NONE\<rparr> =
      s\<lparr>header_m := [], httpHeaderFlags_m := 0, connectState_m := CONN_NONE\<rparr>" for t
  proof
    assume "t\<lparr>header_m := [], httpHeaderFlags_m := 0, connectState_m := CONN_NONE\<rparr> =
      s\<lparr>header_m := [], httpHeaderFlags_m := 0, connectState_m := CONN_NONE\<rparr>"
    then have "t\<lparr>header_m := [], httpHeaderFlags_m := 0, connectState_m := CONN_NONE\<rparr>
        \<lparr>header_m := header_m t, httpHeaderFlags_m := httpHeaderFlags_m t, connectState_m := connectState_m t\<rparr> =
      s\<lparr>header_m := [], httpHeaderFlags_m := 0, connectState_m := CONN_NONE\<rparr>
        \<lparr>header_m := header_m t, httpHeaderFlags_m := httpHeaderFlags_m t, connectState_m := connectState_m t\<rparr>"
      by simp
    then have "t = s\<lparr>header_m := header_m t, httpHeaderFlags_m := httpHeaderFlags_m t, connectState_m := connectState_m t\<rparr>"
      by simp
    then show "reply_on s t" unfolding reply_on_def by blast
  qed (auto simp: reply_on_def)
  note eq = this
  show "reply_on s (t\<lparr>header_m := h\<rparr>) = reply_on s t"
    "reply_on s (t\<lparr>httpHeaderFlags_m := f\<rparr>) = reply_on s t"
    "reply_on s (t\<lparr>connectState_m := c\<rparr>) = reply_on s t"
    unfolding eq by simp_all
qed

lemma reply_on_trans: "reply_on s t \<Longrightarrow> reply_on t u \<Longrightarrow> reply_on s u"
proof -
  assume "reply_on s t" and "reply_on t u"
  from \<open>reply_on t u\<close> obtain h f c where "u = t\<lparr>header_m := h, httpHeaderFlags_m := f, connectState_m := c\<rparr>"
    unfolding reply_on_def by blast
  with \<open>reply_on s t\<close> show ?thesis by simp
qed

lemma reply_on_fields:
  assumes "reply_on s t"
  shows "bev_m t = bev_m s" "hasHeader_m t = hasHeader_m s"
    "handshakeKeyBase64_m t = handshakeKeyBase64_m s" "state_m t = state_m s" "onConnect_m t = onConnect_m s"
    "onMessage_m t = onMessage_m s" "world t = world s" "sentCloseFlag_m t = sentCloseFlag_m s"
  using assms by (auto simp: reply_on_def)

lemma reply_on_recv_inv:
  "reply_on s t \<Longrightarrow> recv_inv l s \<Longrightarrow> state_m s \<noteq> CONNECTED \<or> connectState_m t = HANDSHAKE_COMPLETE \<Longrightarrow> recv_inv (link t) t"
  by (auto simp: reply_on_def recv_inv_def link_def)

lemma ValidateHttpHeader_reply_on [simp]:
  "reply_on u (snd (ValidateHttpHeader fl name val en ev once s)) = reply_on u s"
  "connectState_m (snd (ValidateHttpHeader fl name val en ev once s)) = connectState_m s"
  by (simp_all add: ValidateHttpHeader_def)

lemma ValidateHttpHeaders_reply_on [simp]:
  "reply_on u (snd (ValidateHttpHeaders E name val s)) = reply_on u s"
  "connectState_m (snd (ValidateHttpHeaders E name val s)) = connectState_m s"
  unfolding ValidateHttpHeaders_def
  by (simp_all add: Let_def case_prod_beta)

lemma crlf_split_shorter: "crlf_split b = (Some line, r) \<Longrightarrow> length r < length b"
proof -
  assume a: "crlf_split b = (Some line, r)"
  then have "10 \<in> set b" "r = drop (Suc (length (takeWhile (\<lambda>c. c \<noteq> 10) b))) b"
    by (auto simp: crlf_split_def Let_def split: if_splits)
  then show ?thesis by (cases b) auto
qed

definition headers_post ::
  "('w, 'h) env \<Rightarrow> ('w, 'h) session \<Rightarrow> WSParseState \<times> bytes \<Rightarrow> ('w, 'h) session \<Rightarrow> bool" where
  "headers_post E s res t \<longleftrightarrow> reply_on s t \<and> connectState_m t = connectState_m s \<and>
     (fst res \<noteq> PARSE_ERROR \<longrightarrow> flags_inv E t) \<and> fst res \<noteq> USER_ABORT"

lemma headers_postI:
  "reply_on s t \<Longrightarrow> connectState_m t = connectState_m s \<Longrightarrow> r \<noteq> USER_ABORT \<Longrightarrow> (r \<noteq> PARSE_ERROR \<Longrightarrow> flags_inv E t) \<Longrightarrow>
   headers_post E s (r, rest) t"
  by (simp add: headers_post_def)

lemma headers_post_trans:
  "headers_post E t res u \<Longrightarrow> reply_on s t \<Longrightarrow> connectState_m t = connectState_m s \<Longrightarrow> headers_post E s res u"
  unfolding headers_post_def using reply_on_trans [of s t u] by simp

lemma read_headers_ends:
  assumes "env_laws E"
  shows "length inb < n \<Longrightarrow> flags_inv E s \<Longrightarrow> ends (\<lambda>e. False) (headers_post E s) (read_headers E n inb v s)"
proof (induction n arbitrary: inb v s)
  case (Suc n)
  obtain l r where l: "crlf_split inb = (l, r)" by force
  show ?case
  proof (cases l)
    case None
    then show ?thesis using l headers_postI [of s s _ E] Suc.prems by (simp add: env_lawsD(8) [OF assms])
  next
    case (Some line)
    obtain rc key val s1 where p: "ParseHttpHeader (c_str (of_bytes line)) v s = (rc, key, val, s1)"
      by (rule prod_cases4)
    obtain rc' t where q: "ValidateHttpHeaders E key val s1 = (rc', t)" by force
    have rc: "rc = 0" and s1: "reply_on s s1" "connectState_m s1 = connectState_m s"
      using p by (auto simp: ParseHttpHeader_def split: prod.splits)
    have t: "reply_on s t" "connectState_m t = connectState_m s"
      using ValidateHttpHeaders_reply_on(1) [of s E key val s1] ValidateHttpHeaders_reply_on(2) [of E key val s1]
        q s1 by simp_all
    have len: "length r < n" using crlf_split_shorter l Some Suc.prems(1) by fastforce
    have "ends (\<lambda>e. False) (headers_post E s) (read_headers E n r val t)" if "rc' = 0"
      by (rule ends_post [OF Suc.IH [OF len header_line_keeps [OF Suc.prems(2) p q [unfolded that]]]])
        (rule headers_post_trans [OF _ t])
    then show ?thesis
      using l Some p q rc headers_postI [of s s SUCCESS E] headers_postI [OF t, of PARSE_ERROR E] Suc.prems(2) by (simp add: env_lawsD(8) [OF assms] Let_def)
  qed
qed simp

text \<open>
  The invariant of the connecting phase: once the status line has been read, a set flag means
  that the field it stands for has been received with a matching value.
\<close>

definition handshake_inv :: "('w, 'h) env \<Rightarrow> ('w, 'h) session \<Rightarrow> bool" where
  "handshake_inv E s \<longleftrightarrow> sorted_keys CaseInsensitiveCompare (header_m s) \<and>
     (connectState_m s \<in> {PARSED_STATUS, PARSED_HEADERS} \<longrightarrow> flags_inv E s)"

definition upgraded :: "('w, 'h) env \<Rightarrow> ('w, 'h) session \<Rightarrow> bool" where
  "upgraded E t \<longleftrightarrow> connectState_m t = HANDSHAKE_COMPLETE \<and> header_is t ''Upgrade'' ''websocket'' \<and>
     header_is t ''Connection'' ''upgrade'' \<and>
     header_is t ''Sec-WebSocket-Accept'' (c_str (CalculateKeyHash E (c_str (handshakeKeyBase64_m t))))"

definition reply_post ::
  "('w, 'h) env \<Rightarrow> ('w, 'h) session \<Rightarrow> WSParseState \<times> bytes \<Rightarrow> ('w, 'h) session \<Rightarrow> bool" where
  "reply_post E s res t \<longleftrightarrow> reply_on s t \<and> (fst res \<noteq> PARSE_ERROR \<longrightarrow> handshake_inv E t) \<and>
     fst res \<noteq> USER_ABORT \<and> (fst res = SUCCESS \<longrightarrow> upgraded E t) \<and>
     (fst res = NEED_MORE \<longrightarrow> connectState_m t \<noteq> HANDSHAKE_COMPLETE)"

lemma flags_inv_connectState [simp]: "flags_inv E (s\<lparr>connectState_m := c\<rparr>) = flags_inv E s"
  by (simp add: flags_inv_def required_def header_is_def)

lemma header_is_connectState [simp]: "header_is (s\<lparr>connectState_m := c\<rparr>) name v = header_is s name v"
  by (simp add: header_is_def)

lemma check_headers_post:
  assumes "flags_inv E s" "check_headers s = (r, t)"
  shows "reply_post E s (r, inb) t"
proof (cases "r = SUCCESS")
  case True
  then have f: "bit (httpHeaderFlags_m s) 0" "bit (httpHeaderFlags_m s) 1" "bit (httpHeaderFlags_m s) 2"
      and t: "t = s\<lparr>connectState_m := HANDSHAKE_COMPLETE\<rparr>"
    using assms(2) unfolding check_headers_def ws_consts flag_set by (auto simp: Let_def split: if_splits)
  have "sorted_keys CaseInsensitiveCompare (header_m s)" using assms(1) by (simp add: flags_inv_def)
  then show ?thesis
    using f flags_invD [OF assms(1)] by (simp add: reply_post_def True t upgraded_def handshake_inv_def required_def)
next
  case False
  then have "r = PARSE_ERROR" "t = s"
    using assms(2) by (auto simp: check_headers_def Let_def split: if_splits)
  then show ?thesis by (simp add: reply_post_def)
qed

lemma reply_post_trans: "reply_on s t \<Longrightarrow> reply_post E t res u \<Longrightarrow> reply_post E s res u"
  unfolding reply_post_def using reply_on_trans [of s t u] by simp

lemma reply_headers_ends:
  assumes "env_laws E" "flags_inv E s" "connectState_m s = PARSED_STATUS"
  shows "ends (\<lambda>e. False) (reply_post E s) (reply_headers E inb s)"
proof -
  have "ends (\<lambda>e. False) (headers_post E s) (ReadHttpHeaders E inb s)"
    unfolding ReadHttpHeaders_def by (rule read_headers_ends [OF assms(1) _ assms(2)]) simp
  then obtain r rest t where R: "ReadHttpHeaders E inb s = Ret (r, rest) t" and p: "headers_post E s (r, rest) t"
    by (cases "ReadHttpHeaders E inb s") auto
  have t: "reply_on s t" "connectState_m t = PARSED_STATUS" "r \<noteq> PARSE_ERROR \<Longrightarrow> flags_inv E t" "r \<noteq> USER_ABORT"
    using p assms(3) by (simp_all add: headers_post_def)
  show ?thesis
  proof (cases "r = SUCCESS")
    case True
    obtain r' u where c: "check_headers (t\<lparr>connectState_m := PARSED_HEADERS\<rparr>) = (r', u)" by force
    have "reply_post E (t\<lparr>connectState_m := PARSED_HEADERS\<rparr>) (r', rest) u"
      by (rule check_headers_post [OF _ c]) (simp add: t(3) True)
    then have "reply_post E s (r', rest) u"
      by (rule reply_post_trans [rotated]) (simp add: t(1))
    then show ?thesis using R c True by (simp add: reply_headers_def)
  next
    case False
    have "reply_post E s (r, rest) t"
      using t False by (auto simp: reply_post_def handshake_inv_def flags_inv_def)
    then show ?thesis using R False by (simp add: reply_headers_def)
  qed
qed

lemma ParseHttpStatus_fault: "ends (\<lambda>e. e = UndefinedValue) (\<lambda>_ _. True) (ParseHttpStatus line)"
proof -
  have i: "ends (\<lambda>e. e = UndefinedValue) (\<lambda>a b. P a b) (scan_int s)" if "\<And>a b. P a b" for P s
    using that by (simp add: scan_int_def Let_def)
  show ?thesis
    unfolding ParseHttpStatus_def
    by (auto simp: ends_andThen intro!: i split: option.splits)
qed

lemma ReadServerHandshakeReply_ends:
  assumes "env_laws E" "handshake_inv E s"
  shows "ends (\<lambda>e. e = UndefinedValue) (reply_post E s) (ReadServerHandshakeReply E inb s)"
proof (cases "connectState_m s")
  case SENT_REQ
  let ?s = "s\<lparr>httpHeaderFlags_m := 0, connectState_m := PARSED_STATUS\<rparr>"
  have "flags_inv E ?s" using assms(2) by (auto simp: flags_inv_def handshake_inv_def)
  then have h: "ends (\<lambda>e. e = UndefinedValue) (reply_post E s) (reply_headers E r ?s)" for r
    using ends_mono [OF reply_headers_ends [OF assms(1), of ?s r]] reply_post_trans [of s ?s E] by simp
  have e: "reply_post E s (PARSE_ERROR, r) (s\<lparr>httpHeaderFlags_m := 0\<rparr>)"
      "reply_post E s (NEED_MORE, r) (s\<lparr>httpHeaderFlags_m := 0\<rparr>)" for r
    using assms(2) SENT_REQ by (simp_all add: reply_post_def handshake_inv_def)
  show ?thesis
  proof (cases "crlf_split inb")
    case (Pair l r)
    then show ?thesis
      using SENT_REQ e h ParseHttpStatus_fault [of "c_str (of_bytes (the l))"]
      by (cases l; cases "ParseHttpStatus (c_str (of_bytes (the l)))")
        (auto simp: ReadServerHandshakeReply_def ReadHttpStatus_def Let_def env_lawsD(8) [OF assms(1)])
  qed
next
  case PARSED_STATUS
  then show ?thesis
    using ends_mono [OF reply_headers_ends [OF assms(1), of s inb]] assms(2)
    by (simp add: ReadServerHandshakeReply_def handshake_inv_def)
next
  case PARSED_HEADERS
  then show ?thesis
    using check_headers_post [of E s _ _ inb] assms(2)
    by (cases "check_headers s") (simp add: ReadServerHandshakeReply_def handshake_inv_def)
qed (simp_all add: ReadServerHandshakeReply_def reply_post_def)

text \<open>
  C15. The handshake is only completed by a reply that the protocol accepts. However the reply is
  cut into reads, the invariant of the connecting phase is kept until an error is reported; and
  when \<open>ReadServerHandshakeReply\<close> reports success the server has sent \<open>Upgrade: websocket\<close>,
  \<open>Connection: Upgrade\<close> and the \<open>Sec-WebSocket-Accept\<close> value computed from the key of this
  connection, up to case. Reading a reply never runs past its loop bound; the only undefined
  behaviour is a number of the status line that does not fit an \<open>int\<close>.
\<close>
theorem handshake_sound:
  assumes "env_laws E" "handshake_inv E s"
  shows "ends (\<lambda>e. e = UndefinedValue)
    (\<lambda>(r, rest) t. (r \<noteq> PARSE_ERROR \<longrightarrow> handshake_inv E t) \<and>
       (r = SUCCESS \<longrightarrow> connectState_m t = HANDSHAKE_COMPLETE \<and> header_is t ''Upgrade'' ''websocket'' \<and>
          header_is t ''Connection'' ''upgrade'' \<and>
          header_is t ''Sec-WebSocket-Accept'' (c_str (CalculateKeyHash E (c_str (handshakeKeyBase64_m t))))))
    (ReadServerHandshakeReply E inb s)"
  by (rule ends_post [OF ReadServerHandshakeReply_ends [OF assms]]) (auto simp: reply_post_def upgraded_def)

theorem handshake_sound_witness:
  "ends (\<lambda>e. e = UndefinedValue)
    (\<lambda>(r, rest) t. (r \<noteq> PARSE_ERROR \<longrightarrow> handshake_inv sample_env t) \<and>
       (r = SUCCESS \<longrightarrow> connectState_m t = HANDSHAKE_COMPLETE \<and> header_is t ''Upgrade'' ''websocket'' \<and>
          header_is t ''Connection'' ''upgrade'' \<and>
          header_is t ''Sec-WebSocket-Accept'' (c_str (CalculateKeyHash sample_env (c_str (handshakeKeyBase64_m t))))))
    (ReadServerHandshakeReply sample_env (to_bytes (''HTTP/1.1 101 OK'' @ crlf)) ((new_session [])\<lparr>connectState_m := SENT_REQ\<rparr>))"
  by (rule handshake_sound) (simp_all add: handshake_inv_def new_session_def)

section \<open>A conforming reply is accepted\<close>

lemma b64_digit_printable: "n < 64 \<Longrightarrow> b64_digit n \<in> set base64_chars"
  unfolding b64_digit_def by (rule nth_mem) (simp add: base64_chars_def)

lemma base64_ref_printable: "set (base64_ref bs) \<subseteq> insert CHR ''='' (set base64_chars)"
proof (induction bs rule: base64_ref.induct)
  case (1 a b c bs)
  have "(unat a * 65536 + unat b * 256 + unat c) div 262144 < 64"
    using unat_byte_lt [of a] unat_byte_lt [of b] unat_byte_lt [of c] by (intro less_mult_imp_div_less) linarith
  with 1 show ?case by (simp add: base64_ref.simps Let_def b64_digit_printable)
next
  case (2 a b)
  have "(unat a * 65536 + unat b * 256) div 262144 < 64"
    using unat_byte_lt [of a] unat_byte_lt [of b] by (intro less_mult_imp_div_less) linarith
  then show ?case by (simp add: base64_ref.simps Let_def b64_digit_printable)
next
  case (3 a)
  have "unat a * 65536 div 262144 < 64"
    using unat_byte_lt [of a] by (intro less_mult_imp_div_less) linarith
  then show ?case by (simp add: base64_ref.simps Let_def b64_digit_printable)
qed (simp add: base64_ref.simps)

lemma base64_plain: "c \<in> insert CHR ''='' (set base64_chars) \<Longrightarrow> \<not> isspace c \<and> c \<noteq> CHR 0x00 \<and> byte_of_char c \<noteq> 10"
  by (auto simp: base64_chars_def isspace_def byte_of_char_def)

definition plain :: "string \<Rightarrow> bool" where
  "plain l \<longleftrightarrow> list_all (\<lambda>c. c \<noteq> CHR 0x00 \<and> byte_of_char c \<noteq> 10) l"

lemma plain_append [simp]: "plain (a @ b) \<longleftrightarrow> plain a \<and> plain b"
  by (simp add: plain_def)

lemma plain_base64: "plain (EncodeBase64 bs)"
  using base64_ref_printable [of bs] base64_plain by (auto simp: plain_def list_all_iff EncodeBase64_eq_ref)

lemma c_str_plain: "plain l \<Longrightarrow> c_str l = l"
  unfolding c_str_def plain_def by (simp add: list_all_iff)

lemma crlf_split_plain: "plain l \<Longrightarrow> crlf_split (to_bytes (l @ crlf) @ r) = (Some (to_bytes l), r)"
proof -
  assume "plain l"
  then have "takeWhile (\<lambda>c. c \<noteq> 10) (to_bytes l @ 13 # 10 # r) = to_bytes l @ [13]"
    by (subst takeWhile_append2) (auto simp: plain_def list_all_iff to_bytes_def)
  then show ?thesis by (simp add: crlf_split_def crlf_def to_bytes_def byte_of_char_def)
qed

lemma parse_header_line_field:
  assumes "CHR '':'' \<notin> set key" "val \<noteq> []" "list_all (\<lambda>c. \<not> isspace c) val"
  shows "parse_header_line (key @ '': '' @ val) v = (key, val)"
proof -
  have k: "takeWhile (\<lambda>c. c \<noteq> CHR '':'') (key @ '': '' @ val) = key"
    using assms(1) by (subst takeWhile_append2) auto
  have "takeWhile (\<lambda>c. \<not> isspace c) val = val" using assms(3) by (simp add: list_all_iff)
  moreover have "dropWhile isspace ('' '' @ val) = val"
    using assms(2,3) by (cases val) (simp_all)
  ultimately show ?thesis using assms(2) k by (simp add: parse_header_line_def)
qed

lemma read_headers_field:
  assumes "env_laws E" "plain key" "plain val" "CHR '':'' \<notin> set key" "val \<noteq> []" "list_all (\<lambda>c. \<not> isspace c) val"
    and "ValidateHttpHeaders E key val (s\<lparr>header_m := insert_or_assign CaseInsensitiveCompare key val (header_m s)\<rparr>) = (0, t)"
  shows "read_headers E (Suc n) (to_bytes (key @ '': '' @ val @ crlf) @ r) v s = read_headers E n r val t"
proof -
  have p: "plain (key @ '': '' @ val)" using assms(2,3) by (simp add: plain_def byte_of_char_def)
  from crlf_split_plain [OF p, of r]
  have "crlf_split (to_bytes (key @ '': '' @ val @ crlf) @ r) = (Some (to_bytes (key @ '': '' @ val)), r)"
    by simp
  then show ?thesis
    using parse_header_line_field [OF assms(4-6), of v] assms(7) c_str_plain [OF p]
    by (simp add: env_lawsD(8) [OF assms(1)] ParseHttpHeader_def del: to_bytes_append)
qed

lemma read_headers_end:
  "env_laws E \<Longrightarrow> read_headers E (Suc n) (to_bytes crlf @ r) v s = Ret (SUCCESS, r) s"
  using crlf_split_plain [of "[]" r] by (simp add: env_lawsD(8) plain_def c_str_def)

definition accept_value :: "('w, 'h) env \<Rightarrow> ('w, 'h) session \<Rightarrow> string" where
  "accept_value E s = CalculateKeyHash E (c_str (handshakeKeyBase64_m s))"

text \<open>The reply of a conforming server to the request of session \<open>s\<close>.\<close>

definition conforming_reply :: "('w, 'h) env \<Rightarrow> ('w, 'h) session \<Rightarrow> string \<Rightarrow> bytes" where
  "conforming_reply E s phrase =
     to_bytes ((''HTTP/1.1 101'' @ phrase) @ crlf) @ to_bytes (''Upgrade'' @ '': '' @ ''websocket'' @ crlf) @
     to_bytes (''Connection'' @ '': '' @ ''Upgrade'' @ crlf) @
     to_bytes (''Sec-WebSocket-Accept'' @ '': '' @ accept_value E s @ crlf) @ to_bytes crlf"

lemma accept_value_plain:
  assumes "env_laws E"
  shows "plain (accept_value E s)" "accept_value E s \<noteq> []" "list_all (\<lambda>c. \<not> isspace c) (accept_value E s)"
proof -
  have l: "length (SHA1 E d) = 20" for d by (rule env_lawsD(9) [OF assms])
  show "accept_value E s \<noteq> []"
    using length_EncodeBase64 [of "SHA1 E (to_bytes (c_str (handshakeKeyBase64_m s) @ ''258EAFA5-E914-47DA-95CA-C5AB0DC85B11''))"]
    unfolding l by (auto simp: accept_value_def CalculateKeyHash_def)
  show "plain (accept_value E s)"
    by (simp add: accept_value_def CalculateKeyHash_def plain_base64)
  show "list_all (\<lambda>c. \<not> isspace c) (accept_value E s)"
    using base64_ref_printable base64_plain
    by (auto simp: accept_value_def CalculateKeyHash_def list_all_iff EncodeBase64_eq_ref)
qed

lemma ParseHttpStatus_101:
  assumes "phrase = [] \<or> \<not> isdigit (hd phrase)"
  shows "ParseHttpStatus (''HTTP/1.1 101'' @ phrase) = Ret (0, 1, 1, 101) ()"
proof -
  have d: "digits_value ''1'' = 1" "digits_value ''101'' = 101"
    by (simp_all add: digits_value_def digit_value_def)
  have t: "takeWhile isdigit (''101'' @ phrase) = ''101''"
    by (rule takeWhile_digits) (use assms in \<open>simp_all add: isdigit_def\<close>)
  have "scan_int (''101'' @ phrase) = Ret (Some 101) phrase"
    using t d by (simp add: scan_int_def isspace_def Let_def)
  moreover have "scan_int (''1.'' @ r) = Ret (Some 1) (''.'' @ r)" "scan_int (''1 '' @ r) = Ret (Some 1) ('' '' @ r)" for r
    using d by (simp_all add: scan_int_def isspace_def isdigit_def Let_def)
  ultimately show ?thesis by (simp add: ParseHttpStatus_def isspace_def)
qed

definition accepted_headers :: "('w, 'h) env \<Rightarrow> ('w, 'h) session \<Rightarrow> (string \<times> string) list" where
  "accepted_headers E s =
     insert_or_assign CaseInsensitiveCompare ''Sec-WebSocket-Accept'' (accept_value E s)
       (insert_or_assign CaseInsensitiveCompare ''Connection'' ''Upgrade''
         (insert_or_assign CaseInsensitiveCompare ''Upgrade'' ''websocket'' (header_m s)))"

lemma reply_headers_conforming:
  assumes E: "env_laws E" and "httpHeaderFlags_m s = 0"
  shows "reply_headers E (to_bytes (''Upgrade'' @ '': '' @ ''websocket'' @ crlf) @
      to_bytes (''Connection'' @ '': '' @ ''Upgrade'' @ crlf) @
      to_bytes (''Sec-WebSocket-Accept'' @ '': '' @ accept_value E s @ crlf) @ to_bytes crlf @ rest) s =
    Ret (SUCCESS, rest) (s\<lparr>header_m := accepted_headers E s, httpHeaderFlags_m := 7, connectState_m := HANDSHAKE_COMPLETE\<rparr>)"
    (is "reply_headers E ?inb s = _")
proof -
  have u: "char_of (117 :: nat) = CHR ''u''" by code_simp
  note v = ValidateHttpHeaders_def ValidateHttpHeader_def CompareStrIgnoreCase_iff ws_consts tolower_def u
  have h: "CalculateKeyHash E (c_str (handshakeKeyBase64_m s)) \<noteq> []"
      "c_str (CalculateKeyHash E (c_str (handshakeKeyBase64_m s))) = accept_value E s"
    using accept_value_plain(1,2) [OF E, of s] c_str_plain by (auto simp: accept_value_def)
  let ?s1 = "s\<lparr>header_m := insert_or_assign CaseInsensitiveCompare ''Upgrade'' ''websocket'' (header_m s), httpHeaderFlags_m := 1\<rparr>"
  let ?s2 = "?s1\<lparr>header_m := insert_or_assign CaseInsensitiveCompare ''Connection'' ''Upgrade'' (header_m ?s1), httpHeaderFlags_m := 3\<rparr>"
  let ?s3 = "?s2\<lparr>header_m := insert_or_assign CaseInsensitiveCompare ''Sec-WebSocket-Accept'' (accept_value E s) (header_m ?s2), httpHeaderFlags_m := 7\<rparr>"
  have 1: "ValidateHttpHeaders E ''Upgrade'' ''websocket'' (s\<lparr>header_m := insert_or_assign CaseInsensitiveCompare ''Upgrade'' ''websocket'' (header_m s)\<rparr>) = (0, ?s1)"
    using h(1) assms(2) by (simp add: v)
  have 2: "ValidateHttpHeaders E ''Connection'' ''Upgrade'' (?s1\<lparr>header_m := insert_or_assign CaseInsensitiveCompare ''Connection'' ''Upgrade'' (header_m ?s1)\<rparr>) = (0, ?s2)"
    using h(1) by (simp add: v)
  have 3: "ValidateHttpHeaders E ''Sec-WebSocket-Accept'' (accept_value E s) (?s2\<lparr>header_m := insert_or_assign CaseInsensitiveCompare ''Sec-WebSocket-Accept'' (accept_value E s) (header_m ?s2)\<rparr>) = (0, ?s3)"
    using h by (simp add: v)
  obtain m where m: "length ?inb = Suc (Suc (Suc m))"
    by (auto simp: to_bytes_def)
  have p: "plain ''Upgrade''" "plain ''websocket''" "plain ''Connection''" "plain ''Sec-WebSocket-Accept''"
    by (simp_all add: plain_def byte_of_char_def)
  have "read_headers E (Suc (length ?inb)) ?inb [] s = Ret (SUCCESS, rest) ?s3"
    unfolding m
    apply (subst read_headers_field [OF E p(1,2) _ _ _ 1], simp, simp, simp add: isspace_def)
    apply (subst read_headers_field [OF E p(3,1) _ _ _ 2], simp, simp, simp add: isspace_def)
    apply (subst read_headers_field [OF E p(4) accept_value_plain(1) [OF E] _ accept_value_plain(2,3) [OF E] 3], simp)
    apply (rule read_headers_end [OF E])
    done
  then show ?thesis
    by (simp add: reply_headers_def ReadHttpHeaders_def check_headers_def ws_consts accepted_headers_def)
qed

lemma conforming_reply_accepted:
  assumes "env_laws E" "connectState_m s = SENT_REQ" "plain phrase" "phrase = [] \<or> \<not> isdigit (hd phrase)"
  shows "ReadServerHandshakeReply E (conforming_reply E s phrase @ rest) s =
    Ret (SUCCESS, rest) (s\<lparr>header_m := accepted_headers E s, httpHeaderFlags_m := 7, connectState_m := HANDSHAKE_COMPLETE\<rparr>)"
proof -
  have p: "plain (''HTTP/1.1 101'' @ phrase)" using assms(3) by (simp add: plain_def byte_of_char_def)
  let ?s = "s\<lparr>httpHeaderFlags_m := 0, connectState_m := PARSED_STATUS\<rparr>"
  have "accept_value E ?s = accept_value E s" "accepted_headers E ?s = accepted_headers E s"
    by (simp_all add: accept_value_def accepted_headers_def)
  then show ?thesis
    using crlf_split_plain [OF p] reply_headers_conforming [OF assms(1), of ?s rest] c_str_plain [OF p]
      ParseHttpStatus_101 [OF assms(4)]
    by (simp add: ReadServerHandshakeReply_def ReadHttpStatus_def conforming_reply_def assms(2)
        env_lawsD(8) [OF assms(1)] HTTP_STATUS_SWITCHING_PROTOCOLS_101_def del: to_bytes_append)
qed

text \<open>
  A conforming server is accepted: a reply with status 101, the two upgrade fields and the
  accept value computed from the key that was sent completes the handshake in one read, whatever
  the reason phrase, and the bytes after the blank line are left for the frame reader.
\<close>
theorem handshake_accepts_conforming_reply:
  assumes "env_laws E" "connectState_m s = SENT_REQ" "plain phrase" "phrase = [] \<or> \<not> isdigit (hd phrase)"
  shows "ReadServerHandshakeReply E (conforming_reply E s phrase @ rest) s =
    Ret (SUCCESS, rest) (s\<lparr>header_m := accepted_headers E s, httpHeaderFlags_m := 7, connectState_m := HANDSHAKE_COMPLETE\<rparr>)"
  using assms by (rule conforming_reply_accepted)

theorem handshake_accepts_conforming_reply_witness:
  "ReadServerHandshakeReply sample_env
     (conforming_reply sample_env ((new_session [])\<lparr>connectState_m := SENT_REQ\<rparr>) '' Switching Protocols'' @ [0x81, 0])
     ((new_session [])\<lparr>connectState_m := SENT_REQ\<rparr>) =
   Ret (SUCCESS, [0x81, 0]) ((new_session [])\<lparr>connectState_m := SENT_REQ,
     header_m := accepted_headers sample_env ((new_session [])\<lparr>connectState_m := SENT_REQ\<rparr>),
     httpHeaderFlags_m := 7, connectState_m := HANDSHAKE_COMPLETE\<rparr>)"
  using handshake_accepts_conforming_reply [of sample_env "(new_session [])\<lparr>connectState_m := SENT_REQ\<rparr>"
      "'' Switching Protocols''" "[0x81, 0]"]
  by (simp add: plain_def byte_of_char_def new_session_def)

section \<open>The request on the wire\<close>

lemma evbuffer_add_printf_ok:
  assumes "env_laws E" "env_no_failure E"
  obtains rc w' where "evbuffer_add_printf E b d w = (rc, b @ d, w')"
proof -
  obtain rc b' w' where p: "evbuffer_add_printf E b d w = (rc, b', w')" by (rule prod_cases3)
  have "rc \<noteq> -1" using env_no_failureD(4) [OF assms(2), of b d w] p by simp
  then have "b' = b @ d" using env_lawsD(3) [OF assms(1) p] by simp
  with p that show ?thesis by simp
qed

lemma add_printfs_ok:
  assumes "env_laws E" "env_no_failure E"
  shows "\<exists>w'. add_printfs E ts out w = (out @ to_bytes (concat ts), w')"
proof (induction ts arbitrary: out w)
  case (Cons t ts)
  obtain rc w' where "evbuffer_add_printf E out (to_bytes t) w = (rc, out @ to_bytes t, w')"
    using evbuffer_add_printf_ok [OF assms] .
  then show ?case using Cons.IH [of "out @ to_bytes t" w'] by simp
qed (simp add: to_bytes_def)

lemma SendHandshake_ok:
  assumes "env_laws E" "env_no_failure E" "numSubprotocols_m s = 0"
  shows "\<exists>randKey w t. length randKey = 16 \<and> DecodeBase64 (handshakeKeyBase64_m t) = Some randKey \<and>
    length (handshakeKeyBase64_m t) = 24 \<and> connectState_m t = SENT_REQ \<and>
    t = s\<lparr>handshakeKeyBase64_m := EncodeBase64 randKey, world := w, connectState_m := SENT_REQ\<rparr> \<and>
    SendHandshake E out s = Ret (0, out @ to_bytes (concat (handshake_lines t))) t"
proof -
  obtain randKey n w where g: "GetRandomMask (rand_s E) 16 (world s) = (randKey, n, w)" by (rule prod_cases3)
  have len: "length randKey = 16" using GetRandomMask_count [OF g] by simp
  then have l24: "length (EncodeBase64 randKey) = 24" by (simp add: length_EncodeBase64)
  then have ne: "EncodeBase64 randKey \<noteq> []" by auto
  have dec: "DecodeBase64 (EncodeBase64 randKey) = Some randKey"
    unfolding EncodeBase64_eq_ref by (rule DecodeBase64_ref) (use len in auto)
  let ?s = "s\<lparr>world := w, handshakeKeyBase64_m := EncodeBase64 randKey\<rparr>"
  obtain w' where p: "add_printfs E (handshake_lines ?s) out w = (out @ to_bytes (concat (handshake_lines ?s)), w')"
    using add_printfs_ok [OF assms(1,2)] by metis
  let ?t = "s\<lparr>handshakeKeyBase64_m := EncodeBase64 randKey, world := w', connectState_m := SENT_REQ\<rparr>"
  have "handshake_lines ?t = handshake_lines ?s" by (simp add: handshake_lines_def)
  then have "SendHandshake E out s = Ret (0, out @ to_bytes (concat (handshake_lines ?t))) ?t"
    using g ne p assms(3) by (simp add: SendHandshake_def GenerateHandshakeKey_def)
  then show ?thesis using len dec l24 by (intro exI [of _ randKey] exI [of _ w'] exI [of _ ?t]) simp
qed



end
