(* ===== verification/Ws_Events.thy ===== *)
theory Ws_Events
  imports Ws_Handshake
begin

text \<open>
  The life of a \<open>SessionImplEV\<close>: initialisation, connecting, and the callbacks that libevent's loop
  runs. An event of the loop is a value; a run of \<open>event_base_dispatch\<close> is the sequence of the
  callbacks of the events that occur. The last sections state what every such run keeps, what it
  takes to get connected, and what remains after the end of a connection.
\<close>

section \<open>Set-up\<close>

definition SetConnectHandler :: "'h option \<Rightarrow> ('w, 'h) session \<Rightarrow> ('w, 'h) session" where
  "SetConnectHandler connect_handler s = s\<lparr>onConnect_m := connect_handler\<rparr>"

definition SetMessageHandler :: "'h MessageHandler \<Rightarrow> ('w, 'h) session \<Rightarrow> ('w, 'h) session" where
  "SetMessageHandler message_handler s = s\<lparr>onMessage_m := message_handler\<rparr>"

definition DoInit :: "('w, 'h) env \<Rightarrow> ('w, 'h) session \<Rightarrow> int \<times> ('w, 'h) session" where
  "DoInit E s =
     (let (err, w) = WSAStartup E (world s); s = s\<lparr>world := w\<rparr> in
      if err \<noteq> 0 then (-1, s)
      else
        (let s = s\<lparr>state_m := CLOSED_CLEANLY\<rparr>;
             (ok, w) = event_base_new E (world s);
             s = s\<lparr>evBase_m := ok, world := w\<rparr>
         in if \<not> evBase_m s then (-1, s)
            else
              (let (ok, w) = evdns_base_new E (world s);
                   s = s\<lparr>dnsBase_m := ok, world := w\<rparr>
               in if \<not> dnsBase_m s then (-1, s) else (0, s))))"

text \<open>\<open>snprintf\<close> writes at most \<open>bufsize - 1\<close> characters and the string is read back up to the first NUL.\<close>

definition GetUri :: "nat \<Rightarrow> ('w, 'h) session \<Rightarrow> string" where
  "GetUri bufsize s =
     take (bufsize - 1) ((if \<not> useSsl_m s then ''wss'' else ''ws'') @ ''://'' @ c_str (host_m s) @ '':'' @
       dec_int (port_m s) @ ''/'' @ c_str (uri_m s))"

definition SetupTimeoutEvent :: "('w, 'h) env \<Rightarrow> int \<Rightarrow> ('w, 'h) session \<Rightarrow> int \<times> ('w, 'h) session" where
  "SetupTimeoutEvent E tv s =
     (let s = (if connectTimeoutEvent_m s then s\<lparr>connectTimeoutEvent_m := False\<rparr> else s);
          (ok, w) = evtimer_new E (world s);
          s = s\<lparr>connectTimeoutEvent_m := ok, world := w\<rparr>
      in if \<not> ok then (-1, s)
         else
           (let (rc, w) = evtimer_add E tv (world s); s = s\<lparr>world := w\<rparr>
            in if rc \<noteq> 0 then (-1, s\<lparr>connectTimeoutEvent_m := False\<rparr>) else (0, s)))"

definition SetupConnectionTimeout :: "('w, 'h) env \<Rightarrow> ('w, 'h) session \<Rightarrow> int \<times> ('w, 'h) session" where
  "SetupConnectionTimeout E s =
     (let tv = (if connectTimeout_m s > 0 then connectTimeout_m s else WS_DEFAULT_CONNECT_TIMEOUT)
      in SetupTimeoutEvent E tv s)"

section \<open>Callbacks\<close>

definition QuitDelay :: "('w, 'h) env \<Rightarrow> bool \<Rightarrow> ('w, 'h) session \<Rightarrow> int \<times> ('w, 'h) session" where
  "QuitDelay E let_running_events_complete s =
     (let (ret, w) = (if let_running_events_complete then event_base_loopexit E (world s)
                      else event_base_loopbreak E (world s))
      in (ret, s\<lparr>world := w\<rparr>))"

definition Quit :: "('w, 'h) env \<Rightarrow> bool \<Rightarrow> ('w, 'h) session \<Rightarrow> int \<times> ('w, 'h) session" where
  "Quit E let_running_events_complete s = QuitDelay E let_running_events_complete s"

definition OnCloseTimeout :: "('w, 'h) session \<Rightarrow> (unit, ('w, 'h) session) outcome" where
  "OnCloseTimeout s = wtf_check (sentCloseFlag_m s) (Ret () (ShutDown s))"

text \<open>The connection timeout is only logged; the result is the logged text.\<close>

definition OnConnectionTimeout :: "('w, 'h) session \<Rightarrow> (string, ('w, 'h) session) outcome" where
  "OnConnectionTimeout s =
     Ret (''Websocket connection timed out after '' @ dec_int (connectTimeout_m s) @ '' seconds for '' @
       GetUri 256 s) s"

definition read_input :: "('w, 'h) env \<Rightarrow> ('w, 'h) session \<Rightarrow> (unit, ('w, 'h) session) outcome" where
  "read_input E s =
     andThen (ReadWebsocket E (bev_input s) s) (\<lambda>rest s. Ret () (s\<lparr>bev_input := rest\<rparr>))"

definition OnRead :: "('w, 'h) env \<Rightarrow> ('w, 'h) session \<Rightarrow> (unit, ('w, 'h) session) outcome" where
  "OnRead E s =
     wtf_check (bev_m s \<noteq> None)
       (if connectState_m s \<noteq> HANDSHAKE_COMPLETE then
          andThen (ReadServerHandshakeReply E (bev_input s) s) (\<lambda>(state, rest) s.
            let s = s\<lparr>bev_input := rest\<rparr> in
            case state of
              PARSE_ERROR \<Rightarrow> read_input E (ShutDown s)
            | NEED_MORE \<Rightarrow> Ret () s
            | SUCCESS \<Rightarrow>
                (let s = s\<lparr>state_m := CONNECTED\<rparr> in
                 andThen (ConnectHandler_call E (onConnect_m s) s) (\<lambda>_ s. read_input E s))
            | USER_ABORT \<Rightarrow> read_input E s)
        else read_input E s)"

definition OnEofEvent :: "('w, 'h) env \<Rightarrow> ('w, 'h) session \<Rightarrow> (unit, ('w, 'h) session) outcome" where
  "OnEofEvent E s =
     (case bev_m s of
        None \<Rightarrow> Fault NullDeref
      | Some _ \<Rightarrow>
          andThen (if length (bev_input s) > 0 then read_input E s else Ret () s) (\<lambda>_ s.
            let status = serverCloseStatus_m s;
                s = ShutDown s;
                (s, status) = (if \<not> receivedCloseFlag_m s
                               then (s\<lparr>state_m := CLOSED_UNCLEANLY\<rparr>, ABNORMAL_1006) else (s, status))
            in andThen
                 (case onClose_m s of
                    None \<Rightarrow> Ret () s
                  | Some _ \<Rightarrow>
                      call_ptr E (onClose_m s)
                        (Closed status (if serverReason_m s = ReasonNull then None else Some (reason_memory s))
                          (serverReasonLen_m s)) s)
                 (\<lambda>_ s. let (ret, s) = Quit E True s in Ret () s)))"

definition OnConnectEvent :: "('w, 'h) env \<Rightarrow> ('w, 'h) session \<Rightarrow> (unit, ('w, 'h) session) outcome" where
  "OnConnectEvent E s =
     (case bev_m s of
        None \<Rightarrow> Fault NullDeref
      | Some out \<Rightarrow>
          andThen (SendHandshake E out s) (\<lambda>(rc, out) s. Ret () (s\<lparr>bev_m := Some out\<rparr>)))"

text \<open>The event bits of libevent's \<^verbatim>\<open>bufferevent.h\<close>.\<close>

definition BEV_EVENT_EOF :: u16 where "BEV_EVENT_EOF = 0x10"
definition BEV_EVENT_ERROR :: u16 where "BEV_EVENT_ERROR = 0x20"
definition BEV_EVENT_CONNECTED :: u16 where "BEV_EVENT_CONNECTED = 0x80"

definition OnEvent :: "('w, 'h) env \<Rightarrow> u16 \<Rightarrow> ('w, 'h) session \<Rightarrow> (unit, ('w, 'h) session) outcome" where
  "OnEvent E events s =
     (if events AND BEV_EVENT_CONNECTED \<noteq> 0 then OnConnectEvent E s
      else if events AND BEV_EVENT_EOF \<noteq> 0 then OnEofEvent E s
      else if events AND BEV_EVENT_ERROR \<noteq> 0 then Ret () s
      else Ret () s)"

section \<open>The event loop\<close>

text \<open>
  What the loop can report: bytes have arrived, a bufferevent event, or one of the two timers. A
  callback is run for a live bufferevent or timer only, and the connected event is reported for a
  connection attempt that is under way.
\<close>

datatype loop_event = Readable bytes | BevEvent u16 | CloseTimer | ConnectTimer

definition enabled :: "('w, 'h) session \<Rightarrow> loop_event \<Rightarrow> bool" where
  "enabled s ev =
     (case ev of
        Readable d \<Rightarrow> bev_m s \<noteq> None
      | BevEvent f \<Rightarrow> bev_m s \<noteq> None \<and> (f AND BEV_EVENT_CONNECTED \<noteq> 0 \<longrightarrow> state_m s = CONNECTING)
      | CloseTimer \<Rightarrow> closeTimeoutEvent_m s
      | ConnectTimer \<Rightarrow> connectTimeoutEvent_m s)"

definition callback :: "('w, 'h) env \<Rightarrow> loop_event \<Rightarrow> ('w, 'h) session \<Rightarrow> (unit, ('w, 'h) session) outcome" where
  "callback E ev s =
     (case ev of
        Readable d \<Rightarrow> OnRead E (s\<lparr>bev_input := bev_input s @ d\<rparr>)
      | BevEvent f \<Rightarrow> OnEvent E f s
      | CloseTimer \<Rightarrow> OnCloseTimeout s
      | ConnectTimer \<Rightarrow> andThen (OnConnectionTimeout s) (\<lambda>_ s. Ret () s))"

fun event_base_dispatch ::
  "('w, 'h) env \<Rightarrow> loop_event list \<Rightarrow> ('w, 'h) session \<Rightarrow> (unit, ('w, 'h) session) outcome" where
  "event_base_dispatch E [] s = Ret () s"
| "event_base_dispatch E (ev # evs) s =
     (if enabled s ev then andThen (callback E ev s) (\<lambda>_ s. event_base_dispatch E evs s)
      else event_base_dispatch E evs s)"

text \<open>\<open>evs\<close> are the events of the loop that \<open>DoConnect\<close> runs at its end.\<close>

definition DoConnect ::
  "('w, 'h) env \<Rightarrow> loop_event list \<Rightarrow> ('w, 'h) session \<Rightarrow> (int, ('w, 'h) session) outcome" where
  "DoConnect E evs s =
     (if state_m s \<noteq> CLOSED_CLEANLY \<and> state_m s \<noteq> CLOSED_UNCLEANLY then Ret (-1) s
      else
        (let s = s\<lparr>uri_m := ''/ajaxchattest'', host_m := ''123.207.136.134'', port_m := 9091\<rparr>;
             s = s\<lparr>receivedCloseFlag_m := False, sentCloseFlag_m := False, inMsgFlag_m := False\<rparr>;
             s = s\<lparr>origin_m := ''http://'' @ host_m s @ '':'' @ dec_int (port_m s)\<rparr>;
             (ok, w) = bufferevent_socket_new E (world s);
             s = s\<lparr>bev_m := (if ok then Some [] else None), bev_input := [], world := w\<rparr>
         in if \<not> ok then Fault NullDeref
            else
              (let (rc, w) = bufferevent_socket_connect_hostname E (host_m s) (port_m s) (world s);
                   s = s\<lparr>world := w\<rparr>;
                   s = s\<lparr>state_m := CONNECTING\<rparr>;
                   (rc, s) = SetupConnectionTimeout E s
               in if rc \<noteq> 0 then Ret (-1) s
                  else andThen (event_base_dispatch E evs s) (\<lambda>_ s. Ret 0 s))))"

section \<open>The invariant of the event loop\<close>

text \<open>
  The receiving side's invariant, that of the connecting phase, and that a session whose
  handshake is complete has received a reply that the protocol accepts.
\<close>

definition link_ok :: "('w, 'h) env \<Rightarrow> ('w, 'h) session \<Rightarrow> bool" where
  "link_ok E s \<longleftrightarrow> handshake_inv E s \<and> (connectState_m s = HANDSHAKE_COMPLETE \<longrightarrow> upgraded E s)"

definition ws_inv :: "('w, 'h) env \<Rightarrow> ('w, 'h) session \<Rightarrow> bool" where
  "ws_inv E s \<longleftrightarrow> recv_inv (link s) s \<and> link_ok E s"

lemma link_ok_cong: "link t = link s \<Longrightarrow> link_ok E t = link_ok E s"
  by (simp add: link_ok_def handshake_inv_def flags_inv_def required_def header_is_def upgraded_def link_def)

lemma recv_inv_link: "recv_inv l s \<Longrightarrow> link s = l"
  by (simp add: recv_inv_def)

lemma ws_inv_recv: "ws_inv E s \<Longrightarrow> recv_inv (link s) t \<Longrightarrow> ws_inv E t"
  using link_ok_cong [of t s E] recv_inv_link [of "link s" t] by (simp add: ws_inv_def)

lemma link_updates [simp]:
  "link (s\<lparr>bev_input := i\<rparr>) = link s" "link (s\<lparr>bev_m := b\<rparr>) = link s" "link (s\<lparr>state_m := st\<rparr>) = link s"
  "link (s\<lparr>world := w\<rparr>) = link s" "link (s\<lparr>connectTimeoutEvent_m := c\<rparr>) = link s" "link (ShutDown s) = link s"
  by (auto simp: link_def ShutDown_def Let_def split: option.splits)

lemma recv_inv_ShutDown [simp]: "recv_inv l (ShutDown s) = recv_inv l s"
  by (auto simp: ShutDown_def Let_def split: option.splits)

lemma ws_inv_cong: "link t = link s \<Longrightarrow> recv_inv (link s) t = recv_inv (link s) s \<Longrightarrow> ws_inv E t = ws_inv E s"
  using link_ok_cong [of t s E] by (simp add: ws_inv_def)

lemma ws_inv_updates [simp]:
  "ws_inv E (s\<lparr>bev_input := i\<rparr>) = ws_inv E s" "ws_inv E (s\<lparr>bev_m := b\<rparr>) = ws_inv E s"
  "ws_inv E (s\<lparr>world := w\<rparr>) = ws_inv E s" "ws_inv E (ShutDown s) = ws_inv E s"
  by (rule ws_inv_cong, simp, simp)+

lemma read_input_ends:
  assumes "env_laws E" "user_ok E" "ws_inv E s"
  shows "ends (\<lambda>e. e \<noteq> OutOfFuel) (\<lambda>_. ws_inv E) (read_input E s)"
proof -
  have "recv_inv (link s) s" using assms(3) by (simp add: ws_inv_def)
  then have "ends (\<lambda>e. e \<noteq> OutOfFuel) (\<lambda>_. ws_inv E) (ReadWebsocket E (bev_input s) s)"
    by (rule ends_post [OF ReadWebsocket_ends [OF assms(1,2)] ws_inv_recv [OF assms(3)]])
  then show ?thesis by (simp add: read_input_def ends_andThen)
qed

lemma ConnectHandler_call_ends:
  assumes "user_ok E" "ws_inv E s"
  shows "ends (\<lambda>e. e \<noteq> OutOfFuel) (\<lambda>_. ws_inv E) (ConnectHandler_call E h s)"
proof (cases h)
  case (Some f)
  have "recv_inv (link s) s" using assms(2) by (simp add: ws_inv_def)
  from user_okD [OF assms(1) this, of f Connected]
  have "ends (\<lambda>e. e \<noteq> OutOfFuel) (\<lambda>_. ws_inv E) (user E f Connected s)"
    by (rule ends_post) (use ws_inv_recv [OF assms(2)] in simp)
  then show ?thesis by (simp add: ConnectHandler_call_def Some)
qed (use assms(2) in \<open>simp add: ConnectHandler_call_def\<close>)

lemma OnRead_ends:
  assumes "env_laws E" "user_ok E" "ws_inv E s"
  shows "ends (\<lambda>e. e \<noteq> OutOfFuel) (\<lambda>_. ws_inv E) (OnRead E s)"
proof (cases "bev_m s = None \<or> connectState_m s = HANDSHAKE_COMPLETE")
  case True
  then show ?thesis using read_input_ends [OF assms] by (auto simp: OnRead_def wtf_check_def)
next
  case False
  have hs: "handshake_inv E s" and rs: "recv_inv (link s) s" using assms(3) by (simp_all add: ws_inv_def link_ok_def)
  have st: "state_m s \<noteq> CONNECTED" using False rs by (auto simp: recv_inv_def)
  have "ends (\<lambda>e. e \<noteq> OutOfFuel) (\<lambda>_. ws_inv E)
      (let t = t\<lparr>bev_input := rest\<rparr> in case r of PARSE_ERROR \<Rightarrow> read_input E (ShutDown t) | NEED_MORE \<Rightarrow> Ret () t
       | SUCCESS \<Rightarrow> (let t = t\<lparr>state_m := CONNECTED\<rparr> in
           andThen (ConnectHandler_call E (onConnect_m t) t) (\<lambda>_ s. read_input E s))
       | USER_ABORT \<Rightarrow> read_input E t)" if p: "reply_post E s (r, rest) t" for r rest t
  proof -
    have on: "reply_on s t" and inv: "r \<noteq> PARSE_ERROR \<Longrightarrow> handshake_inv E t" "r = SUCCESS \<Longrightarrow> upgraded E t"
        and r: "r \<noteq> USER_ABORT"
      using p by (simp_all add: reply_post_def)
    have rt: "recv_inv (link t) t" using reply_on_recv_inv [OF on rs] st by simp
    show ?thesis
    proof (cases r)
      case PARSE_ERROR
      then show ?thesis by (simp add: read_input_def ReadWebsocket_def ShutDown_def Let_def split: option.splits)
    next
      case NEED_MORE
      then have "ws_inv E t" using rt inv p by (simp add: ws_inv_def link_ok_def reply_post_def)
      then show ?thesis using NEED_MORE by simp
    next
      case SUCCESS
      let ?t = "t\<lparr>bev_input := rest, state_m := CONNECTED\<rparr>"
      have "recv_inv (link t) ?t" "link_ok E t"
        using rt inv SUCCESS by (simp_all add: recv_inv_def link_def upgraded_def link_ok_def)
      then have "ws_inv E ?t" using link_ok_cong [of ?t t E] by (simp add: ws_inv_def)
      then have "ends (\<lambda>e. e \<noteq> OutOfFuel) (\<lambda>_. ws_inv E) (ConnectHandler_call E (onConnect_m ?t) ?t)"
        by (rule ConnectHandler_call_ends [OF assms(2)])
      then show ?thesis
        using SUCCESS read_input_ends [OF assms(1,2)] by (auto simp: ends_andThen Let_def elim: ends_post)
    qed (use r in simp)
  qed
  note reply = this
  have "ends (\<lambda>e. e \<noteq> OutOfFuel) (\<lambda>_. ws_inv E) (andThen (ReadServerHandshakeReply E (bev_input s) s) (\<lambda>(r, rest) t.
      let t = t\<lparr>bev_input := rest\<rparr> in case r of PARSE_ERROR \<Rightarrow> read_input E (ShutDown t) | NEED_MORE \<Rightarrow> Ret () t
       | SUCCESS \<Rightarrow> (let t = t\<lparr>state_m := CONNECTED\<rparr> in
           andThen (ConnectHandler_call E (onConnect_m t) t) (\<lambda>_ s. read_input E s))
       | USER_ABORT \<Rightarrow> read_input E t))"
    unfolding ends_andThen [of _ _ "ReadServerHandshakeReply E (bev_input s) s"]
    by (rule ends_mono [OF ReadServerHandshakeReply_ends [OF assms(1) hs]]) (use reply in \<open>auto simp del: Let_def\<close>)
  then show ?thesis using False by (simp add: OnRead_def wtf_check_def)
qed

lemma GenerateHandshakeKey_result: "\<exists>w k. GenerateHandshakeKey E s = (0, s\<lparr>world := w, handshakeKeyBase64_m := k\<rparr>)"
proof -
  obtain randKey n w where g: "GetRandomMask (rand_s E) 16 (world s) = (randKey, n, w)" by (rule prod_cases3)
  have "length (EncodeBase64 randKey) = 24"
    using GetRandomMask_count [OF g] by (simp add: length_EncodeBase64)
  then have "EncodeBase64 randKey \<noteq> []" by auto
  then show ?thesis using g by (auto simp: GenerateHandshakeKey_def)
qed

lemma SendHandshake_ends:
  "ends (\<lambda>e. e = OutOfBounds)
     (\<lambda>_ t. \<exists>w k. t = s\<lparr>handshakeKeyBase64_m := k, world := w, connectState_m := SENT_REQ\<rparr>) (SendHandshake E out s)"
proof -
  obtain w k where g: "GenerateHandshakeKey E s = (0, s\<lparr>world := w, handshakeKeyBase64_m := k\<rparr>)"
    using GenerateHandshakeKey_result [of E s] by (elim exE)
  let ?s = "s\<lparr>world := w, handshakeKeyBase64_m := k\<rparr>"
  obtain out' w' where p: "add_printfs E (handshake_lines ?s) out (world ?s) = (out', w')" by force
  show ?thesis using g p by (auto simp: SendHandshake_def)
qed

lemma OnConnectEvent_ends:
  assumes "ws_inv E s" "state_m s \<noteq> CONNECTED"
  shows "ends (\<lambda>e. e \<noteq> OutOfFuel) (\<lambda>_. ws_inv E) (OnConnectEvent E s)"
proof (cases "bev_m s")
  case (Some out)
  have "ws_inv E (s\<lparr>handshakeKeyBase64_m := k, world := w, connectState_m := SENT_REQ\<rparr>)" for w k
    using assms by (simp add: ws_inv_def link_ok_def handshake_inv_def recv_inv_def link_def)
  then have "ends (\<lambda>e. e \<noteq> OutOfFuel) (\<lambda>_. ws_inv E) (SendHandshake E out s)"
    by (intro ends_mono [OF SendHandshake_ends [of s E out]]) auto
  then show ?thesis by (simp add: OnConnectEvent_def Some ends_andThen case_prod_beta)
qed (simp add: OnConnectEvent_def)

lemma recv_inv_closed_uncleanly: "recv_inv l s \<Longrightarrow> recv_inv l (s\<lparr>state_m := CLOSED_UNCLEANLY\<rparr>)"
  by (simp add: recv_inv_def link_def)

lemma OnEofEvent_rest_ends:
  assumes "ws_inv E s"
  shows "ends F (\<lambda>_. ws_inv E)
    (let status = serverCloseStatus_m s; s = ShutDown s;
         (s, status) = (if \<not> receivedCloseFlag_m s
                        then (s\<lparr>state_m := CLOSED_UNCLEANLY\<rparr>, ABNORMAL_1006) else (s, status))
     in andThen
          (case onClose_m s of None \<Rightarrow> Ret () s
           | Some _ \<Rightarrow> call_ptr E (onClose_m s)
               (Closed status (if serverReason_m s = ReasonNull then None else Some (reason_memory s))
                 (serverReasonLen_m s)) s)
          (\<lambda>_ s. let (ret, s) = Quit E True s in Ret () s))"
proof -
  have "onClose_m (ShutDown s) = None"
    using assms by (simp add: ws_inv_def) (simp add: recv_inv_def ShutDown_def Let_def split: option.splits)
  moreover have "ws_inv E (ShutDown s\<lparr>state_m := CLOSED_UNCLEANLY\<rparr>)"
    by (rule ws_inv_recv [OF assms]) (use assms in \<open>simp add: recv_inv_closed_uncleanly ws_inv_def\<close>)
  ultimately show ?thesis
    using assms by (auto simp: Let_def Quit_def QuitDelay_def split: prod.splits)
qed

lemma OnEofEvent_ends:
  assumes "env_laws E" "user_ok E" "ws_inv E s"
  shows "ends (\<lambda>e. e \<noteq> OutOfFuel) (\<lambda>_. ws_inv E) (OnEofEvent E s)"
proof (cases "bev_m s")
  case (Some b)
  have "ends (\<lambda>e. e \<noteq> OutOfFuel) (\<lambda>_. ws_inv E) (if length (bev_input s) > 0 then read_input E s else Ret () s)"
    using read_input_ends [OF assms] assms(3) by simp
  then show ?thesis
    unfolding OnEofEvent_def Some option.case ends_andThen [of _ _ "if length (bev_input s) > 0 then read_input E s else Ret () s"]
    by (rule ends_post) (rule OnEofEvent_rest_ends)
qed (simp add: OnEofEvent_def)

lemma callback_ends:
  assumes "env_laws E" "user_ok E" "ws_inv E s" "enabled s ev"
  shows "ends (\<lambda>e. e \<noteq> OutOfFuel) (\<lambda>_. ws_inv E) (callback E ev s)"
proof (cases ev)
  case (BevEvent f)
  then show ?thesis
    using OnConnectEvent_ends [OF assms(3)] OnEofEvent_ends [OF assms(1-3)] assms(3,4)
    by (auto simp: callback_def OnEvent_def enabled_def)
qed (use assms(3) OnRead_ends [OF assms(1,2)] in
  \<open>simp_all add: callback_def OnCloseTimeout_def OnConnectionTimeout_def wtf_check_def\<close>)

section \<open>Every run of the loop\<close>

text \<open>The loop as a step relation: one callback of an enabled event that returns.\<close>

inductive ws_step :: "('w, 'h) env \<Rightarrow> ('w, 'h) session \<Rightarrow> loop_event \<Rightarrow> ('w, 'h) session \<Rightarrow> bool"
  for E :: "('w, 'h) env" where
  ws_callback: "enabled s ev \<Longrightarrow> callback E ev s = Ret () t \<Longrightarrow> ws_step E s ev t"

inductive ws_reach :: "('w, 'h) env \<Rightarrow> ('w, 'h) session \<Rightarrow> ('w, 'h) session \<Rightarrow> bool"
  for E :: "('w, 'h) env" and s :: "('w, 'h) session" where
  ws_start: "ws_reach E s s"
| ws_more: "ws_reach E s t \<Longrightarrow> ws_step E t ev u \<Longrightarrow> ws_reach E s u"

inductive_cases ws_stepE: "ws_step E s ev t"

lemma ws_step_inv:
  assumes "env_laws E" "user_ok E" "ws_inv E s" "ws_step E s ev t"
  shows "ws_inv E t"
  using assms(4)
proof (rule ws_stepE)
  assume "enabled s ev" "callback E ev s = Ret () t"
  then show ?thesis using callback_ends [OF assms(1-3), of ev] by simp
qed

lemma ws_reach_inv: "ws_reach E s t \<Longrightarrow> env_laws E \<Longrightarrow> user_ok E \<Longrightarrow> ws_inv E s \<Longrightarrow> ws_inv E t"
  by (induction rule: ws_reach.induct) (auto intro: ws_step_inv)

lemma ws_reach_trans: "ws_reach E t u \<Longrightarrow> ws_reach E s t \<Longrightarrow> ws_reach E s u"
  by (induction rule: ws_reach.induct) (auto intro: ws_more)

lemma event_base_dispatch_ends:
  assumes "env_laws E" "user_ok E"
  shows "ws_inv E s \<Longrightarrow> ends (\<lambda>e. e \<noteq> OutOfFuel) (\<lambda>_ t. ws_inv E t \<and> ws_reach E s t) (event_base_dispatch E evs s)"
proof (induction evs arbitrary: s)
  case (Cons ev evs)
  show ?case
  proof (cases "enabled s ev")
    case True
    show ?thesis
    proof (cases "callback E ev s")
      case (Ret x t)
      have step: "ws_step E s ev t" using True Ret by (simp add: ws_callback)
      have "ws_inv E t" by (rule ws_step_inv [OF assms Cons.prems step])
      from Cons.IH [OF this] have
        "ends (\<lambda>e. e \<noteq> OutOfFuel) (\<lambda>_ u. ws_inv E u \<and> ws_reach E s u) (event_base_dispatch E evs t)"
        by (rule ends_post) (use ws_reach_trans ws_more [OF ws_start step] in blast)
      then show ?thesis using True Ret by simp
    next
      case (Fault e)
      then show ?thesis using callback_ends [OF assms Cons.prems True] True by simp
    qed
  qed (use Cons in simp)
qed (simp add: ws_start)

lemma recv_inv_connecting: "recv_inv l s \<Longrightarrow> recv_inv l (s\<lparr>state_m := CONNECTING\<rparr>)"
  by (simp add: recv_inv_def link_def)

lemma SetupTimeoutEvent_ws_inv [simp]: "ws_inv E (snd (SetupTimeoutEvent E tv s)) = ws_inv E s"
  by (rule ws_inv_cong) (simp_all add: SetupTimeoutEvent_def Let_def case_prod_beta)

text \<open>
  C17. However the network behaves, a session counts as connected only after a valid upgrade.
  From a session that satisfies the invariant, \<open>DoConnect\<close> with any sequence of loop events
  (data cut anywhere, closed or failing connections, timers) and any handlers that respect the
  session ends without running past a loop bound, and in the state it returns
  \<open>state_ == CONNECTED\<close> implies that the server sent the upgrade fields and the accept value of
  this connection's key.
\<close>
theorem DoConnect_connected_is_upgraded:
  assumes "env_laws E" "user_ok E" "ws_inv E s"
  shows "ends (\<lambda>e. e \<noteq> OutOfFuel) (\<lambda>_ t. ws_inv E t \<and> (state_m t = CONNECTED \<longrightarrow> upgraded E t)) (DoConnect E evs s)"
proof -
  have conn: "ws_inv E t \<Longrightarrow> state_m t = CONNECTED \<longrightarrow> upgraded E t" for t
    by (auto simp: ws_inv_def recv_inv_def link_ok_def)
  have loop: "ends (\<lambda>e. e \<noteq> OutOfFuel) (\<lambda>_ t. ws_inv E t) (event_base_dispatch E evs t)" if "ws_inv E t" for t
    using event_base_dispatch_ends [OF assms(1,2) that, of evs] by (rule ends_post) simp
  obtain ok w1 where n: "bufferevent_socket_new E (world s) = (ok, w1)" by force
  obtain rc w2 where c: "bufferevent_socket_connect_hostname E ''123.207.136.134'' 9091 w1 = (rc, w2)" by force
  let ?a = "s\<lparr>uri_m := ''/ajaxchattest'', host_m := ''123.207.136.134'', port_m := 9091,
     receivedCloseFlag_m := False, sentCloseFlag_m := False, inMsgFlag_m := False,
     origin_m := ''http://'' @ ''123.207.136.134'' @ '':'' @ dec_int 9091,
     bev_m := Some [], bev_input := [], world := w2, state_m := CONNECTING\<rparr>"
  have a: "ws_inv E ?a"
    by (rule ws_inv_recv [OF assms(3)]) (use assms(3) in \<open>simp add: ws_inv_def recv_inv_def link_def\<close>)
  obtain rc' u where u: "SetupConnectionTimeout E ?a = (rc', u)" by force
  then have "ws_inv E u"
    using SetupTimeoutEvent_ws_inv [of E _ ?a] a unfolding SetupConnectionTimeout_def Let_def by (metis snd_conv)
  then have "ends (\<lambda>e. e \<noteq> OutOfFuel) (\<lambda>_ t. ws_inv E t) (DoConnect E evs s)"
    using n c u loop [of u] assms(3) by (simp add: DoConnect_def ends_rules)
  then show ?thesis by (rule ends_post) (use conn in blast)
qed

definition ready_session :: "(user_event list, unit) session" where
  "ready_session = snd (DoInit sample_env (SetMessageHandler \<lparr>isValid_m = True, handler_m = Some ()\<rparr>
     (SetConnectHandler (Some ()) (new_session []))))"

lemma ready_session_inv: "ws_inv E ready_session"
  by (simp add: ready_session_def DoInit_def SetMessageHandler_def SetConnectHandler_def sample_env_def ws_inv_def
      recv_inv_def link_def new_session_def ws_consts link_ok_def handshake_inv_def)

theorem DoConnect_connected_is_upgraded_witness:
  "ends (\<lambda>e. e \<noteq> OutOfFuel) (\<lambda>_ t. ws_inv chat_env t \<and> (state_m t = CONNECTED \<longrightarrow> upgraded chat_env t))
    (DoConnect chat_env [BevEvent BEV_EVENT_CONNECTED, Readable (to_bytes (''HTTP/1.1 403 Forbidden'' @ crlf))] ready_session)"
  by (rule DoConnect_connected_is_upgraded [OF chat_env_laws chat_user_ok ready_session_inv])

section \<open>Getting connected\<close>

lemma OnConnectEvent_ok:
  assumes "env_laws E" "env_no_failure E" "numSubprotocols_m s = 0" "bev_m s = Some out"
  obtains k w where "OnConnectEvent E s = Ret () (s\<lparr>handshakeKeyBase64_m := k, world := w, connectState_m := SENT_REQ,
      bev_m := Some (out @ to_bytes (concat (handshake_lines (s\<lparr>handshakeKeyBase64_m := k\<rparr>))))\<rparr>)"
proof -
  obtain randKey w t where t: "t = s\<lparr>handshakeKeyBase64_m := EncodeBase64 randKey, world := w, connectState_m := SENT_REQ\<rparr>"
    and h: "SendHandshake E out s = Ret (0, out @ to_bytes (concat (handshake_lines t))) t"
    using SendHandshake_ok [OF assms(1-3), of out] by blast
  have "handshake_lines t = handshake_lines (s\<lparr>handshakeKeyBase64_m := EncodeBase64 randKey\<rparr>)"
    by (simp add: t handshake_lines_def)
  then show ?thesis
    using that [of "EncodeBase64 randKey" w] h assms(4) by (simp add: OnConnectEvent_def t)
qed

lemma conforming_reply_connects:
  assumes "env_laws E" "env_no_failure E" "state_m s = CONNECTING" "connectState_m s = CONN_NONE"
    "bev_m s = Some out" "bev_input s = []" "numSubprotocols_m s = 0" "plain phrase" "phrase = [] \<or> \<not> isdigit (hd phrase)"
  shows "\<exists>k w t u. t = s\<lparr>handshakeKeyBase64_m := k, world := w, connectState_m := SENT_REQ,
      bev_m := Some (out @ to_bytes (concat (handshake_lines (s\<lparr>handshakeKeyBase64_m := k\<rparr>))))\<rparr> \<and>
    u = t\<lparr>header_m := accepted_headers E t, httpHeaderFlags_m := 7, connectState_m := HANDSHAKE_COMPLETE,
      bev_input := rest, state_m := CONNECTED\<rparr> \<and>
    callback E (BevEvent BEV_EVENT_CONNECTED) s = Ret () t \<and>
    callback E (Readable (conforming_reply E t phrase @ rest)) t =
      andThen (ConnectHandler_call E (onConnect_m s) u) (\<lambda>_ s. read_input E s)"
proof -
  obtain k w where c: "OnConnectEvent E s = Ret () (s\<lparr>handshakeKeyBase64_m := k, world := w, connectState_m := SENT_REQ,
      bev_m := Some (out @ to_bytes (concat (handshake_lines (s\<lparr>handshakeKeyBase64_m := k\<rparr>))))\<rparr>)" (is "_ = Ret () ?t")
    using OnConnectEvent_ok [OF assms(1,2,7,5)] .
  let ?inb = "conforming_reply E ?t phrase @ rest"
  let ?v = "?t\<lparr>bev_input := ?inb\<rparr>"
  let ?u = "?t\<lparr>header_m := accepted_headers E ?t, httpHeaderFlags_m := 7, connectState_m := HANDSHAKE_COMPLETE,
     bev_input := rest, state_m := CONNECTED\<rparr>"
  have v: "conforming_reply E ?v phrase = conforming_reply E ?t phrase" "accepted_headers E ?v = accepted_headers E ?t"
    by (simp_all add: conforming_reply_def accepted_headers_def accept_value_def)
  then have r: "ReadServerHandshakeReply E ?inb ?v =
      Ret (SUCCESS, rest) (?v\<lparr>header_m := accepted_headers E ?t, httpHeaderFlags_m := 7, connectState_m := HANDSHAKE_COMPLETE\<rparr>)"
    using conforming_reply_accepted [OF assms(1) _ assms(8,9), of ?v rest] by simp
  have "callback E (BevEvent BEV_EVENT_CONNECTED) s = Ret () ?t"
    using c by (simp add: callback_def OnEvent_def BEV_EVENT_CONNECTED_def)
  moreover have "callback E (Readable ?inb) ?t =
      andThen (ConnectHandler_call E (onConnect_m s) ?u) (\<lambda>_ s. read_input E s)"
    using r assms(6) by (simp add: callback_def OnRead_def)
  ultimately show ?thesis by blast
qed



text \<open>
  A reply that is refused stops the process: after an error in the handshake \<open>OnRead\<close> shuts
  the connection down and goes on to read frames from it, which fails a check.
\<close>
theorem refused_reply_aborts:
  assumes "bev_m s \<noteq> None" "connectState_m s \<noteq> HANDSHAKE_COMPLETE"
    "ReadServerHandshakeReply E (bev_input s) s = Ret (PARSE_ERROR, rest) t"
  shows "OnRead E s = Fault CheckFailed"
  using assms
  by (auto simp: OnRead_def read_input_def ReadWebsocket_def ShutDown_def Let_def split: option.splits)

theorem refused_reply_aborts_witness:
  "OnRead sample_env ((new_session [])\<lparr>bev_m := Some [], connectState_m := SENT_REQ, bev_input := [10]\<rparr>) = Fault CheckFailed"
  by (rule refused_reply_aborts [where rest = "[]" and t = "(new_session [])\<lparr>bev_m := Some [], connectState_m := SENT_REQ, bev_input := [10]\<rparr>"])
    (simp_all add: new_session_def ReadServerHandshakeReply_def ReadHttpStatus_def sample_env_def crlf_split_def
      ParseHttpStatus_def c_str_def of_bytes_def)

section \<open>After the end of a connection\<close>

text \<open>
  What the end of the stream leaves behind, when everything received has been read. Without a
  close frame the session is unclean-closed and may connect again. After a close frame it stays in
  the closing state, from which every later \<open>DoConnect\<close> is refused.
\<close>
theorem OnEofEvent_then_DoConnect:
  assumes "recv_inv l s" "bev_m s \<noteq> None" "bev_input s = []" "receivedCloseFlag_m s \<longrightarrow> state_m s = CLOSING"
  shows "\<exists>t. OnEofEvent E s = Ret () t \<and> bev_m t = None \<and>
    (if receivedCloseFlag_m s then state_m t = CLOSING \<and> (\<forall>evs. DoConnect E evs t = Ret (-1) t)
     else state_m t = CLOSED_UNCLEANLY)"
  using assms
  by (auto simp: OnEofEvent_def ShutDown_def Quit_def QuitDelay_def DoConnect_def recv_inv_def Let_def
      split: option.splits prod.splits)

theorem OnEofEvent_then_DoConnect_witness:
  "\<exists>t. OnEofEvent sample_env (connected_session\<lparr>receivedCloseFlag_m := True, state_m := CLOSING\<rparr>) = Ret () t \<and> bev_m t = None \<and>
    (if receivedCloseFlag_m (connected_session\<lparr>receivedCloseFlag_m := True, state_m := CLOSING\<rparr>)
     then state_m t = CLOSING \<and> (\<forall>evs. DoConnect sample_env evs t = Ret (-1) t) else state_m t = CLOSED_UNCLEANLY)"
  by (rule OnEofEvent_then_DoConnect [of "link connected_session"])
    (use recv_inv_connected_session in simp_all, simp_all add: connected_session_def new_session_def)

end
