(* ===== verification/Http_Message.thy ===== *)
theory Http_Message
  imports Header_Map
begin

text \<open>
  The values of the HTTP client: \<^verbatim>\<open>src/net/url.cpp\<close>, \<^verbatim>\<open>src/net/request.cpp\<close>,
  \<^verbatim>\<open>src/net/http_cli/error.cpp\<close>, \<^verbatim>\<open>src/net/http_cli/response.h\<close> and the text formatting of
  \<^verbatim>\<open>src/wtf/fmt_string.h\<close>. The request text is compared with an independent reader of HTTP/1.1
  message heads (RFC 7230, section 3).
\<close>

section \<open>Formatted text\<close>

text \<open>
  \<open>snprintf\<close> into a buffer of \<open>n\<close> bytes: what is in the buffer up to and including the terminator,
  and the length of the whole text. \<open>text\<close> is the expansion of the format with its arguments.
\<close>

definition snprintf :: "nat \<Rightarrow> string \<Rightarrow> string \<times> nat" where
  "snprintf n text = (if n = 0 then [] else take (n - 1) text @ [CHR 0x00], length text)"

definition BUFSIZ :: nat where
  "BUFSIZ = 512"

definition FmtString :: "string \<Rightarrow> string" where
  "FmtString text =
     (let oldlen = BUFSIZ;
          (buffer, newlen) = snprintf oldlen text;
          newlen = newlen + 1
      in if newlen > oldlen
         then (let (newBuffer, _) = snprintf newlen text in c_str newBuffer)
         else c_str buffer)"

section \<open>URLs, errors, requests and responses\<close>

text \<open>The port of a \<open>Url\<close> that was constructed from text only is indeterminate.\<close>

record Url =
  url_text :: string
  schema :: string
  host :: string
  port :: "int option"
  path :: string
  query :: string
  fragment :: string

definition IsHttps :: "Url \<Rightarrow> bool" where
  "IsHttps u \<longleftrightarrow> schema u = ''https''"

definition ParseUrl :: "Url \<Rightarrow> Url" where
  "ParseUrl u = u"

definition Url_new :: "string \<Rightarrow> Url" where
  "Url_new text =
     ParseUrl \<lparr>url_text = text, schema = '''', host = '''', port = None, path = '''', query = '''', fragment = ''''\<rparr>"

text \<open>A moved-from \<open>std::string\<close> is empty; the port is copied.\<close>

definition Url_moved_from :: "Url \<Rightarrow> Url" where
  "Url_moved_from u =
     u\<lparr>url_text := '''', schema := '''', host := '''', path := '''', query := '''', fragment := ''''\<rparr>"

datatype ErrorCode =
    OK | TIMEDOUT | CONNECTION_FAILURE | EMPTY_RESPONSE | HOST_RESOLUTION_FAILURE | INTERNAL_ERROR
  | INVALID_URL_FORMAT | NETWORK_RECEIVE_ERROR | NETWORK_SEND_FAILURE | PROXY_RESOLUTION_FAILURE
  | SSL_CONNECT_ERROR | SSL_LOCAL_CERTIFICATE_ERROR | SSL_REMOTE_CERTIFICATE_ERROR | SSL_CACERT_ERROR
  | GENERIC_SSL_ERROR | UNSUPPORTED_PROTOCOL | UNKNOWN_ERROR

fun ErrorCode_value :: "ErrorCode \<Rightarrow> nat" where
  "ErrorCode_value OK = 0"
| "ErrorCode_value TIMEDOUT = 1"
| "ErrorCode_value CONNECTION_FAILURE = 2"
| "ErrorCode_value EMPTY_RESPONSE = 3"
| "ErrorCode_value HOST_RESOLUTION_FAILURE = 4"
| "ErrorCode_value INTERNAL_ERROR = 5"
| "ErrorCode_value INVALID_URL_FORMAT = 6"
| "ErrorCode_value NETWORK_RECEIVE_ERROR = 7"
| "ErrorCode_value NETWORK_SEND_FAILURE = 8"
| "ErrorCode_value PROXY_RESOLUTION_FAILURE = 9"
| "ErrorCode_value SSL_CONNECT_ERROR = 10"
| "ErrorCode_value SSL_LOCAL_CERTIFICATE_ERROR = 11"
| "ErrorCode_value SSL_REMOTE_CERTIFICATE_ERROR = 12"
| "ErrorCode_value SSL_CACERT_ERROR = 13"
| "ErrorCode_value GENERIC_SSL_ERROR = 14"
| "ErrorCode_value UNSUPPORTED_PROTOCOL = 15"
| "ErrorCode_value UNKNOWN_ERROR = 1000"

record Error =
  code_m :: ErrorCode

definition Error_new :: Error where
  "Error_new = \<lparr>code_m = OK\<rparr>"

definition Error_bool :: "Error \<Rightarrow> bool" where
  "Error_bool e \<longleftrightarrow> code_m e \<noteq> OK"

definition Error_eq :: "Error \<Rightarrow> ErrorCode \<Rightarrow> bool" where
  "Error_eq e code \<longleftrightarrow> code_m e = code"

definition Error_string :: "Error \<Rightarrow> string" where
  "Error_string e = ''error:'' @ dec_nat (ErrorCode_value (code_m e))"

type_synonym Header = "(string \<times> string) list"

record Response =
  statusCode :: int
  status :: string
  error :: Error
  body :: string
  res_header :: Header
  res_url :: Url

text \<open>A default response of an object whose storage is zeroed first.\<close>

definition Response_new :: Response where
  "Response_new =
     \<lparr>statusCode = 0, status = '''', error = Error_new, body = '''', res_header = [],
      res_url = (Url_new '''')\<lparr>port := Some 0\<rparr>\<rparr>"

definition Response_make :: "int \<Rightarrow> Error \<Rightarrow> string \<Rightarrow> Header \<Rightarrow> Url \<Rightarrow> Response" where
  "Response_make status_code err text hs u =
     \<lparr>statusCode = status_code, status = '''', error = err, body = text, res_header = hs, res_url = u\<rparr>"

record Request =
  req_header :: Header
  req_method :: string
  req_url :: Url
  httpMajor :: u16
  httpMinor :: u16
  raw :: string

definition Request_new :: Request where
  "Request_new =
     \<lparr>req_header = [], req_method = '''', req_url = (Url_new '''')\<lparr>port := Some 0\<rparr>, httpMajor = 1, httpMinor = 1,
      raw = ''''\<rparr>"

definition PreparePayload :: "Request \<Rightarrow> Request" where
  "PreparePayload r =
     (let r = r\<lparr>raw := FmtString
                (c_str (req_method r) @ '' '' @ (if path (req_url r) = [] then ''/'' else c_str (path (req_url r))) @
                 '' HTTP/'' @ dec_nat (unat (httpMajor r)) @ ''.'' @ dec_nat (unat (httpMinor r)) @ crlf)\<rparr>;
          r = r\<lparr>raw := raw r @ FmtString (''Host: '' @ c_str (host (req_url r)) @ crlf)\<rparr>;
          r = foldl (\<lambda>r (name, val). r\<lparr>raw := raw r @ FmtString (c_str name @ '': '' @ c_str val @ crlf)\<rparr>)
                r (req_header r)
      in r\<lparr>raw := raw r @ crlf\<rparr>)"

section \<open>Formatting loses nothing\<close>

lemma c_str_terminated: "CHR 0x00 \<notin> set s \<Longrightarrow> c_str (s @ CHR 0x00 # t) = s"
  by (simp add: c_str_def takeWhile_append)

text \<open>The stack buffer is left for the heap exactly when the text and its terminator do not fit.\<close>

lemma FmtString_c_str: "FmtString str = c_str str"
proof -
  have "c_str (str @ [CHR 0x00]) = c_str str"
    by (induction str) (simp_all add: c_str_def)
  then show ?thesis by (simp add: FmtString_def snprintf_def Let_def BUFSIZ_def)
qed

lemma FmtString_id: "CHR 0x00 \<notin> set str \<Longrightarrow> FmtString str = str"
  by (simp add: FmtString_c_str c_str_id)

section \<open>A reader of message heads\<close>

text \<open>
  The lines of a head up to the empty line, the parts of a request line and the name and value of
  a field, with optional white space around the value removed, as RFC 7230 describes them.
\<close>

fun head_lines :: "string \<Rightarrow> string \<Rightarrow> (string list \<times> string) option" where
  "head_lines cur [] = None"
| "head_lines cur [c] = None"
| "head_lines cur (c # d # r) =
     (if c = CHR 0x0D \<and> d = CHR 0x0A then
        (if cur = [] then Some ([], r)
         else map_option (apfst ((#) (rev cur))) (head_lines [] r))
      else head_lines (c # cur) (d # r))"

definition before :: "char \<Rightarrow> string \<Rightarrow> string" where
  "before c l = takeWhile (\<lambda>d. d \<noteq> c) l"

definition behind :: "char \<Rightarrow> string \<Rightarrow> string" where
  "behind c l = tl (dropWhile (\<lambda>d. d \<noteq> c) l)"

definition ows :: "char \<Rightarrow> bool" where
  "ows c \<longleftrightarrow> c = CHR '' '' \<or> c = CHR 0x09"

definition strip :: "string \<Rightarrow> string" where
  "strip l = rev (dropWhile ows (rev (dropWhile ows l)))"

definition read_request_line :: "string \<Rightarrow> string \<times> string \<times> string" where
  "read_request_line l =
     (before CHR '' '' l, before CHR '' '' (behind CHR '' '' l), behind CHR '' '' (behind CHR '' '' l))"

definition read_field :: "string \<Rightarrow> string \<times> string" where
  "read_field l = (before CHR '':'' l, strip (behind CHR '':'' l))"

definition read_head :: "string \<Rightarrow> ((string \<times> string \<times> string) \<times> (string \<times> string) list \<times> string) option" where
  "read_head t =
     (case head_lines [] t of
        Some (l # ls, rest) \<Rightarrow> Some (read_request_line l, map read_field ls, rest)
      | _ \<Rightarrow> None)"

text \<open>Text that can stand inside a line: no NUL, carriage return or linefeed.\<close>

definition line_text :: "string \<Rightarrow> bool" where
  "line_text l \<longleftrightarrow> CHR 0x00 \<notin> set l \<and> CHR 0x0D \<notin> set l \<and> CHR 0x0A \<notin> set l"

definition field_ok :: "string \<times> string \<Rightarrow> bool" where
  "field_ok f \<longleftrightarrow> line_text (fst f) \<and> CHR '':'' \<notin> set (fst f) \<and> line_text (snd f) \<and> strip (snd f) = snd f"

definition request_ok :: "Request \<Rightarrow> bool" where
  "request_ok r \<longleftrightarrow>
     line_text (req_method r) \<and> CHR '' '' \<notin> set (req_method r) \<and>
     line_text (path (req_url r)) \<and> CHR '' '' \<notin> set (path (req_url r)) \<and>
     field_ok (''Host'', host (req_url r)) \<and> list_all field_ok (req_header r)"

lemma head_lines_line:
  "CHR 0x0D \<notin> set l \<Longrightarrow>
   head_lines cur (l @ crlf @ r) =
     (if rev cur @ l = [] then Some ([], r) else map_option (apfst ((#) (rev cur @ l))) (head_lines [] r))"
proof (induction l arbitrary: cur)
  case (Cons c l)
  then obtain d t where "l @ crlf @ r = d # t" by (cases l) (simp_all add: crlf_def)
  with Cons Cons.IH [of "c # cur"] show ?case by auto
qed (simp add: crlf_def)

lemma head_lines_fields:
  "list_all (\<lambda>l. CHR 0x0D \<notin> set l \<and> l \<noteq> []) ls \<Longrightarrow>
   head_lines [] (concat (map (\<lambda>l. l @ crlf) ls) @ crlf @ rest) = Some (ls, rest)"
proof (induction ls)
  case Nil
  then show ?case using head_lines_line [of "[]" "[]" rest] by simp
next
  case (Cons l ls)
  then show ?case using head_lines_line [of l "[]" "concat (map (\<lambda>l. l @ crlf) ls) @ crlf @ rest"] by simp
qed

lemma before_behind:
  "c \<notin> set a \<Longrightarrow> before c (a @ c # b) = a" "c \<notin> set a \<Longrightarrow> behind c (a @ c # b) = b"
proof -
  assume "c \<notin> set a"
  then have a: "\<forall>d \<in> set a. d \<noteq> c" by blast
  then show "before c (a @ c # b) = a" by (simp add: before_def takeWhile_append2)
  from a show "behind c (a @ c # b) = b" by (simp add: behind_def dropWhile_append2)
qed

lemma strip_space: "strip (CHR '' '' # v) = strip v"
  by (simp add: strip_def ows_def)

definition field_line :: "string \<times> string \<Rightarrow> string" where
  "field_line f = fst f @ '': '' @ snd f"

definition request_line :: "Request \<Rightarrow> string" where
  "request_line r =
     req_method r @ '' '' @ (if path (req_url r) = [] then ''/'' else path (req_url r)) @ '' HTTP/'' @
     dec_nat (unat (httpMajor r)) @ ''.'' @ dec_nat (unat (httpMinor r))"

lemma read_field_line: "field_ok f \<Longrightarrow> read_field (field_line f) = f"
  by (cases f) (simp add: read_field_def field_line_def field_ok_def before_behind strip_space)

lemma raw_fields:
  "raw (foldl (\<lambda>r (name, val). r\<lparr>raw := raw r @ FmtString (c_str name @ '': '' @ c_str val @ crlf)\<rparr>) r fs) =
   raw r @ concat (map (\<lambda>(name, val). FmtString (c_str name @ '': '' @ c_str val @ crlf)) fs)"
  by (induction fs arbitrary: r) auto

lemma raw_PreparePayload_fields:
  "raw (PreparePayload r) =
     FmtString (c_str (req_method r) @ '' '' @ (if path (req_url r) = [] then ''/'' else c_str (path (req_url r))) @
       '' HTTP/'' @ dec_nat (unat (httpMajor r)) @ ''.'' @ dec_nat (unat (httpMinor r)) @ crlf) @
     FmtString (''Host: '' @ c_str (host (req_url r)) @ crlf) @
     concat (map (\<lambda>(name, val). FmtString (c_str name @ '': '' @ c_str val @ crlf)) (req_header r)) @ crlf"
  by (simp add: PreparePayload_def Let_def raw_fields [simplified])

lemma FmtString_field:
  "field_ok (name, val) \<Longrightarrow> FmtString (c_str name @ '': '' @ c_str val @ crlf) = field_line (name, val) @ crlf"
  by (simp add: FmtString_id crlf_def field_ok_def line_text_def c_str_id field_line_def)

lemma dec_nat_chars: "c \<in> set (dec_nat n) \<Longrightarrow> isdigit c"
  using isdigit_dec_nat [of n] by (simp add: list_all_iff)

lemma dec_nat_plain [simp]: "CHR 0x00 \<notin> set (dec_nat n)" "CHR 0x0D \<notin> set (dec_nat n)" "CHR '' '' \<notin> set (dec_nat n)"
  by (auto dest!: dec_nat_chars simp: isdigit_def)

lemma raw_PreparePayload:
  assumes "request_ok r"
  shows "raw (PreparePayload r) =
    concat (map (\<lambda>l. l @ crlf) (request_line r # map field_line ((''Host'', host (req_url r)) # req_header r))) @ crlf"
proof -
  have fs: "map (\<lambda>(name, val). FmtString (c_str name @ '': '' @ c_str val @ crlf)) (req_header r) =
      map (\<lambda>f. field_line f @ crlf) (req_header r)"
    using assms by (auto simp: request_ok_def list_all_iff intro!: FmtString_field [simplified])
  have line: "FmtString (c_str (req_method r) @ '' '' @ (if path (req_url r) = [] then ''/'' else c_str (path (req_url r))) @
      '' HTTP/'' @ dec_nat (unat (httpMajor r)) @ ''.'' @ dec_nat (unat (httpMinor r)) @ crlf) = request_line r @ crlf"
    using assms by (subst FmtString_id) (simp_all add: request_ok_def line_text_def c_str_id request_line_def crlf_def)
  have hst: "FmtString (''Host: '' @ c_str (host (req_url r)) @ crlf) = field_line (''Host'', host (req_url r)) @ crlf"
    using FmtString_field [of "''Host''" "host (req_url r)"] assms by (simp add: request_ok_def c_str_def)
  show ?thesis
    unfolding raw_PreparePayload_fields line hst fs by (simp add: comp_def)
qed

lemma read_head_PreparePayload:
  assumes "request_ok r"
  shows "read_head (raw (PreparePayload r) @ rest) =
    Some ((req_method r, if path (req_url r) = [] then ''/'' else path (req_url r),
           ''HTTP/'' @ dec_nat (unat (httpMajor r)) @ ''.'' @ dec_nat (unat (httpMinor r))),
          (''Host'', host (req_url r)) # req_header r, rest)"
proof -
  let ?fs = "(''Host'', host (req_url r)) # req_header r"
  have fields: "map read_field (map field_line ?fs) = ?fs"
    using assms by (auto simp: request_ok_def list_all_iff read_field_line map_idI)
  have "CHR '' '' \<notin> set (if path (req_url r) = [] then ''/'' else path (req_url r))"
    using assms by (simp add: request_ok_def)
  then have line: "read_request_line (request_line r) =
      (req_method r, if path (req_url r) = [] then ''/'' else path (req_url r),
       ''HTTP/'' @ dec_nat (unat (httpMajor r)) @ ''.'' @ dec_nat (unat (httpMinor r)))"
    using assms by (simp add: read_request_line_def request_line_def before_behind request_ok_def del: if_split)
  have "list_all (\<lambda>l. CHR 0x0D \<notin> set l \<and> l \<noteq> []) (request_line r # map field_line ?fs)"
    using assms by (auto simp: request_ok_def list_all_iff field_ok_def line_text_def request_line_def field_line_def)
  from head_lines_fields [OF this, of rest] show ?thesis
    using fields line by (simp add: read_head_def raw_PreparePayload [OF assms])
qed

text \<open>
  C23. The request that \<open>PreparePayload\<close> writes is read back unchanged: for a request whose method,
  path, host and fields can stand in a head (no line breaks, no blank in the method or path, no colon
  in a field name, no white space around a value) a reader of HTTP/1.1 heads finds the method, the
  path (or \<open>/\<close>), the version, the host and then every field in order, and nothing else before the
  bytes that follow.
\<close>
theorem PreparePayload_read_back:
  assumes "request_ok r"
  shows "read_head (raw (PreparePayload r) @ rest) =
    Some ((req_method r, if path (req_url r) = [] then ''/'' else path (req_url r),
           ''HTTP/'' @ dec_nat (unat (httpMajor r)) @ ''.'' @ dec_nat (unat (httpMinor r))),
          (''Host'', host (req_url r)) # req_header r, rest)"
  by (rule read_head_PreparePayload [OF assms])

theorem PreparePayload_read_back_witness:
  "read_head (raw (PreparePayload (Request_new\<lparr>req_method := ''GET'',
       req_url := (Url_new '''')\<lparr>host := ''h.org'', path := ''/x''\<rparr>, req_header := [(''Accept'', ''a b'')]\<rparr>)) @ ''z'') =
    Some ((''GET'', ''/x'', ''HTTP/1.1''), [(''Host'', ''h.org''), (''Accept'', ''a b'')], ''z'')"
proof -
  let ?r = "Request_new\<lparr>req_method := ''GET'', req_url := (Url_new '''')\<lparr>host := ''h.org'', path := ''/x''\<rparr>,
    req_header := [(''Accept'', ''a b'')]\<rparr>"
  have "request_ok ?r"
    by (simp add: request_ok_def Request_new_def Url_new_def ParseUrl_def field_ok_def line_text_def strip_def ows_def)
  moreover have "dec_nat 1 = ''1''" by code_simp
  ultimately show ?thesis
    using PreparePayload_read_back [of ?r "''z''"] by (simp add: Request_new_def Url_new_def ParseUrl_def)
qed

end
