(* ===== verification/Wtf_Time.thy ===== *)
theory Wtf_Time
  imports Prelude "HOL-Library.Signed_Division"
begin

text \<open>
  Durations and points in time: \<^verbatim>\<open>src/wtf/time/time_delta.h\<close> and \<^verbatim>\<open>time_point.h\<close>. Both wrap an
  \<open>int64_t\<close> of nanoseconds, modelled as an \<open>int\<close>; a result outside the range of \<open>int64_t\<close> is
  undefined behaviour and is the value \<open>None\<close>, as is a division by zero. Division truncates
  towards zero (\<open>sdiv\<close>, \<open>smod\<close>). The conversions to and from \<open>double\<close> are not modelled.
\<close>

section \<open>Durations\<close>

type_synonym TimeDelta = int
type_synonym TimePoint = int

definition int64_min :: int where "int64_min = - (2 ^ 63)"
definition int64_max :: int where "int64_max = 2 ^ 63 - 1"

definition is_int64 :: "int \<Rightarrow> bool" where
  "is_int64 v \<longleftrightarrow> int64_min \<le> v \<and> v \<le> int64_max"

definition int64 :: "int \<Rightarrow> int option" where
  "int64 v = (if is_int64 v then Some v else None)"

definition Zero :: TimeDelta where "Zero = 0"
definition TimeDelta_Min :: TimeDelta where "TimeDelta_Min = int64_min"
definition TimeDelta_Max :: TimeDelta where "TimeDelta_Max = int64_max"

definition FromNanoseconds :: "int \<Rightarrow> TimeDelta" where
  "FromNanoseconds nanos = nanos"

definition FromMicroseconds :: "int \<Rightarrow> TimeDelta option" where
  "FromMicroseconds micros = map_option FromNanoseconds (int64 (micros * 1000))"

definition FromMilliseconds :: "int \<Rightarrow> TimeDelta option" where
  "FromMilliseconds millis = Option.bind (int64 (millis * 1000)) FromMicroseconds"

definition FromSeconds :: "int \<Rightarrow> TimeDelta option" where
  "FromSeconds seconds = Option.bind (int64 (seconds * 1000)) FromMilliseconds"

definition ToNanoseconds :: "TimeDelta \<Rightarrow> int" where "ToNanoseconds d = d"
definition ToMicroseconds :: "TimeDelta \<Rightarrow> int" where "ToMicroseconds d = ToNanoseconds d sdiv 1000"
definition ToMilliseconds :: "TimeDelta \<Rightarrow> int" where "ToMilliseconds d = ToMicroseconds d sdiv 1000"
definition ToSeconds :: "TimeDelta \<Rightarrow> int" where "ToSeconds d = ToMilliseconds d sdiv 1000"

definition TimeDelta_minus :: "TimeDelta \<Rightarrow> TimeDelta \<Rightarrow> TimeDelta option" where
  "TimeDelta_minus d other = map_option FromNanoseconds (int64 (d - other))"

definition TimeDelta_plus :: "TimeDelta \<Rightarrow> TimeDelta \<Rightarrow> TimeDelta option" where
  "TimeDelta_plus d other = map_option FromNanoseconds (int64 (d + other))"

definition TimeDelta_div :: "TimeDelta \<Rightarrow> int \<Rightarrow> TimeDelta option" where
  "TimeDelta_div d divisor =
     (if divisor = 0 then None else map_option FromNanoseconds (int64 (d sdiv divisor)))"

definition TimeDelta_ratio :: "TimeDelta \<Rightarrow> TimeDelta \<Rightarrow> int option" where
  "TimeDelta_ratio d other = (if other = 0 then None else int64 (d sdiv other))"

definition TimeDelta_times :: "TimeDelta \<Rightarrow> int \<Rightarrow> TimeDelta option" where
  "TimeDelta_times d multiplier = map_option FromNanoseconds (int64 (d * multiplier))"

text \<open>\<open>INT64_MIN % -1\<close> is undefined as well, because the quotient is not representable.\<close>

definition TimeDelta_mod :: "TimeDelta \<Rightarrow> TimeDelta \<Rightarrow> TimeDelta option" where
  "TimeDelta_mod d other =
     (if other = 0 \<or> \<not> is_int64 (d sdiv other) then None else Some (FromNanoseconds (d smod other)))"

record timespec =
  tv_sec :: int
  tv_nsec :: int

definition FromTimespec :: "timespec \<Rightarrow> TimeDelta option" where
  "FromTimespec ts =
     Option.bind (FromSeconds (tv_sec ts)) (\<lambda>s. TimeDelta_plus s (FromNanoseconds (tv_nsec ts)))"

definition ToTimespec :: "TimeDelta \<Rightarrow> timespec" where
  "ToTimespec d = \<lparr>tv_sec = ToSeconds d, tv_nsec = d smod 1000000000\<rparr>"

section \<open>Points in time\<close>

definition TimePoint_Min :: TimePoint where "TimePoint_Min = int64_min"
definition TimePoint_Max :: TimePoint where "TimePoint_Max = int64_max"

definition FromEpochDelta :: "TimeDelta \<Rightarrow> TimePoint" where
  "FromEpochDelta ticks = ToNanoseconds ticks"

definition ToEpochDelta :: "TimePoint \<Rightarrow> TimeDelta" where
  "ToEpochDelta t = FromNanoseconds t"

definition TimePoint_diff :: "TimePoint \<Rightarrow> TimePoint \<Rightarrow> TimeDelta option" where
  "TimePoint_diff t other = map_option FromNanoseconds (int64 (t - other))"

definition TimePoint_plus :: "TimePoint \<Rightarrow> TimeDelta \<Rightarrow> TimePoint option" where
  "TimePoint_plus t duration = int64 (t + ToNanoseconds duration)"

definition TimePoint_minus :: "TimePoint \<Rightarrow> TimeDelta \<Rightarrow> TimePoint option" where
  "TimePoint_minus t duration = int64 (t - ToNanoseconds duration)"

section \<open>Conversions\<close>

lemma sdiv_pos: "0 \<le> d \<Longrightarrow> 0 < a \<Longrightarrow> d sdiv a = d div (a :: int)"
  by (cases "d = 0") (simp_all add: signed_divide_int_def)

lemma sdiv_neg: "d < 0 \<Longrightarrow> 0 < a \<Longrightarrow> d sdiv a = - ((- d) div (a :: int))"
  by (simp add: signed_divide_int_def)

lemma sdiv_sdiv: "0 < a \<Longrightarrow> 0 < b \<Longrightarrow> (d sdiv a) sdiv b = d sdiv (a * b :: int)"
proof (cases "0 \<le> d")
  case True
  assume "0 < a" "0 < b"
  with True show ?thesis by (simp add: sdiv_pos pos_imp_zdiv_nonneg_iff zdiv_zmult2_eq)
next
  case False
  assume ab: "0 < a" "0 < b"
  have q: "0 \<le> (- d) div a" using False ab by (simp add: pos_imp_zdiv_nonneg_iff)
  have "(- d) div (a * b) = ((- d) div a) div b" using ab by (simp add: zdiv_zmult2_eq)
  then show ?thesis using False ab q sdiv_pos [OF q ab(2)] by (cases "(- d) div a = 0") (simp_all add: sdiv_neg)
qed

lemma ToSeconds_eq: "ToSeconds d = d sdiv 1000000000"
  by (simp add: ToSeconds_def ToMilliseconds_def ToMicroseconds_def ToNanoseconds_def sdiv_sdiv)

lemma int64_SomeD: "int64 v = Some w \<Longrightarrow> w = v \<and> is_int64 v"
  by (simp add: int64_def split: if_splits)

lemma mult_sdiv [simp]: "0 < c \<Longrightarrow> (v * c) sdiv c = (v :: int)"
proof (cases "0 \<le> v")
  case False
  assume c: "0 < c"
  then have "v * c < 0" using False by (simp add: mult_neg_pos)
  then have "(v * c) sdiv c = - (((- v) * c) div c)" using c by (simp add: sdiv_neg)
  also have "((- v) * c) div c = - v" by (rule nonzero_mult_div_cancel_right) (use c in simp)
  finally show ?thesis by simp
qed (simp add: sdiv_pos)

lemma FromSeconds_eq:
  "FromSeconds s = (if is_int64 (s * 1000000000) then Some (s * 1000000000) else None)"
  by (auto simp: FromSeconds_def FromMilliseconds_def FromMicroseconds_def FromNanoseconds_def int64_def is_int64_def
      int64_min_def int64_max_def)

text \<open>
  Converting a number of seconds, milliseconds or microseconds to a duration and back gives
  the number again, whenever the duration is representable at all.
\<close>
theorem TimeDelta_unit_round_trip:
  "(\<forall>d. FromSeconds n = Some d \<longrightarrow> ToSeconds d = n) \<and>
   (\<forall>d. FromMilliseconds n = Some d \<longrightarrow> ToMilliseconds d = n) \<and>
   (\<forall>d. FromMicroseconds n = Some d \<longrightarrow> ToMicroseconds d = n)"
proof (intro conjI allI impI)
  show "ToSeconds d = n" if "FromSeconds n = Some d" for d
    using that by (auto simp: FromSeconds_eq ToSeconds_eq split: if_splits)
  show "ToMilliseconds d = n" if "FromMilliseconds n = Some d" for d
    using that by (auto simp: FromMilliseconds_def FromMicroseconds_def FromNanoseconds_def ToMilliseconds_def
        ToMicroseconds_def ToNanoseconds_def sdiv_sdiv mult.assoc bind_eq_Some_conv dest!: int64_SomeD)
  show "ToMicroseconds d = n" if "FromMicroseconds n = Some d" for d
    using that by (auto simp: FromMicroseconds_def FromNanoseconds_def ToMicroseconds_def ToNanoseconds_def
        dest!: int64_SomeD)
qed

theorem TimeDelta_unit_round_trip_witness:
  "FromSeconds 3 = Some 3000000000 \<and> ToSeconds 3000000000 = 3"
  using TimeDelta_unit_round_trip [of 3] by (simp add: FromSeconds_eq is_int64_def int64_min_def int64_max_def)

text \<open>
  Every duration survives the trip through a \<open>timespec\<close>, negative ones included: the two
  parts have the same sign, the nanoseconds stay below one second, and putting them together
  again never overflows.
\<close>
theorem timespec_round_trip:
  assumes "is_int64 d"
  shows "FromTimespec (ToTimespec d) = Some d \<and> \<bar>tv_nsec (ToTimespec d)\<bar> < 1000000000 \<and>
    (d \<ge> 0 \<longrightarrow> tv_sec (ToTimespec d) \<ge> 0 \<and> tv_nsec (ToTimespec d) \<ge> 0) \<and>
    (d \<le> 0 \<longrightarrow> tv_sec (ToTimespec d) \<le> 0 \<and> tv_nsec (ToTimespec d) \<le> 0)"
proof -
  define q r where "q = d sdiv 1000000000" and "r = d smod 1000000000"
  have d: "q * 1000000000 + r = d" unfolding q_def r_def by (rule sdiv_mult_smod_eq)
  have sgn: "d \<ge> 0 \<Longrightarrow> q \<ge> 0 \<and> r \<ge> 0" "d \<le> 0 \<Longrightarrow> q \<le> 0 \<and> r \<le> 0"
    unfolding q_def r_def
    by (auto simp: signed_divide_int_def signed_modulo_int_def sgn_if pos_imp_zdiv_nonneg_iff)
  have r: "\<bar>r\<bar> < 1000000000" unfolding r_def by (auto simp: signed_modulo_int_def sgn_if abs_mult)
  have "is_int64 (q * 1000000000)"
    using assms d sgn by (cases "0 \<le> d") (auto simp: is_int64_def int64_min_def int64_max_def)
  then have "FromTimespec (ToTimespec d) = Some d"
    using assms d by (simp add: FromTimespec_def ToTimespec_def ToSeconds_eq FromSeconds_eq TimeDelta_plus_def
        FromNanoseconds_def int64_def flip: q_def r_def)
  then show ?thesis
    using sgn r by (simp add: ToTimespec_def ToSeconds_eq flip: q_def r_def)
qed

theorem timespec_round_trip_witness:
  "FromTimespec (ToTimespec (- 1500000000)) = Some (- 1500000000) \<and> \<bar>tv_nsec (ToTimespec (- 1500000000))\<bar> < 1000000000"
proof -
  have "is_int64 (- 1500000000)" by (simp add: is_int64_def int64_min_def int64_max_def)
  from timespec_round_trip [OF this] show ?thesis by blast
qed

end
