(* ===== verification/Http_Session.thy ===== *)
theory Http_Session
  imports Http_Message Wtf_Time "HOL-Library.Multiset"
begin

text \<open>
  The HTTP session of \<^verbatim>\<open>src/net/http_cli/session.h\<close> and \<^verbatim>\<open>src/net/http_cli/session_impl.cpp\<close>: the
  virtual functions of \<open>SessionImpl\<close> are a record of operations on the state of an implementation,
  \<open>SetOption\<close> is the overload that an option selects, and \<open>Get\<close>, \<open>Head\<close> and \<open>Request\<close> set the options
  from left to right and start the request. The locale states what a caller relies on, that options of
  different kinds do not interfere; the implementations interpret it.
\<close>

section \<open>The interface\<close>

datatype 'h http_option =
    UrlOption Url
  | ParametersOption
  | HeaderOption Header
  | TimeoutOption TimeDelta
  | AuthOption
  | DigestOption
  | MethodOption string
  | MultipartOption
  | RedirectOption bool
  | RetriesOption u64
  | MaxRedirectsOption int
  | CookiesOption
  | BodyOption
  | HandlerOption "'h option"

record ('h, 's) SessionImpl =
  SetUrl :: "Url \<Rightarrow> 's \<Rightarrow> (unit, 's) outcome"
  SetParameters :: "'s \<Rightarrow> (unit, 's) outcome"
  SetHandler :: "'h option \<Rightarrow> 's \<Rightarrow> (unit, 's) outcome"
  SetHeader :: "Header \<Rightarrow> 's \<Rightarrow> (unit, 's) outcome"
  SetTimeout :: "TimeDelta \<Rightarrow> 's \<Rightarrow> (unit, 's) outcome"
  SetAuth :: "'s \<Rightarrow> (unit, 's) outcome"
  SetDigest :: "'s \<Rightarrow> (unit, 's) outcome"
  SetMethod :: "string \<Rightarrow> 's \<Rightarrow> (unit, 's) outcome"
  SetMultipart :: "'s \<Rightarrow> (unit, 's) outcome"
  SetRedirect :: "bool \<Rightarrow> 's \<Rightarrow> (unit, 's) outcome"
  SetMaxRedirects :: "int \<Rightarrow> 's \<Rightarrow> (unit, 's) outcome"
  SetCookies :: "'s \<Rightarrow> (unit, 's) outcome"
  SetBody :: "'s \<Rightarrow> (unit, 's) outcome"
  SetRetries :: "u64 \<Rightarrow> 's \<Rightarrow> (unit, 's) outcome"
  SessionImpl_DoRequest :: "'s \<Rightarrow> (unit, 's) outcome"

definition SetOption :: "('h, 's) SessionImpl \<Rightarrow> 'h http_option \<Rightarrow> 's \<Rightarrow> (unit, 's) outcome" where
  "SetOption V opt s =
     (case opt of
        UrlOption u \<Rightarrow> SetUrl V u s
      | ParametersOption \<Rightarrow> SetParameters V s
      | HeaderOption h \<Rightarrow> SetHeader V h s
      | TimeoutOption t \<Rightarrow> SetTimeout V t s
      | AuthOption \<Rightarrow> SetAuth V s
      | DigestOption \<Rightarrow> SetDigest V s
      | MethodOption m \<Rightarrow> SetMethod V m s
      | MultipartOption \<Rightarrow> SetMultipart V s
      | RedirectOption r \<Rightarrow> SetRedirect V r s
      | RetriesOption n \<Rightarrow> SetRetries V n s
      | MaxRedirectsOption n \<Rightarrow> SetMaxRedirects V n s
      | CookiesOption \<Rightarrow> SetCookies V s
      | BodyOption \<Rightarrow> SetBody V s
      | HandlerOption h \<Rightarrow> SetHandler V h s)"

fun SetOptions :: "('h, 's) SessionImpl \<Rightarrow> 'h http_option list \<Rightarrow> 's \<Rightarrow> (unit, 's) outcome" where
  "SetOptions V [] s = Ret () s"
| "SetOptions V (opt # opts) s = andThen (SetOption V opt s) (\<lambda>_ s. SetOptions V opts s)"

definition Session_Get :: "('h, 's) SessionImpl \<Rightarrow> 'h http_option list \<Rightarrow> 's \<Rightarrow> (unit, 's) outcome" where
  "Session_Get V opts s =
     andThen (SetOptions V (MethodOption ''GET'' # opts) s) (\<lambda>_ s. SessionImpl_DoRequest V s)"

definition Session_Head :: "('h, 's) SessionImpl \<Rightarrow> 'h http_option list \<Rightarrow> 's \<Rightarrow> (unit, 's) outcome" where
  "Session_Head V opts s =
     andThen (SetOptions V (MethodOption ''HEAD'' # opts) s) (\<lambda>_ s. SessionImpl_DoRequest V s)"

definition Session_Request :: "('h, 's) SessionImpl \<Rightarrow> 's \<Rightarrow> (unit, 's) outcome" where
  "Session_Request V s = SessionImpl_DoRequest V s"

section \<open>Options of different kinds are independent\<close>

text \<open>The kind of an option: which \<open>SetOption\<close> it selects.\<close>

fun option_kind :: "'h http_option \<Rightarrow> nat" where
  "option_kind (UrlOption _) = 0"
| "option_kind ParametersOption = 1"
| "option_kind (HeaderOption _) = 2"
| "option_kind (TimeoutOption _) = 3"
| "option_kind AuthOption = 4"
| "option_kind DigestOption = 5"
| "option_kind (MethodOption _) = 6"
| "option_kind MultipartOption = 7"
| "option_kind (RedirectOption _) = 8"
| "option_kind (RetriesOption _) = 9"
| "option_kind (MaxRedirectsOption _) = 10"
| "option_kind CookiesOption = 11"
| "option_kind BodyOption = 12"
| "option_kind (HandlerOption _) = 13"

lemma SetOptions_Cons: "SetOptions V (opt # opts) = (\<lambda>s. andThen (SetOption V opt s) (\<lambda>_. SetOptions V opts))"
  by (rule ext) simp

locale independent_options =
  fixes V :: "('h, 's) SessionImpl"
  assumes swap: "option_kind a \<noteq> option_kind b \<Longrightarrow>
    andThen (SetOption V a s) (\<lambda>_ t. SetOption V b t) = andThen (SetOption V b s) (\<lambda>_ t. SetOption V a t)"
begin

lemma move_front:
  "option_kind a \<notin> option_kind ` set xs \<Longrightarrow> SetOptions V (xs @ a # ys) s = SetOptions V (a # xs @ ys) s"
proof (induction xs arbitrary: s)
  case (Cons x xs)
  have "SetOptions V (xs @ a # ys) = SetOptions V (a # xs @ ys)"
    by (rule ext) (use Cons in simp)
  then have "SetOptions V ((x # xs) @ a # ys) s = andThen (SetOption V x s) (\<lambda>_ t. SetOptions V (a # xs @ ys) t)"
    by (simp only: append_Cons SetOptions.simps(2) [of V x])
  also have "\<dots> = andThen (andThen (SetOption V x s) (\<lambda>_ t. SetOption V a t)) (\<lambda>_ t. SetOptions V (xs @ ys) t)"
    by (simp add: andThen_assoc)
  also have "\<dots> = SetOptions V (a # (x # xs) @ ys) s"
    using Cons.prems by (subst swap) (auto simp: andThen_assoc SetOptions_Cons)
  finally show ?case .
qed simp

lemma any_order:
  "mset xs = mset ys \<Longrightarrow> distinct (map option_kind xs) \<Longrightarrow> SetOptions V xs s = SetOptions V ys s"
proof (induction xs arbitrary: ys s)
  case (Cons x xs)
  from Cons.prems(1) have "x \<in> set ys" by (metis list.set_intros(1) mset_eq_setD)
  then obtain as bs where ys: "ys = as @ x # bs" by (meson split_list)
  have m: "mset xs = mset (as @ bs)" using Cons.prems(1) by (simp add: ys)
  have "option_kind x \<notin> option_kind ` set as" using Cons.prems(2) mset_eq_setD [OF m] by auto
  then have "SetOptions V ys s = SetOptions V (x # as @ bs) s" unfolding ys by (rule move_front)
  moreover have "SetOptions V xs = SetOptions V (as @ bs)"
    by (rule ext) (use Cons m in simp)
  ultimately show ?case by simp
qed simp

end

end
