(* ===== verification/Http_Uv.thy ===== *)
theory Http_Uv
  imports Http_Session
begin

text \<open>
  The libuv implementation of the HTTP session, \<^verbatim>\<open>src/net/http_cli/implement/uv/session_impl_uv.cpp\<close>,
  with HTTPS enabled. libuv, http_parser and OpenSSL are parameters: what a call returns, which
  callbacks \<open>http_parser_execute\<close> makes for some data, and the TLS engine with its two memory BIOs as
  an abstract state. A run of \<open>uv_run\<close> is the sequence of the callbacks of the events that occur.
\<close>

section \<open>The libraries\<close>

text \<open>The callbacks of \<open>http_parser\<close>; \<open>parser->status_code\<close> is what \<open>on_status\<close> finds there.\<close>

datatype parser_event =
    on_status string int
  | on_header_field string
  | on_header_value string
  | on_headers_complete
  | on_body string
  | on_message_complete

text \<open>\<open>http_parser_url\<close>: offset and length of each field that is set.\<close>

record http_parser_url =
  UF_SCHEMA :: "(nat \<times> nat) option"
  UF_HOST :: "(nat \<times> nat) option"
  UF_PORT :: "(nat \<times> nat) option"
  UF_PATH :: "(nat \<times> nat) option"
  UF_QUERY :: "(nat \<times> nat) option"
  UF_FRAGMENT :: "(nat \<times> nat) option"
  url_port :: u16

record ('p, 't, 'h) uv_env =
  http_parser_init :: 'p
  http_parser_execute :: "'p \<Rightarrow> string \<Rightarrow> parser_event list \<times> nat \<times> 'p"
  http_parser_parse_url :: "string \<Rightarrow> http_parser_url"
  uv_getaddrinfo :: "string \<Rightarrow> string \<Rightarrow> int"
  uv_tcp_connect :: int
  uv_write :: "string \<Rightarrow> int"
  SSL_new :: 't
  SSL_do_handshake :: "'t \<Rightarrow> int \<times> 't"
  SSL_connect :: "'t \<Rightarrow> int \<times> 't"
  SSL_is_init_finished :: "'t \<Rightarrow> bool"
  SSL_get_error :: "'t \<Rightarrow> int \<Rightarrow> int"
  SSL_read :: "'t \<Rightarrow> nat \<Rightarrow> int \<times> string \<times> 't"
  SSL_write :: "'t \<Rightarrow> string \<Rightarrow> int \<times> 't"
  BIO_write :: "'t \<Rightarrow> string \<Rightarrow> 't"
  BIO_read :: "'t \<Rightarrow> nat \<Rightarrow> int \<times> string \<times> 't"
  BIO_pending :: "'t \<Rightarrow> nat"
  handler :: "'h \<Rightarrow> Response \<Rightarrow> Response"

definition SSL_ERROR_WANT_READ :: int where
  "SSL_ERROR_WANT_READ = 2"

section \<open>The session\<close>

text \<open>
  The members of \<open>SessionImplUV\<close>. \<open>resolver_data\<close>, \<open>connReq_data\<close> and \<open>socket_data\<close> say whether the
  \<open>data\<close> pointer of the libuv object is set, \<open>parser_m\<close> and \<open>ssl_m\<close> are absent before \<open>DoInit\<close>. The
  last fields are the session's activities in the loop, the buffers handed to \<open>uv_write\<close>, and the
  responses passed to the application.
\<close>

record ('p, 't, 'h) http_uv =
  field_m :: string
  request_m :: Request
  bodyStream_m :: string
  response_m :: Response
  responseHandler_m :: "'h option"
  ssl_m :: "'t option"
  loop_m :: bool
  resolver_data :: bool
  connReq_data :: bool
  socket_data :: bool
  parser_m :: "'p option"
  resolving :: bool
  connecting :: bool
  reading :: bool
  written :: "string list"
  delivered :: "Response list"

definition HttpUV_new :: "('p, 't, 'h) http_uv" where
  "HttpUV_new =
     \<lparr>field_m = '''', request_m = Request_new, bodyStream_m = '''', response_m = Response_new,
      responseHandler_m = None, ssl_m = None, loop_m = False, resolver_data = False, connReq_data = False,
      socket_data = False, parser_m = None, resolving = False, connecting = False, reading = False,
      written = [], delivered = []\<rparr>"

definition HttpUV_DoInit :: "('p, 't, 'h) uv_env \<Rightarrow> ('p, 't, 'h) http_uv \<Rightarrow> (int, ('p, 't, 'h) http_uv) outcome" where
  "HttpUV_DoInit E s =
     Ret 0 (s\<lparr>loop_m := True, parser_m := Some (http_parser_init E), ssl_m := Some (SSL_new E)\<rparr>)"

text \<open>OpenSSL is told that every certificate chain is fine.\<close>

definition dummy_ssl_verify_callback :: "int \<Rightarrow> int" where
  "dummy_ssl_verify_callback ok = 1"

section \<open>Setters\<close>

definition url_part :: "string \<Rightarrow> nat \<times> nat \<Rightarrow> string" where
  "url_part buf p = take (snd p) (drop (fst p) buf)"

definition parsed_url :: "('p, 't, 'h) uv_env \<Rightarrow> Url \<Rightarrow> Url" where
  "parsed_url E u =
     (let buf = url_text u;
          parserUrl = http_parser_parse_url E buf;
          u = (case UF_SCHEMA parserUrl of Some p \<Rightarrow> u\<lparr>schema := url_part buf p\<rparr> | None \<Rightarrow> u);
          u = (case UF_HOST parserUrl of Some p \<Rightarrow> u\<lparr>host := url_part buf p\<rparr> | None \<Rightarrow> u);
          u = (case UF_PORT parserUrl of
                 Some p \<Rightarrow> u\<lparr>port := Some (int (unat (url_port parserUrl)))\<rparr>
               | None \<Rightarrow> u\<lparr>port := Some (if schema u = ''http'' then 80 else 443)\<rparr>);
          u = (case UF_PATH parserUrl of Some p \<Rightarrow> u\<lparr>path := url_part buf p\<rparr> | None \<Rightarrow> u);
          u = (case UF_QUERY parserUrl of Some p \<Rightarrow> u\<lparr>query := url_part buf p\<rparr> | None \<Rightarrow> u)
      in case UF_FRAGMENT parserUrl of Some p \<Rightarrow> u\<lparr>fragment := url_part buf p\<rparr> | None \<Rightarrow> u)"

definition HttpUV_SetUrl ::
  "('p, 't, 'h) uv_env \<Rightarrow> Url \<Rightarrow> ('p, 't, 'h) http_uv \<Rightarrow> (unit, ('p, 't, 'h) http_uv) outcome" where
  "HttpUV_SetUrl E u s = Ret () (s\<lparr>request_m := (request_m s)\<lparr>req_url := parsed_url E u\<rparr>\<rparr>)"

definition HttpUV_SetHandler :: "'h option \<Rightarrow> ('p, 't, 'h) http_uv \<Rightarrow> (unit, ('p, 't, 'h) http_uv) outcome" where
  "HttpUV_SetHandler onResponse s = Ret () (s\<lparr>responseHandler_m := onResponse\<rparr>)"

definition HttpUV_SetMethod :: "string \<Rightarrow> ('p, 't, 'h) http_uv \<Rightarrow> (unit, ('p, 't, 'h) http_uv) outcome" where
  "HttpUV_SetMethod m s = Ret () (s\<lparr>request_m := (request_m s)\<lparr>req_method := m\<rparr>\<rparr>)"

section \<open>Writing\<close>

definition HttpUV_Write :: "('p, 't, 'h) uv_env \<Rightarrow> string \<Rightarrow> ('p, 't, 'h) http_uv \<Rightarrow> ('p, 't, 'h) http_uv" where
  "HttpUV_Write E buffer s =
     (let r = uv_write E buffer in if r < 0 then s else s\<lparr>written := written s @ [buffer]\<rparr>)"

fun flush_loop_bio ::
  "('p, 't, 'h) uv_env \<Rightarrow> nat \<Rightarrow> ('p, 't, 'h) http_uv \<Rightarrow> (unit, ('p, 't, 'h) http_uv) outcome" where
  "flush_loop_bio E 0 s = Fault OutOfFuel"
| "flush_loop_bio E (Suc n) s =
     (case ssl_m s of
        None \<Rightarrow> Fault NullDeref
      | Some t \<Rightarrow>
          (let (bytes_read, buf, t) = BIO_read E t (1024 * 16);
               s = s\<lparr>ssl_m := Some t\<rparr>
           in if bytes_read > 0 then flush_loop_bio E n (HttpUV_Write E buf s) else Ret () s))"

definition FlushReadBio ::
  "('p, 't, 'h) uv_env \<Rightarrow> ('p, 't, 'h) http_uv \<Rightarrow> (unit, ('p, 't, 'h) http_uv) outcome" where
  "FlushReadBio E s =
     flush_loop_bio E (case ssl_m s of None \<Rightarrow> 1 | Some t \<Rightarrow> Suc (BIO_pending E t)) s"

definition HandleError ::
  "('p, 't, 'h) uv_env \<Rightarrow> int \<Rightarrow> ('p, 't, 'h) http_uv \<Rightarrow> (unit, ('p, 't, 'h) http_uv) outcome" where
  "HandleError E result s =
     (case ssl_m s of
        None \<Rightarrow> Fault NullDeref
      | Some t \<Rightarrow>
          if SSL_get_error E t result = SSL_ERROR_WANT_READ then FlushReadBio E s else Fault CheckFailed)"

section \<open>The callbacks of the parser\<close>

definition OnRecvBody :: "string \<Rightarrow> ('p, 't, 'h) http_uv \<Rightarrow> int \<times> ('p, 't, 'h) http_uv" where
  "OnRecvBody p s = (0, s\<lparr>bodyStream_m := bodyStream_m s @ p\<rparr>)"

definition OnHttpParserBody :: "string \<Rightarrow> ('p, 't, 'h) http_uv \<Rightarrow> (int, ('p, 't, 'h) http_uv) outcome" where
  "OnHttpParserBody p s =
     wtf_check (parser_m s \<noteq> None) (let (rc, s) = OnRecvBody p s in Ret rc s)"

definition OnHttpParserMessageComplete :: "('p, 't, 'h) http_uv \<Rightarrow> (int, ('p, 't, 'h) http_uv) outcome" where
  "OnHttpParserMessageComplete s = wtf_check (parser_m s \<noteq> None) (Ret 0 s)"

definition OnHttpParserHeaderComplete :: "('p, 't, 'h) http_uv \<Rightarrow> (int, ('p, 't, 'h) http_uv) outcome" where
  "OnHttpParserHeaderComplete s = wtf_check (parser_m s \<noteq> None) (Ret 0 s)"

definition OnHttpParserHeaderField :: "string \<Rightarrow> ('p, 't, 'h) http_uv \<Rightarrow> (int, ('p, 't, 'h) http_uv) outcome" where
  "OnHttpParserHeaderField field s = wtf_check (parser_m s \<noteq> None) (Ret 0 (s\<lparr>field_m := field\<rparr>))"

text \<open>\<open>insert_or_assign\<close> moves its key into a new entry and leaves it alone when it assigns.\<close>

definition OnHttpParserHeaderValue :: "string \<Rightarrow> ('p, 't, 'h) http_uv \<Rightarrow> (int, ('p, 't, 'h) http_uv) outcome" where
  "OnHttpParserHeaderValue val s =
     wtf_check (parser_m s \<noteq> None)
       (let hs = req_header (request_m s);
            moved = map_find CaseInsensitiveCompare (field_m s) hs = None;
            s = s\<lparr>request_m := (request_m s)\<lparr>req_header := insert_or_assign CaseInsensitiveCompare (field_m s) val hs\<rparr>\<rparr>;
            s = s\<lparr>field_m := (if moved then '''' else field_m s)\<rparr>
        in Ret 0 s)"

definition OnHttpParserStatus ::
  "string \<Rightarrow> int \<Rightarrow> ('p, 't, 'h) http_uv \<Rightarrow> (int, ('p, 't, 'h) http_uv) outcome" where
  "OnHttpParserStatus text code s =
     wtf_check (parser_m s \<noteq> None)
       (Ret 0 (s\<lparr>response_m := (response_m s)\<lparr>status := text, statusCode := code\<rparr>\<rparr>))"

definition parser_callback :: "parser_event \<Rightarrow> ('p, 't, 'h) http_uv \<Rightarrow> (int, ('p, 't, 'h) http_uv) outcome" where
  "parser_callback ev s =
     (case ev of
        on_status t c \<Rightarrow> OnHttpParserStatus t c s
      | on_header_field f \<Rightarrow> OnHttpParserHeaderField f s
      | on_header_value v \<Rightarrow> OnHttpParserHeaderValue v s
      | on_headers_complete \<Rightarrow> OnHttpParserHeaderComplete s
      | on_body p \<Rightarrow> OnHttpParserBody p s
      | on_message_complete \<Rightarrow> OnHttpParserMessageComplete s)"

fun parser_callbacks :: "parser_event list \<Rightarrow> ('p, 't, 'h) http_uv \<Rightarrow> (unit, ('p, 't, 'h) http_uv) outcome" where
  "parser_callbacks [] s = Ret () s"
| "parser_callbacks (ev # evs) s = andThen (parser_callback ev s) (\<lambda>_ s. parser_callbacks evs s)"

text \<open>\<open>http_parser_execute\<close> with the session's settings: the number of bytes it took.\<close>

definition execute_parser ::
  "('p, 't, 'h) uv_env \<Rightarrow> string \<Rightarrow> ('p, 't, 'h) http_uv \<Rightarrow> (nat, ('p, 't, 'h) http_uv) outcome" where
  "execute_parser E data s =
     (case parser_m s of
        None \<Rightarrow> Fault UndefinedValue
      | Some p \<Rightarrow>
          (let (evs, nparsed, p') = http_parser_execute E p data
           in andThen (parser_callbacks evs s) (\<lambda>_ s. Ret nparsed (s\<lparr>parser_m := Some p'\<rparr>))))"

section \<open>The callbacks of the loop\<close>

definition OnResponse :: "('p, 't, 'h) uv_env \<Rightarrow> ('p, 't, 'h) http_uv \<Rightarrow> ('p, 't, 'h) http_uv" where
  "OnResponse E s =
     (case responseHandler_m s of
        None \<Rightarrow> s
      | Some h \<Rightarrow> s\<lparr>delivered := delivered s @ [response_m s], response_m := handler E h (response_m s)\<rparr>)"

definition OnRecvComplete :: "('p, 't, 'h) uv_env \<Rightarrow> ('p, 't, 'h) http_uv \<Rightarrow> int \<times> ('p, 't, 'h) http_uv" where
  "OnRecvComplete E s =
     (let s = s\<lparr>response_m := (response_m s)\<lparr>body := bodyStream_m s\<rparr>\<rparr>;
          s = s\<lparr>response_m := (response_m s)\<lparr>res_url := req_url (request_m s)\<rparr>,
                request_m := (request_m s)\<lparr>req_url := Url_moved_from (req_url (request_m s))\<rparr>\<rparr>;
          s = s\<lparr>response_m := (response_m s)\<lparr>res_header := req_header (request_m s)\<rparr>,
                request_m := (request_m s)\<lparr>req_header := []\<rparr>\<rparr>
      in (0, OnResponse E s))"

definition ReadFromSSL ::
  "('p, 't, 'h) uv_env \<Rightarrow> string \<Rightarrow> ('p, 't, 'h) http_uv \<Rightarrow> (unit, ('p, 't, 'h) http_uv) outcome" where
  "ReadFromSSL E buf s =
     (case ssl_m s of
        None \<Rightarrow> Fault NullDeref
      | Some t \<Rightarrow>
          (let t = BIO_write E t buf in
           if \<not> SSL_is_init_finished E t then
             (let (ret, t) = SSL_connect E t; s = s\<lparr>ssl_m := Some t\<rparr> in
              if ret < 0 then HandleError E ret s
              else
                (let s = s\<lparr>request_m := PreparePayload (request_m s)\<rparr>;
                     (ret, t) = SSL_write E t (raw (request_m s));
                     s = s\<lparr>ssl_m := Some t\<rparr>
                 in andThen (if ret \<le> 0 then HandleError E ret s else Ret () s) (\<lambda>_ s. FlushReadBio E s)))
           else
             (let (size, ssl_buff, t) = SSL_read E t (length buf); s = s\<lparr>ssl_m := Some t\<rparr> in
              if size = -1 then Ret () s
              else if size < 0 then Fault OutOfBounds
              else
                andThen (execute_parser E ssl_buff s) (\<lambda>nparsed s.
                  wtf_check (int nparsed = size) (Ret () s)))))"

definition HttpUV_OnConnect ::
  "('p, 't, 'h) uv_env \<Rightarrow> int \<Rightarrow> ('p, 't, 'h) http_uv \<Rightarrow> (unit, ('p, 't, 'h) http_uv) outcome" where
  "HttpUV_OnConnect E st s =
     wtf_check (connReq_data s)
       (let s = s\<lparr>reading := (st \<ge> 0)\<rparr> in
        if IsHttps (req_url (request_m s)) then
          (case ssl_m s of
             None \<Rightarrow> Fault NullDeref
           | Some t \<Rightarrow>
               (let (ret, t) = SSL_do_handshake E t; s = s\<lparr>ssl_m := Some t\<rparr>
                in if ret < 0 then HandleError E ret s else Ret () s))
        else
          (let s = s\<lparr>request_m := PreparePayload (request_m s)\<rparr>
           in Ret () (HttpUV_Write E (raw (request_m s)) s)))"

text \<open>Without an error or the end of the stream \<open>nread\<close> is the number of bytes in \<open>buf\<close>.\<close>

definition HttpUV_OnRead ::
  "('p, 't, 'h) uv_env \<Rightarrow> int \<Rightarrow> string \<Rightarrow> ('p, 't, 'h) http_uv \<Rightarrow> (unit, ('p, 't, 'h) http_uv) outcome" where
  "HttpUV_OnRead E nread buf s =
     wtf_check (socket_data s)
       (if nread > 0 then
          if IsHttps (req_url (request_m s)) then ReadFromSSL E buf s
          else
            andThen (execute_parser E buf s) (\<lambda>nparsed s. wtf_check (int nparsed = nread) (Ret () s))
        else (let (rc, s) = OnRecvComplete E s in Ret () (s\<lparr>reading := False\<rparr>)))"

definition HttpUV_Connect ::
  "('p, 't, 'h) uv_env \<Rightarrow> ('p, 't, 'h) http_uv \<Rightarrow> int \<times> ('p, 't, 'h) http_uv" where
  "HttpUV_Connect E s =
     (let s = s\<lparr>socket_data := True\<rparr>;
          s = s\<lparr>connReq_data := True\<rparr>
      in (0, s\<lparr>connecting := (uv_tcp_connect E = 0)\<rparr>))"

definition HttpUV_OnResolved ::
  "('p, 't, 'h) uv_env \<Rightarrow> int \<Rightarrow> ('p, 't, 'h) http_uv \<Rightarrow> (unit, ('p, 't, 'h) http_uv) outcome" where
  "HttpUV_OnResolved E st s =
     wtf_check (resolver_data s)
       (if st < 0 then Ret () s else (let (rc, s) = HttpUV_Connect E s in Ret () s))"

definition HttpUV_Resolve ::
  "('p, 't, 'h) uv_env \<Rightarrow> ('p, 't, 'h) http_uv \<Rightarrow> (int, ('p, 't, 'h) http_uv) outcome" where
  "HttpUV_Resolve E s =
     (let s = s\<lparr>resolver_data := True\<rparr> in
      if \<not> loop_m s then Fault NullDeref
      else
        case port (req_url (request_m s)) of
          None \<Rightarrow> Fault IndeterminateRead
        | Some p \<Rightarrow>
            (let r = uv_getaddrinfo E (c_str (host (req_url (request_m s)))) (dec_int p)
             in if r \<noteq> 0 then Ret 1 s else Ret 0 (s\<lparr>resolving := True\<rparr>)))"

section \<open>The loop\<close>

text \<open>
  An event is a completed name resolution, a completed connection attempt, some bytes or, with a
  status of at most zero, no bytes. A request is reported once, and bytes for a socket that is read.
\<close>

datatype uv_event = Resolved int | Connected int | ReadBytes string | ReadStatus int

definition uv_enabled :: "('p, 't, 'h) http_uv \<Rightarrow> uv_event \<Rightarrow> bool" where
  "uv_enabled s ev =
     (case ev of
        Resolved st \<Rightarrow> resolving s
      | Connected st \<Rightarrow> connecting s
      | ReadBytes d \<Rightarrow> reading s \<and> d \<noteq> []
      | ReadStatus st \<Rightarrow> reading s \<and> st \<le> 0)"

definition uv_callback ::
  "('p, 't, 'h) uv_env \<Rightarrow> uv_event \<Rightarrow> ('p, 't, 'h) http_uv \<Rightarrow> (unit, ('p, 't, 'h) http_uv) outcome" where
  "uv_callback E ev s =
     (case ev of
        Resolved st \<Rightarrow> HttpUV_OnResolved E st (s\<lparr>resolving := False\<rparr>)
      | Connected st \<Rightarrow> HttpUV_OnConnect E st (s\<lparr>connecting := False\<rparr>)
      | ReadBytes d \<Rightarrow> HttpUV_OnRead E (int (length d)) d s
      | ReadStatus st \<Rightarrow> HttpUV_OnRead E st '''' s)"

fun uv_run :: "('p, 't, 'h) uv_env \<Rightarrow> uv_event list \<Rightarrow> ('p, 't, 'h) http_uv \<Rightarrow> (unit, ('p, 't, 'h) http_uv) outcome" where
  "uv_run E [] s = Ret () s"
| "uv_run E (ev # evs) s =
     (if uv_enabled s ev then andThen (uv_callback E ev s) (\<lambda>_ s. uv_run E evs s) else uv_run E evs s)"

definition HttpUV_DoRequest ::
  "('p, 't, 'h) uv_env \<Rightarrow> uv_event list \<Rightarrow> ('p, 't, 'h) http_uv \<Rightarrow> (unit, ('p, 't, 'h) http_uv) outcome" where
  "HttpUV_DoRequest E evs s = andThen (HttpUV_Resolve E s) (\<lambda>_ s. uv_run E evs s)"

text \<open>The virtual functions; the setters without effect have an empty body in the source.\<close>

definition HttpUV ::
  "('p, 't, 'h) uv_env \<Rightarrow> uv_event list \<Rightarrow> ('h, ('p, 't, 'h) http_uv) SessionImpl" where
  "HttpUV E evs =
     \<lparr>SetUrl = HttpUV_SetUrl E, SetParameters = Ret (), SetHandler = HttpUV_SetHandler,
      SetHeader = (\<lambda>_. Ret ()), SetTimeout = (\<lambda>_. Ret ()), SetAuth = Ret (), SetDigest = Ret (),
      SetMethod = HttpUV_SetMethod, SetMultipart = Ret (), SetRedirect = (\<lambda>_. Ret ()),
      SetMaxRedirects = (\<lambda>_. Ret ()), SetCookies = Ret (), SetBody = Ret (), SetRetries = (\<lambda>_. Ret ()),
      SessionImpl_DoRequest = HttpUV_DoRequest E evs\<rparr>"

section \<open>Options\<close>

lemmas HttpUV_setters =
  SetOption_def HttpUV_def HttpUV_SetUrl_def HttpUV_SetHandler_def HttpUV_SetMethod_def

lemma HttpUV_swap:
  "option_kind a \<noteq> option_kind b \<Longrightarrow>
   andThen (SetOption (HttpUV E evs) a s) (\<lambda>_ t. SetOption (HttpUV E evs) b t) =
   andThen (SetOption (HttpUV E evs) b s) (\<lambda>_ t. SetOption (HttpUV E evs) a t)"
  by (cases a; cases b) (simp_all add: HttpUV_setters)

interpretation uv_opts: independent_options "HttpUV E evs" for E evs
  by unfold_locales (rule HttpUV_swap)

section \<open>What the parser's callbacks do\<close>

text \<open>With an initialised parser no callback fails, so the callbacks are a function on sessions.\<close>

definition absorb :: "parser_event \<Rightarrow> ('p, 't, 'h) http_uv \<Rightarrow> ('p, 't, 'h) http_uv" where
  "absorb ev s = (case parser_callback ev s of Ret rc t \<Rightarrow> t | Fault e \<Rightarrow> s)"

lemmas parser_callback_defs =
  parser_callback_def OnHttpParserStatus_def OnHttpParserHeaderField_def OnHttpParserHeaderValue_def
  OnHttpParserHeaderComplete_def OnHttpParserBody_def OnHttpParserMessageComplete_def OnRecvBody_def Let_def

text \<open>What the callbacks leave alone.\<close>

definition http_version :: "Request \<Rightarrow> u16 \<times> u16" where
  "http_version r = (httpMajor r, httpMinor r)"

definition rest_of :: "('p, 't, 'h) http_uv \<Rightarrow> _" where
  "rest_of s = (responseHandler_m s, ssl_m s, loop_m s, resolver_data s, connReq_data s, socket_data s, resolving s,
     connecting s, reading s, written s, delivered s, req_url (request_m s), req_method (request_m s), http_version (request_m s))"

lemma parser_callback_absorb:
  "parser_m s \<noteq> None \<Longrightarrow> parser_callback ev s = Ret 0 (absorb ev s)"
  by (cases ev) (auto simp: absorb_def parser_callback_defs)

lemma absorb_frame: "parser_m (absorb ev s) = parser_m s" "rest_of (absorb ev s) = rest_of s"
  by (cases ev; simp add: absorb_def parser_callback_defs rest_of_def wtf_check_def http_version_def)+

lemma parser_callbacks_fold:
  "parser_m s \<noteq> None \<Longrightarrow> parser_callbacks evs s = Ret () (fold absorb evs s)"
  by (induction evs arbitrary: s) (simp_all add: parser_callback_absorb absorb_frame)

lemma fold_absorb_frame: "parser_m (fold absorb evs s) = parser_m s" "rest_of (fold absorb evs s) = rest_of s"
  by (induction evs arbitrary: s) (simp_all add: absorb_frame)

section \<open>The message of a stream\<close>

record http_message =
  msg_code :: int
  msg_reason :: string
  msg_fields :: "(string \<times> string) list"
  msg_chunks :: "string list"

definition message_events :: "http_message \<Rightarrow> parser_event list" where
  "message_events m =
     on_status (msg_reason m) (msg_code m) #
     concat (map (\<lambda>(f, v). [on_header_field f, on_header_value v]) (msg_fields m)) @
     on_headers_complete # map on_body (msg_chunks m)"

definition field_map :: "(string \<times> string) list \<Rightarrow> Header" where
  "field_map fs = foldl (\<lambda>h (f, v). insert_or_assign CaseInsensitiveCompare f v h) [] fs"

lemma absorb_fields:
  assumes "parser_m s \<noteq> None"
  shows "let t = fold absorb (concat (map (\<lambda>(f, v). [on_header_field f, on_header_value v]) fs)) s in
    req_header (request_m t) =
      foldl (\<lambda>h (f, v). insert_or_assign CaseInsensitiveCompare f v h) (req_header (request_m s)) fs \<and>
    response_m t = response_m s \<and> bodyStream_m t = bodyStream_m s"
  using assms
proof (induction fs arbitrary: s)
  case (Cons p fs)
  obtain f v where p: "p = (f, v)" by force
  let ?t = "absorb (on_header_value v) (absorb (on_header_field f) s)"
  have "parser_m ?t \<noteq> None" using Cons.prems by (simp add: absorb_frame)
  moreover have "req_header (request_m ?t) = insert_or_assign CaseInsensitiveCompare f v (req_header (request_m s))"
    "response_m ?t = response_m s" "bodyStream_m ?t = bodyStream_m s"
    using Cons.prems by (simp_all add: absorb_def parser_callback_defs)
  ultimately show ?case using Cons.IH [of ?t] by (simp add: p Let_def)
qed simp

lemma absorb_chunks:
  assumes "parser_m s \<noteq> None"
  shows "let t = fold absorb (map on_body cs) s in
    bodyStream_m t = bodyStream_m s @ concat cs \<and> response_m t = response_m s \<and> request_m t = request_m s"
  using assms
proof (induction cs arbitrary: s)
  case (Cons c cs)
  let ?t = "absorb (on_body c) s"
  have "parser_m ?t \<noteq> None" using Cons.prems by (simp add: absorb_frame)
  moreover have "bodyStream_m ?t = bodyStream_m s @ c" "response_m ?t = response_m s" "request_m ?t = request_m s"
    using Cons.prems by (simp_all add: absorb_def parser_callback_defs)
  ultimately show ?case using Cons.IH [of ?t] by (simp add: Let_def)
qed simp

definition message_end :: "bool \<Rightarrow> parser_event list" where
  "message_end finished = (if finished then [on_message_complete] else [])"

lemma absorb_message:
  assumes "parser_m s \<noteq> None" "req_header (request_m s) = []"
  shows "let t = fold absorb (message_events m @ message_end finished) s in
    req_header (request_m t) = field_map (msg_fields m) \<and>
    response_m t = (response_m s)\<lparr>status := msg_reason m, statusCode := msg_code m\<rparr> \<and>
    bodyStream_m t = bodyStream_m s @ concat (msg_chunks m)"
proof -
  let ?a = "absorb (on_status (msg_reason m) (msg_code m)) s"
  let ?b = "fold absorb (concat (map (\<lambda>(f, v). [on_header_field f, on_header_value v]) (msg_fields m))) ?a"
  let ?c = "absorb on_headers_complete ?b"
  let ?d = "fold absorb (map on_body (msg_chunks m)) ?c"
  have a: "parser_m ?a \<noteq> None" "bodyStream_m ?a = bodyStream_m s" "request_m ?a = request_m s"
    "response_m ?a = (response_m s)\<lparr>status := msg_reason m, statusCode := msg_code m\<rparr>"
    using assms by (simp_all add: absorb_def parser_callback_defs)
  have b: "parser_m ?b \<noteq> None" using a(1) by (simp add: fold_absorb_frame)
  then have c: "?c = ?b" by (simp add: absorb_def parser_callback_defs)
  have "parser_m ?d \<noteq> None" using b by (simp add: fold_absorb_frame absorb_frame)
  then have d: "fold absorb (message_end finished) ?d = ?d"
    by (simp add: message_end_def absorb_def parser_callback_defs)
  have "parser_m ?c \<noteq> None" using b c by simp
  from absorb_chunks [OF this, of "msg_chunks m"] absorb_fields [OF a(1), of "msg_fields m"] a c d
  show ?thesis
    using assms(2) by (simp add: message_events_def field_map_def Let_def)
qed

text \<open>The callbacks for the data of several reads, if the parser takes all of it.\<close>

fun parse_chunks :: "('p, 't, 'h) uv_env \<Rightarrow> 'p \<Rightarrow> string list \<Rightarrow> (parser_event list \<times> 'p) option" where
  "parse_chunks E p [] = Some ([], p)"
| "parse_chunks E p (d # ds) =
     (let (evs, nparsed, p') = http_parser_execute E p d
      in if nparsed = length d then map_option (apfst ((@) evs)) (parse_chunks E p' ds) else None)"

definition plain_reading :: "'p \<Rightarrow> ('p, 't, 'h) http_uv \<Rightarrow> bool" where
  "plain_reading p s \<longleftrightarrow> parser_m s = Some p \<and> reading s \<and> socket_data s \<and> \<not> IsHttps (req_url (request_m s))"

lemma plain_reading_absorb:
  "plain_reading p s \<Longrightarrow> plain_reading p' ((fold absorb evs s)\<lparr>parser_m := Some p'\<rparr>)"
  using fold_absorb_frame(2) [of evs s] by (simp add: plain_reading_def rest_of_def)

lemma fold_absorb_parser:
  "parser_m s \<noteq> None \<Longrightarrow> fold absorb evs (s\<lparr>parser_m := Some p\<rparr>) = (fold absorb evs s)\<lparr>parser_m := Some p\<rparr>"
proof (induction evs arbitrary: s)
  case (Cons ev evs)
  have "absorb ev (s\<lparr>parser_m := Some p\<rparr>) = (absorb ev s)\<lparr>parser_m := Some p\<rparr>"
    using Cons.prems by (cases ev) (auto simp: absorb_def parser_callback_defs)
  then show ?case using Cons by (simp add: absorb_frame)
qed simp

lemma uv_run_reads:
  assumes "parse_chunks E p ds = Some (evs, p')" "[] \<notin> set ds" "plain_reading p s"
  shows "uv_run E (map ReadBytes ds @ rest) s = uv_run E rest ((fold absorb evs s)\<lparr>parser_m := Some p'\<rparr>)"
  using assms
proof (induction ds arbitrary: p evs s)
  case (Cons d ds)
  obtain e n q where x: "http_parser_execute E p d = (e, n, q)" by (metis prod_cases3)
  with Cons.prems obtain es where es: "n = length d" "parse_chunks E q ds = Some (es, p')" "evs = e @ es"
    by (auto simp: Let_def split: if_splits)
  let ?s = "(fold absorb e s)\<lparr>parser_m := Some q\<rparr>"
  have p: "parser_m s = Some p" "reading s" "socket_data s" "\<not> IsHttps (req_url (request_m s))"
    using Cons.prems by (simp_all add: plain_reading_def)
  have "uv_run E (map ReadBytes (d # ds) @ rest) s = uv_run E (map ReadBytes ds @ rest) ?s"
    using p x es Cons.prems(2)
    by (auto simp: uv_enabled_def uv_callback_def HttpUV_OnRead_def execute_parser_def parser_callbacks_fold)
  also have "\<dots> = uv_run E rest ((fold absorb es ?s)\<lparr>parser_m := Some p'\<rparr>)"
    using Cons.IH [OF es(2) _ plain_reading_absorb [OF Cons.prems(3)]] Cons.prems(2) by simp
  also have "fold absorb es ?s = (fold absorb es (fold absorb e s))\<lparr>parser_m := Some q\<rparr>"
    using p(1) by (intro fold_absorb_parser) (simp add: fold_absorb_frame)
  finally show ?case by (simp add: es(3))
next
  case Nil
  then have "s\<lparr>parser_m := Some p'\<rparr> = s" by (cases s) (simp add: plain_reading_def)
  with Nil show ?case by simp
qed

section \<open>A plain request\<close>

text \<open>A session that is initialised, has a handler and a URL, and is not in the middle of a request.\<close>

definition ready :: "'p \<Rightarrow> 'h \<Rightarrow> ('p, 't, 'h) http_uv \<Rightarrow> bool" where
  "ready p h s \<longleftrightarrow> loop_m s \<and> parser_m s = Some p \<and> responseHandler_m s = Some h \<and>
     \<not> resolving s \<and> \<not> connecting s \<and> \<not> reading s \<and> req_header (request_m s) = []"

text \<open>What a server's answer to one request looks like to the loop.\<close>

definition exchange :: "string list \<Rightarrow> int \<Rightarrow> uv_event list" where
  "exchange ds st = [Resolved 0, Connected 0] @ map ReadBytes ds @ [ReadStatus st]"

definition reachable_server :: "('p, 't, 'h) uv_env \<Rightarrow> Request \<Rightarrow> bool" where
  "reachable_server E r \<longleftrightarrow> \<not> IsHttps (req_url r) \<and> uv_tcp_connect E = 0 \<and> uv_write E (raw (PreparePayload r)) \<ge> 0 \<and>
     (\<exists>n. port (req_url r) = Some n \<and> uv_getaddrinfo E (c_str (host (req_url r))) (dec_int n) = 0)"

lemma PreparePayload_frame:
  "req_url (PreparePayload r) = req_url r" "req_header (PreparePayload r) = req_header r"
  "http_version (PreparePayload r) = http_version r"
proof -
  have f: "req_url (foldl (\<lambda>r (n, v). r\<lparr>raw := g r n v\<rparr>) r fs) = req_url r"
    "req_header (foldl (\<lambda>r (n, v). r\<lparr>raw := g r n v\<rparr>) r fs) = req_header r"
    "httpMajor (foldl (\<lambda>r (n, v). r\<lparr>raw := g r n v\<rparr>) r fs) = httpMajor r"
    "httpMinor (foldl (\<lambda>r (n, v). r\<lparr>raw := g r n v\<rparr>) r fs) = httpMinor r" for g and r :: Request and fs
    by (induction fs arbitrary: r) auto
  show "req_url (PreparePayload r) = req_url r" "req_header (PreparePayload r) = req_header r"
    "http_version (PreparePayload r) = http_version r"
    by (simp_all add: PreparePayload_def Let_def f http_version_def)
qed

lemma reachable_server_cong:
  assumes "req_url r = req_url q" "req_method r = req_method q" "http_version r = http_version q" "req_header r = req_header q"
  shows "reachable_server E r = reachable_server E q"
  using assms by (simp add: reachable_server_def raw_PreparePayload_fields http_version_def)

lemma DoRequest_reads:
  assumes "ready p h s" "reachable_server E (request_m s)"
  shows "HttpUV_DoRequest E ([Resolved 0, Connected 0] @ rest) s =
    uv_run E rest (s\<lparr>resolver_data := True, resolving := False, socket_data := True, connReq_data := True,
      connecting := False, reading := True, request_m := PreparePayload (request_m s), written := written s @ [raw (PreparePayload (request_m s))]\<rparr>)"
proof -
  obtain n where "port (req_url (request_m s)) = Some n"
    "uv_getaddrinfo E (c_str (host (req_url (request_m s)))) (dec_int n) = 0"
    using assms(2) by (auto simp: reachable_server_def)
  with assms show ?thesis
    by (simp add: HttpUV_DoRequest_def HttpUV_Resolve_def ready_def reachable_server_def uv_enabled_def uv_callback_def
        HttpUV_OnResolved_def HttpUV_Connect_def HttpUV_OnConnect_def HttpUV_Write_def Let_def)
qed

lemma DoRequest_delivers:
  assumes "ready p h s" "reachable_server E (request_m s)" "st \<le> 0" "[] \<notin> set ds"
    and "parse_chunks E p ds = Some (message_events m @ message_end finished, p')"
  defines "r \<equiv> (response_m s)\<lparr>status := msg_reason m, statusCode := msg_code m,
      body := bodyStream_m s @ concat (msg_chunks m), res_url := req_url (request_m s),
      res_header := field_map (msg_fields m)\<rparr>"
  shows "\<exists>t. HttpUV_DoRequest E (exchange ds st) s = Ret () t \<and> delivered t = delivered s @ [r] \<and>
    written t = written s @ [raw (PreparePayload (request_m s))] \<and> ready p' h t \<and>
    bodyStream_m t = bodyStream_m s @ concat (msg_chunks m) \<and> http_version (request_m t) = http_version (request_m s)"
proof -
  let ?s = "s\<lparr>resolver_data := True, resolving := False, socket_data := True, connReq_data := True,
      connecting := False, reading := True, request_m := PreparePayload (request_m s), written := written s @ [raw (PreparePayload (request_m s))]\<rparr>"
  let ?evs = "message_events m @ message_end finished"
  let ?t = "(fold absorb ?evs ?s)\<lparr>parser_m := Some p'\<rparr>"
  have s: "plain_reading p ?s" "parser_m ?s \<noteq> None" "req_header (request_m ?s) = []"
    using assms(1,2) by (simp_all add: plain_reading_def ready_def reachable_server_def PreparePayload_frame)
  note m = absorb_message [OF s(2,3), of m finished, unfolded Let_def]
  have f: "rest_of (fold absorb ?evs ?s) = rest_of ?s" by (rule fold_absorb_frame)
  have t: "reading ?t" "socket_data ?t" "responseHandler_m ?t = Some h" "delivered ?t = delivered s"
    "req_url (request_m ?t) = req_url (request_m s)" "loop_m ?t" "\<not> resolving ?t" "\<not> connecting ?t"
    "written ?t = written s @ [raw (PreparePayload (request_m s))]"
    "http_version (request_m ?t) = http_version (request_m s)"
    using f assms(1) by (simp_all add: rest_of_def ready_def PreparePayload_frame)
  have "HttpUV_DoRequest E (exchange ds st) s = uv_run E [ReadStatus st] ?t"
    unfolding exchange_def DoRequest_reads [OF assms(1,2)] by (rule uv_run_reads [OF assms(5,4) s(1)])
  then show ?thesis
    using t m assms(3)
    by (simp add: uv_enabled_def uv_callback_def HttpUV_OnRead_def OnRecvComplete_def OnResponse_def r_def ready_def
        http_version_def)
qed

definition uv_fresh :: "('p, 't, 'h) uv_env \<Rightarrow> ('p, 't, 'h) http_uv" where
  "uv_fresh E = HttpUV_new\<lparr>loop_m := True, parser_m := Some (http_parser_init E), ssl_m := Some (SSL_new E)\<rparr>"

definition get_request :: "('p, 't, 'h) uv_env \<Rightarrow> Url \<Rightarrow> Request" where
  "get_request E u = Request_new\<lparr>req_method := ''GET'', req_url := parsed_url E u\<rparr>"

lemma uv_fresh_fields:
  "delivered (uv_fresh E) = []" "written (uv_fresh E) = []" "bodyStream_m (uv_fresh E) = ''''"
  "response_m (uv_fresh E) = Response_new" "req_url (get_request E u) = parsed_url E u"
  by (simp_all add: uv_fresh_def HttpUV_new_def get_request_def)

lemma DoInit_fresh: "HttpUV_DoInit E HttpUV_new = Ret 0 (uv_fresh E)"
  by (simp add: HttpUV_DoInit_def uv_fresh_def)

lemma Session_Get_options:
  "Session_Get (HttpUV E evs) [UrlOption u, HandlerOption (Some h)] s =
     HttpUV_DoRequest E evs (s\<lparr>request_m := (request_m s)\<lparr>req_method := ''GET'', req_url := parsed_url E u\<rparr>,
       responseHandler_m := Some h\<rparr>)"
  by (simp add: Session_Get_def HttpUV_setters)

lemma Session_Get_any_order:
  assumes "mset opts = mset [UrlOption u, HandlerOption (Some h)]"
  shows "Session_Get (HttpUV E evs) opts s = Session_Get (HttpUV E evs) [UrlOption u, HandlerOption (Some h)] s"
proof -
  have "SetOptions (HttpUV E evs) opts = SetOptions (HttpUV E evs) [UrlOption u, HandlerOption (Some h)]"
    by (rule ext, rule sym, rule uv_opts.any_order) (use assms in simp_all)
  then show ?thesis by (simp only: Session_Get_def SetOptions_Cons [of _ "MethodOption ''GET''"])
qed

lemma ready_for_get:
  "ready (http_parser_init E) h ((uv_fresh E)\<lparr>request_m := get_request E u, responseHandler_m := Some h\<rparr>)"
  by (simp add: ready_def uv_fresh_def HttpUV_new_def get_request_def Request_new_def)

lemma Get_fresh:
  assumes "mset opts = mset [UrlOption u, HandlerOption (Some h)]"
  shows "Session_Get (HttpUV E evs) opts (uv_fresh E) =
    HttpUV_DoRequest E evs ((uv_fresh E)\<lparr>request_m := get_request E u, responseHandler_m := Some h\<rparr>)"
  unfolding Session_Get_any_order [OF assms] Session_Get_options
  by (simp add: uv_fresh_def HttpUV_new_def get_request_def)

text \<open>
  C20. A GET over plain HTTP works end to end: on a fresh session, with the URL and handler options in
  either order, if the name resolves, the connection is made and the parser takes the bytes of the
  reads \<open>ds\<close> as the message \<open>m\<close>, then the session sends exactly the prepared request and calls the
  handler exactly once, with the status, the case-insensitive header map, the concatenated body and
  the URL. The same response, with error code OK, is delivered when the message is incomplete or the
  connection ends with an error status.
\<close>
theorem HttpUV_Get_response:
  assumes "mset opts = mset [UrlOption u, HandlerOption (Some h)]" "reachable_server E (get_request E u)"
    and "parse_chunks E (http_parser_init E) ds = Some (message_events m @ message_end finished, p')"
    and "[] \<notin> set ds" "st \<le> 0"
  shows "\<exists>t. andThen (HttpUV_DoInit E HttpUV_new) (\<lambda>_. Session_Get (HttpUV E (exchange ds st)) opts) = Ret () t \<and>
    written t = [raw (PreparePayload (get_request E u))] \<and>
    delivered t = [\<lparr>statusCode = msg_code m, status = msg_reason m, error = Error_new,
      body = concat (msg_chunks m), res_header = field_map (msg_fields m), res_url = parsed_url E u\<rparr>]"
proof -
  let ?s = "(uv_fresh E)\<lparr>request_m := get_request E u, responseHandler_m := Some h\<rparr>"
  have "reachable_server E (request_m ?s)" using assms(2) by simp
  from DoRequest_delivers [OF ready_for_get [of E h u] this assms(5,4,3)] show ?thesis
    unfolding DoInit_fresh andThen.simps Get_fresh [OF assms(1)]
    by (auto simp: uv_fresh_fields Response_new_def)
qed

text \<open>
  Libraries for examples: the parser takes every read for the same small message, the TLS engine
  counts the bytes that wait to be sent and needs one answer of the server for its handshake.
\<close>

definition sample_message :: http_message where
  "sample_message =
     \<lparr>msg_code = 200, msg_reason = ''OK'', msg_fields = [(''Server'', ''a''), (''SERVER'', ''b'')],
      msg_chunks = [''he'', ''llo'']\<rparr>"

definition sample_uv :: "(unit, nat \<times> bool, unit) uv_env" where
  "sample_uv =
     \<lparr>http_parser_init = (),
      http_parser_execute = (\<lambda>p d. (message_events sample_message @ message_end True, length d, p)),
      http_parser_parse_url = (\<lambda>t.
        if take 5 t = ''https'' then
          \<lparr>UF_SCHEMA = Some (0, 5), UF_HOST = Some (8, 1), UF_PORT = None, UF_PATH = None, UF_QUERY = None,
           UF_FRAGMENT = None, url_port = 0\<rparr>
        else
          \<lparr>UF_SCHEMA = Some (0, 4), UF_HOST = Some (7, 1), UF_PORT = None, UF_PATH = None, UF_QUERY = None,
           UF_FRAGMENT = None, url_port = 0\<rparr>),
      uv_getaddrinfo = (\<lambda>_ _. 0), uv_tcp_connect = 0, uv_write = (\<lambda>_. 0), SSL_new = (0, False),
      SSL_do_handshake = (\<lambda>t. (-1, fst t + 1, False)), SSL_connect = (\<lambda>t. (1, fst t, True)), SSL_is_init_finished = snd,
      SSL_get_error = (\<lambda>_ _. SSL_ERROR_WANT_READ), SSL_read = (\<lambda>t n. (int n, replicate n CHR ''d'', t)),
      SSL_write = (\<lambda>t d. (int (length d), fst t + 1, snd t)), BIO_write = (\<lambda>t _. t),
      BIO_read = (\<lambda>t n. if fst t > 0 then (1, ''x'', fst t - 1, snd t) else (0, ''x'', t)), BIO_pending = fst,
      handler = (\<lambda>_ r. r)\<rparr>"

lemma sample_parsed_url:
  "parsed_url sample_uv (Url_new ''http://h'') = (Url_new ''http://h'')\<lparr>schema := ''http'', host := ''h'', port := Some 80\<rparr>"
  "parsed_url sample_uv (Url_new ''https://h'') =
     (Url_new ''https://h'')\<lparr>schema := ''https'', host := ''h'', port := Some 443\<rparr>"
  by (simp_all add: parsed_url_def sample_uv_def Url_new_def ParseUrl_def url_part_def Let_def)

lemma sample_uv_calls: "uv_tcp_connect sample_uv = 0" "uv_write sample_uv d = 0" "uv_getaddrinfo sample_uv a b = 0"
  by (simp_all add: sample_uv_def)

lemma sample_reachable: "reachable_server sample_uv (get_request sample_uv (Url_new ''http://h''))"
  by (simp add: reachable_server_def get_request_def sample_parsed_url IsHttps_def sample_uv_calls)

lemma sample_parses:
  "parse_chunks sample_uv p [''data''] =
     Some (message_events sample_message @ message_end True, ())"
  by (simp add: sample_uv_def)

theorem HttpUV_Get_response_witness:
  "\<exists>t. andThen (HttpUV_DoInit sample_uv HttpUV_new)
      (\<lambda>_. Session_Get (HttpUV sample_uv (exchange [''data''] (-4095))) [HandlerOption (Some ()), UrlOption (Url_new ''http://h'')])
      = Ret () t \<and>
    written t = [raw (PreparePayload (get_request sample_uv (Url_new ''http://h'')))] \<and>
    delivered t = [\<lparr>statusCode = msg_code sample_message, status = msg_reason sample_message, error = Error_new,
      body = concat (msg_chunks sample_message), res_header = field_map (msg_fields sample_message),
      res_url = parsed_url sample_uv (Url_new ''http://h'')\<rparr>]"
  by (rule HttpUV_Get_response [OF _ sample_reachable sample_parses]) simp_all

text \<open>
  The body stream of a session is never emptied: on a session that is used for two requests the
  second response is delivered with the first response's body in front of its own.
\<close>
theorem second_response_repeats_first_body:
  assumes "reachable_server E (get_request E u1)" "reachable_server E (get_request E u2)"
    and "parse_chunks E (http_parser_init E) ds1 = Some (message_events m1 @ message_end f1, p1)"
    and "parse_chunks E p1 ds2 = Some (message_events m2 @ message_end f2, p2)"
    and "[] \<notin> set ds1" "[] \<notin> set ds2" "st1 \<le> 0" "st2 \<le> 0"
  shows "\<exists>t. andThen (Session_Get (HttpUV E (exchange ds1 st1)) [UrlOption u1, HandlerOption (Some h)] (uv_fresh E))
      (\<lambda>_. Session_Get (HttpUV E (exchange ds2 st2)) [UrlOption u2, HandlerOption (Some h)]) = Ret () t \<and>
    map body (delivered t) = [concat (msg_chunks m1), concat (msg_chunks m1) @ concat (msg_chunks m2)]"
proof -
  let ?s = "(uv_fresh E)\<lparr>request_m := get_request E u1, responseHandler_m := Some h\<rparr>"
  have "reachable_server E (request_m ?s)" using assms(1) by simp
  from DoRequest_delivers [OF ready_for_get [of E h u1] this assms(7,5,3)]
  obtain t where t: "HttpUV_DoRequest E (exchange ds1 st1) ?s = Ret () t" "ready p1 h t"
    "map body (delivered t) = [concat (msg_chunks m1)]" "bodyStream_m t = concat (msg_chunks m1)"
    "http_version (request_m t) = http_version (get_request E u1)"
    by (auto simp: uv_fresh_fields)
  let ?t = "t\<lparr>request_m := (request_m t)\<lparr>req_method := ''GET'', req_url := parsed_url E u2\<rparr>, responseHandler_m := Some h\<rparr>"
  have r: "ready p1 h ?t" using t(2) by (simp add: ready_def)
  have "reachable_server E (request_m ?t)"
    using assms(2) reachable_server_cong [of "request_m ?t" "get_request E u2" E] t(2,5)
    by (simp add: get_request_def ready_def http_version_def Request_new_def)
  from DoRequest_delivers [OF r this assms(8,6,4)] show ?thesis
    unfolding Get_fresh [OF refl] t(1) andThen.simps unfolding Session_Get_options
    using t(3,4) by auto
qed

theorem second_response_repeats_first_body_witness:
  "\<exists>t. andThen (Session_Get (HttpUV sample_uv (exchange [''data''] 0))
      [UrlOption (Url_new ''http://h''), HandlerOption (Some ())] (uv_fresh sample_uv))
      (\<lambda>_. Session_Get (HttpUV sample_uv (exchange [''data''] 0)) [UrlOption (Url_new ''http://h''), HandlerOption (Some ())])
      = Ret () t \<and>
    map body (delivered t) = [concat (msg_chunks sample_message),
      concat (msg_chunks sample_message) @ concat (msg_chunks sample_message)]"
  by (rule second_response_repeats_first_body
      [OF sample_reachable sample_reachable sample_parses sample_parses]) simp_all

section \<open>Invariants of a session\<close>

lemma HttpUV_Write_ssl: "ssl_m (HttpUV_Write E d s) = ssl_m s"
  by (simp add: HttpUV_Write_def Let_def)

text \<open>\<open>BIO_read\<close> takes what it returns out of the buffer, so fewer bytes are pending afterwards.\<close>

definition bio_laws :: "('p, 't, 'h) uv_env \<Rightarrow> bool" where
  "bio_laws E \<longleftrightarrow> (\<forall>t n. fst (BIO_read E t n) > 0 \<longrightarrow> BIO_pending E (snd (snd (BIO_read E t n))) < BIO_pending E t)"

text \<open>
  What a property of sessions has to be closed under to survive everything that happens with data
  that arrives: steps of the TLS engine and the parser, preparing the request, and writing what the
  TLS engine has put out.
\<close>

locale session_invariant =
  fixes E :: "('p, 't, 'h) uv_env" and I :: "('p, 't, 'h) http_uv \<Rightarrow> bool"
  assumes ssl_step: "I s \<Longrightarrow> I (s\<lparr>ssl_m := t\<rparr>)"
    and parser_step: "I s \<Longrightarrow> I (s\<lparr>parser_m := p\<rparr>)"
    and prepare_step: "I s \<Longrightarrow> I (s\<lparr>request_m := PreparePayload (request_m s)\<rparr>)"
    and absorb_step: "I s \<Longrightarrow> I (absorb ev s)"
    and write_step: "I s \<Longrightarrow> I (HttpUV_Write E (fst (snd (BIO_read E u n))) s)"
begin

abbreviation keeps :: "(unit, ('p, 't, 'h) http_uv) outcome \<Rightarrow> bool" where
  "keeps m \<equiv> ends (\<lambda>e. e = OutOfFuel \<longrightarrow> \<not> bio_laws E) (\<lambda>_. I) m"

lemma flush_loop_bio_keeps:
  "I s \<Longrightarrow> (\<And>t. ssl_m s = Some t \<Longrightarrow> bio_laws E \<Longrightarrow> BIO_pending E t < n) \<Longrightarrow> n > 0 \<Longrightarrow> keeps (flush_loop_bio E n s)"
proof (induction n arbitrary: s)
  case (Suc n)
  show ?case
  proof (cases "ssl_m s")
    case (Some t)
    obtain k d t' where r: "BIO_read E t 16384 = (k, d, t')" by (metis prod_cases3)
    show ?thesis
    proof (cases "k > 0")
      case True
      then have p: "BIO_pending E t' < n" if "bio_laws E"
        using Suc.prems(2) [OF Some that] that r unfolding bio_laws_def
        by (metis fst_conv less_Suc_eq_le order_less_le_trans snd_conv)
      have "I (HttpUV_Write E d (s\<lparr>ssl_m := Some t'\<rparr>))"
        using write_step [OF ssl_step [OF Suc.prems(1)], of t 16384] by (simp add: r)
      from Suc.IH [OF this] p show ?thesis
        using True by (cases n) (auto simp: Some r HttpUV_Write_ssl)
    qed (use ssl_step [OF Suc.prems(1)] in \<open>simp add: Some r\<close>)
  qed simp
qed simp

lemma FlushReadBio_keeps: "I s \<Longrightarrow> keeps (FlushReadBio E s)"
  unfolding FlushReadBio_def by (rule flush_loop_bio_keeps) (auto split: option.split)

lemma HandleError_keeps: "I s \<Longrightarrow> keeps (HandleError E r s)"
  using FlushReadBio_keeps by (auto simp: HandleError_def split: option.split)

lemma absorb_keeps: "I s \<Longrightarrow> I (fold absorb evs s)"
  by (induction evs arbitrary: s) (simp_all add: absorb_step)

lemma execute_parser_keeps:
  "I s \<Longrightarrow> keeps (andThen (execute_parser E data s) (\<lambda>nparsed s. wtf_check (int nparsed = n) (Ret () s)))"
  by (auto simp: execute_parser_def parser_callbacks_fold wtf_check_def split: option.split prod.split
      intro!: parser_step absorb_keeps)

lemma ReadFromSSL_keeps:
  assumes "I s"
  shows "keeps (ReadFromSSL E buf s)"
proof (cases "ssl_m s")
  case (Some t)
  have "ends (\<lambda>e. e = OutOfFuel \<longrightarrow> \<not> bio_laws E) (\<lambda>_ s. keeps (FlushReadBio E s)) (HandleError E r u)"
    if "I u" for r u
    by (rule ends_post [OF HandleError_keeps [OF that]]) (rule FlushReadBio_keeps)
  then have "keeps (andThen (if c then HandleError E r u else Ret () u) (\<lambda>_ s. FlushReadBio E s))" if "I u" for c r u
    using that FlushReadBio_keeps by (simp add: ends_andThen)
  with ssl_step prepare_step assms show ?thesis
    by (auto simp: ReadFromSSL_def Some Let_def split: prod.split intro!: HandleError_keeps execute_parser_keeps)
qed (simp add: ReadFromSSL_def)

end

text \<open>At most one of resolving, connecting and reading is under way.\<close>

definition activity :: "('p, 't, 'h) http_uv \<Rightarrow> bool \<times> bool \<times> bool" where
  "activity s = (resolving s, connecting s, reading s)"

definition one_activity :: "('p, 't, 'h) http_uv \<Rightarrow> bool" where
  "one_activity s \<longleftrightarrow>
     activity s \<in> {(False, False, False), (True, False, False), (False, True, False), (False, False, True)}"

definition idle :: "('p, 't, 'h) http_uv \<Rightarrow> bool" where
  "idle s \<longleftrightarrow> activity s = (False, False, False)"

text \<open>
  For HTTPS: every buffer given to \<open>uv_write\<close> was read from the TLS engine's output, and the URL is
  an HTTPS one while a request is under way.
\<close>

definition from_tls :: "('p, 't, 'h) uv_env \<Rightarrow> string \<Rightarrow> bool" where
  "from_tls E d \<longleftrightarrow> (\<exists>t n. d = fst (snd (BIO_read E t n)))"

definition tls_inv :: "('p, 't, 'h) uv_env \<Rightarrow> ('p, 't, 'h) http_uv \<Rightarrow> bool" where
  "tls_inv E s \<longleftrightarrow> list_all (from_tls E) (written s) \<and> one_activity s \<and> (\<not> idle s \<longrightarrow> IsHttps (req_url (request_m s)))"

text \<open>While data is processed no response is delivered and the session's activity stays the same.\<close>

definition quiet :: "('p, 't, 'h) http_uv \<Rightarrow> ('p, 't, 'h) http_uv \<Rightarrow> bool" where
  "quiet s t \<longleftrightarrow> delivered t = delivered s \<and> activity t = activity s"

lemmas activity_defs = one_activity_def idle_def activity_def

lemma absorb_rest:
  "written (absorb ev s) = written s" "delivered (absorb ev s) = delivered s" "activity (absorb ev s) = activity s"
  "req_url (request_m (absorb ev s)) = req_url (request_m s)"
  using absorb_frame(2) [of ev s] by (simp_all add: rest_of_def activity_def)

interpretation tls: session_invariant E "tls_inv E" for E
  by unfold_locales
    (auto simp: tls_inv_def activity_defs PreparePayload_frame HttpUV_Write_def from_tls_def absorb_rest
      absorb_rest(3) [unfolded activity_def, simplified] Let_def)

interpretation quiet: session_invariant E "quiet s" for E s
  by unfold_locales
    (auto simp: quiet_def activity_def HttpUV_Write_def absorb_rest absorb_rest(3) [unfolded activity_def, simplified] Let_def)

lemma uv_callback_tls:
  assumes "tls_inv E s" "uv_enabled s ev"
  shows "tls.keeps E (uv_callback E ev s)"
proof (cases ev)
  case (Resolved st)
  with assms show ?thesis
    by (auto simp: uv_callback_def uv_enabled_def HttpUV_OnResolved_def HttpUV_Connect_def tls_inv_def activity_defs
        wtf_check_def)
next
  case (Connected st)
  let ?s = "s\<lparr>connecting := False, reading := (st \<ge> 0)\<rparr>"
  have s: "tls_inv E ?s" "IsHttps (req_url (request_m s))"
    using Connected assms by (auto simp: uv_enabled_def tls_inv_def activity_defs)
  with tls.HandleError_keeps [OF tls.ssl_step [OF s(1)]] tls.ssl_step [OF s(1)] show ?thesis
    by (auto simp: Connected uv_callback_def HttpUV_OnConnect_def wtf_check_def Let_def split: option.split prod.split)
next
  case (ReadBytes d)
  with assms have "IsHttps (req_url (request_m s))" "d \<noteq> []" by (auto simp: uv_enabled_def tls_inv_def activity_defs)
  with tls.ReadFromSSL_keeps [OF assms(1)] show ?thesis
    by (simp add: ReadBytes uv_callback_def HttpUV_OnRead_def wtf_check_def)
next
  case (ReadStatus st)
  with assms show ?thesis
    by (auto simp: uv_callback_def uv_enabled_def HttpUV_OnRead_def OnRecvComplete_def OnResponse_def tls_inv_def
        activity_defs wtf_check_def Let_def split: option.split)
qed

lemma uv_run_tls: "tls_inv E s \<Longrightarrow> tls.keeps E (uv_run E evs s)"
proof (induction evs arbitrary: s)
  case (Cons ev evs)
  show ?case
  proof (cases "uv_enabled s ev")
    case True
    have "ends (\<lambda>e. e = OutOfFuel \<longrightarrow> \<not> bio_laws E) (\<lambda>_ t. tls.keeps E (uv_run E evs t)) (uv_callback E ev s)"
      by (rule ends_post [OF uv_callback_tls [OF Cons.prems True]]) (rule Cons.IH)
    then show ?thesis using True by (simp add: ends_andThen)
  qed (use Cons in simp)
qed simp



text \<open>Delivering is what the end of the stream does, and it ends the session's activity.\<close>

definition delivers_once :: "('p, 't, 'h) http_uv \<Rightarrow> uv_event \<Rightarrow> ('p, 't, 'h) http_uv \<Rightarrow> bool" where
  "delivers_once s ev t \<longleftrightarrow> one_activity t \<and>
     (if (\<exists>st. ev = ReadStatus st) then idle t \<and> (delivered t = delivered s \<or> (\<exists>r. delivered t = delivered s @ [r]))
      else delivered t = delivered s)"

lemma quiet_delivers: "quiet s t \<Longrightarrow> one_activity s \<Longrightarrow> \<nexists>st. ev = ReadStatus st \<Longrightarrow> delivers_once s ev t"
  by (simp add: delivers_once_def quiet_def one_activity_def)

lemma uv_callback_delivers:
  assumes "one_activity s" "uv_enabled s ev"
  shows "ends (\<lambda>_. True) (\<lambda>_ t. delivers_once s ev t) (uv_callback E ev s)"
proof (cases ev)
  case (Resolved st)
  with assms show ?thesis
    by (auto simp: uv_callback_def uv_enabled_def HttpUV_OnResolved_def HttpUV_Connect_def delivers_once_def activity_defs
        wtf_check_def)
next
  case (Connected st)
  let ?s = "s\<lparr>connecting := False, reading := (st \<ge> 0)\<rparr>"
  have s: "one_activity ?s" "delivered ?s = delivered s"
    using Connected assms by (auto simp: uv_enabled_def activity_defs)
  have q: "quiet ?s ?s" by (simp add: quiet_def)
  have d: "delivers_once s ev t" if "quiet ?s t" for t
    using quiet_delivers [OF that s(1), of ev] Connected s(2) by (simp add: delivers_once_def)
  have "ends (\<lambda>_. True) (\<lambda>_ t. delivers_once s ev t) (HandleError E r (?s\<lparr>ssl_m := t\<rparr>))" for r t
    by (rule ends_mono [OF quiet.HandleError_keeps [OF quiet.ssl_step [OF q]] d]) simp_all
  moreover have "quiet ?s (HttpUV_Write E x (?s\<lparr>request_m := y\<rparr>))" for x y
    by (simp add: quiet_def activity_def HttpUV_Write_def Let_def)
  ultimately show ?thesis
    using d [OF quiet.ssl_step [OF q]] d
    by (auto simp: Connected uv_callback_def HttpUV_OnConnect_def wtf_check_def Let_def split: option.split prod.split)
next
  case (ReadBytes x)
  have q: "quiet s s" by (simp add: quiet_def)
  have d: "delivers_once s ev t" if "quiet s t" for t
    using quiet_delivers [OF that assms(1), of ev] ReadBytes by simp
  have "ends (\<lambda>_. True) (\<lambda>_ t. delivers_once s ev t) (ReadFromSSL E x s)"
    by (rule ends_mono [OF quiet.ReadFromSSL_keeps [OF q] d]) simp_all
  moreover have "ends (\<lambda>_. True) (\<lambda>_ t. delivers_once s ev t)
      (andThen (execute_parser E x s) (\<lambda>nparsed s. wtf_check (int nparsed = int (length x)) (Ret () s)))"
    by (rule ends_mono [OF quiet.execute_parser_keeps [OF q] d]) simp_all
  moreover have "x \<noteq> []" using assms(2) by (simp add: ReadBytes uv_enabled_def)
  ultimately show ?thesis
    by (simp add: ReadBytes uv_callback_def HttpUV_OnRead_def ends_wtf_check del: of_nat_eq_iff)
next
  case (ReadStatus st)
  with assms show ?thesis
    by (auto simp: uv_callback_def uv_enabled_def HttpUV_OnRead_def OnRecvComplete_def OnResponse_def delivers_once_def
        activity_defs wtf_check_def Let_def split: option.split)
qed

lemma uv_run_idle: "idle s \<Longrightarrow> uv_run E evs s = Ret () s"
  by (induction evs) (auto simp: uv_enabled_def activity_defs split: uv_event.split)

lemma uv_run_delivers:
  "one_activity s \<Longrightarrow>
   ends (\<lambda>_. True) (\<lambda>_ t. (delivered t = delivered s \<or> (\<exists>r. delivered t = delivered s @ [r])) \<and>
     (delivered t \<noteq> delivered s \<longrightarrow> (\<exists>st. ReadStatus st \<in> set evs))) (uv_run E evs s)"
proof (induction evs arbitrary: s)
  case (Cons ev evs)
  let ?P = "\<lambda>t. (delivered t = delivered s \<or> (\<exists>r. delivered t = delivered s @ [r])) \<and>
     (delivered t \<noteq> delivered s \<longrightarrow> (\<exists>st. ReadStatus st \<in> set (ev # evs)))"
  show ?case
  proof (cases "uv_enabled s ev")
    case True
    have "ends (\<lambda>_. True) (\<lambda>_. ?P) (uv_run E evs t)" if d: "delivers_once s ev t" for t
    proof (cases "\<exists>st. ev = ReadStatus st")
      case True
      with d have "idle t" by (simp add: delivers_once_def)
      from d True show ?thesis unfolding uv_run_idle [OF \<open>idle t\<close>] by (auto simp: delivers_once_def)
    next
      case False
      with d have "one_activity t" "delivered t = delivered s" by (simp_all add: delivers_once_def)
      with Cons.IH [of t] show ?thesis by (auto intro: ends_post)
    qed
    then have "ends (\<lambda>_. True) (\<lambda>_ t. ends (\<lambda>_. True) (\<lambda>_. ?P) (uv_run E evs t)) (uv_callback E ev s)"
      using ends_post [OF uv_callback_delivers [OF Cons.prems True]] by simp
    with True show ?thesis by (simp add: ends_andThen)
  next
    case False
    have "ends (\<lambda>_. True) (\<lambda>_. ?P) (uv_run E evs s)"
      by (rule ends_post [OF Cons.IH [OF Cons.prems]]) auto
    with False show ?thesis by simp
  qed
qed simp



text \<open>
  A header that the parser reports in pieces, as it does when its bytes arrive in two reads, is
  not put together: of a name in two pieces only the second is kept, and the second piece of the
  value of a new field is stored under the empty name.
\<close>
theorem split_header_not_joined:
  assumes "parser_m s \<noteq> None" "map_find CaseInsensitiveCompare f2 (req_header (request_m s)) = None"
  shows "\<exists>t. parser_callbacks [on_header_field f1, on_header_field f2, on_header_value v1, on_header_value v2] s = Ret () t \<and>
    req_header (request_m t) =
      insert_or_assign CaseInsensitiveCompare '''' v2 (insert_or_assign CaseInsensitiveCompare f2 v1 (req_header (request_m s)))"
  using assms by (simp add: parser_callback_defs)

theorem split_header_not_joined_witness:
  "\<exists>t. parser_callbacks [on_header_field ''Ser'', on_header_field ''ver'', on_header_value ''ngi'', on_header_value ''nx'']
      (uv_fresh sample_uv) = Ret () t \<and>
    req_header (request_m t) =
      insert_or_assign CaseInsensitiveCompare '''' ''nx''
        (insert_or_assign CaseInsensitiveCompare ''ver'' ''ngi'' (req_header (request_m (uv_fresh sample_uv))))"
  by (rule split_header_not_joined) (simp_all add: uv_fresh_def HttpUV_new_def Request_new_def)

end
