(* ===== verification/Ws_Uv.thy ===== *)
theory Ws_Uv
  imports Ws_Session Http_Uv
begin

text \<open>
  The libuv implementation of the WebSocket session, \<^verbatim>\<open>src/net/ws_cli/implement/uv/session_impl_uv.cpp\<close>.
  It shares the request text, the URL parsing and the library parameters with the HTTP session and
  the frame headers and masking with the libevent session. The lemmas show what it puts on the wire:
  the upgrade request, and of a message the frame header only.
\<close>

section \<open>The session\<close>

text \<open>
  The members of \<open>SessionImplUV\<close>; a session is zeroed when it is made. As in the HTTP session the
  last fields are its activities in the loop and the buffers handed to \<open>uv_write\<close>.
\<close>

record WsResponse =
  ws_statusCode :: int
  ws_status :: string
  ws_header :: Header

record ('p, 'w, 'h) ws_uv =
  ws_field_m :: string
  ws_request_m :: Request
  ws_response_m :: WsResponse
  connect_handler_m :: "'h option"
  ws_sendState_m :: WSSendState
  uvHeader_m :: WSHeader
  ws_maxFrameSize_m :: nat
  ws_loop_m :: bool
  ws_resolver_data :: bool
  ws_connReq_data :: bool
  ws_socket_data :: bool
  ws_parser_m :: "'p option"
  ws_resolving :: bool
  ws_connecting :: bool
  ws_reading :: bool
  ws_written :: "string list"
  ws_world :: 'w

text \<open>The libraries, the random numbers, indeterminate stack bytes and the application's handler.\<close>

record ('p, 'w, 'h) ws_uv_env =
  libs :: "('p, unit, 'h) uv_env"
  uv_rand_s :: "'w \<Rightarrow> u32 \<times> 'w"
  uv_stack_bytes :: "nat \<Rightarrow> bytes"
  on_connect :: "'h \<Rightarrow> ('p, 'w, 'h) ws_uv \<Rightarrow> (unit, ('p, 'w, 'h) ws_uv) outcome"

definition WsUV_new :: "'w \<Rightarrow> ('p, 'w, 'h) ws_uv" where
  "WsUV_new w =
     \<lparr>ws_field_m = '''', ws_request_m = Request_new,
      ws_response_m = \<lparr>ws_statusCode = 0, ws_status = '''', ws_header = []\<rparr>, connect_handler_m = None,
      ws_sendState_m = SEND_NONE, uvHeader_m = WSHeader0, ws_maxFrameSize_m = 0, ws_loop_m = False,
      ws_resolver_data = False, ws_connReq_data = False, ws_socket_data = False, ws_parser_m = None,
      ws_resolving = False, ws_connecting = False, ws_reading = False, ws_written = [], ws_world = w\<rparr>"

definition put_header :: "string \<Rightarrow> string \<Rightarrow> Request \<Rightarrow> Request" where
  "put_header name val r = r\<lparr>req_header := insert_or_assign CaseInsensitiveCompare name val (req_header r)\<rparr>"

definition WsUV_DoInit :: "('p, 'w, 'h) ws_uv_env \<Rightarrow> ('p, 'w, 'h) ws_uv \<Rightarrow> int \<times> ('p, 'w, 'h) ws_uv" where
  "WsUV_DoInit E s =
     (let s = s\<lparr>ws_loop_m := True, ws_parser_m := Some (http_parser_init (libs E))\<rparr>;
          r = (ws_request_m s)\<lparr>req_method := ''GET''\<rparr>;
          r = put_header ''Upgrade'' ''websocket'' r;
          r = put_header ''Connection'' ''upgrade'' r;
          r = put_header ''Sec-WebSocket-Key'' ''dGhlIHNhbXBsZSBub25jZQ=='' r;
          r = put_header ''Sec-WebSocket-Version'' ''13'' r
      in (0, s\<lparr>ws_request_m := r\<rparr>))"

definition WsUV_DoClose :: "('p, 'w, 'h) ws_uv \<Rightarrow> int \<times> ('p, 'w, 'h) ws_uv" where
  "WsUV_DoClose s = (0, s)"

definition WsUV_SetConnectHandler :: "'h option \<Rightarrow> ('p, 'w, 'h) ws_uv \<Rightarrow> ('p, 'w, 'h) ws_uv" where
  "WsUV_SetConnectHandler connect_handler s = s\<lparr>connect_handler_m := connect_handler\<rparr>"

definition WsUV_SetMessageHandler :: "'h option \<Rightarrow> ('p, 'w, 'h) ws_uv \<Rightarrow> ('p, 'w, 'h) ws_uv" where
  "WsUV_SetMessageHandler message_handler s = s"

definition WsUV_SetUrl :: "('p, 'w, 'h) ws_uv_env \<Rightarrow> Url \<Rightarrow> ('p, 'w, 'h) ws_uv \<Rightarrow> ('p, 'w, 'h) ws_uv" where
  "WsUV_SetUrl E u s = s\<lparr>ws_request_m := (ws_request_m s)\<lparr>req_url := parsed_url (libs E) u\<rparr>\<rparr>"

section \<open>Sending\<close>

definition WsUV_Write :: "('p, 'w, 'h) ws_uv_env \<Rightarrow> string \<Rightarrow> ('p, 'w, 'h) ws_uv \<Rightarrow> ('p, 'w, 'h) ws_uv" where
  "WsUV_Write E buffer s =
     (let r = uv_write (libs E) buffer in if r < 0 then s else s\<lparr>ws_written := ws_written s @ [buffer]\<rparr>)"

text \<open>The result is the return code and the caller's buffer, which is masked in place.\<close>

definition WsUV_SendFrameRaw ::
  "('p, 'w, 'h) ws_uv_env \<Rightarrow> WSOpcode \<Rightarrow> bytes \<Rightarrow> ('p, 'w, 'h) ws_uv \<Rightarrow> (int \<times> bytes, ('p, 'w, 'h) ws_uv) outcome" where
  "WsUV_SendFrameRaw E opc data s =
     (let dataLen = length data in
      if ws_sendState_m s \<noteq> SEND_NONE then Ret (-1, data) s
      else if IsControlOpcode (opcode_value opc) \<and> dataLen > 125 then Ret (-1, data) s
      else
        (let s = s\<lparr>uvHeader_m := WSHeader0\<rparr>;
             s = s\<lparr>uvHeader_m := (uvHeader_m s)\<lparr>fin := 1, opcode := of_nat (opcode_value opc)\<rparr>\<rparr>
         in if dataLen > WS_MAX_PAYLOAD_LEN then Ret (-1, data) s
            else
              (let s = s\<lparr>uvHeader_m := (uvHeader_m s)\<lparr>maskBit := 1, payloadLen := of_nat dataLen\<rparr>\<rparr>;
                   (key, n, w) = GetRandomMask (uv_rand_s E) 4 (ws_world s);
                   s = s\<lparr>uvHeader_m := (uvHeader_m s)\<lparr>mask_key := load_le key\<rparr>, ws_world := w\<rparr>
               in if n \<noteq> 4 then Ret (-1, data) s
                  else
                    (case PackHeader (uvHeader_m s) (uv_stack_bytes E WS_HDR_MAX_SIZE) WS_HDR_MAX_SIZE of
                       Fault e \<Rightarrow> Fault e
                     | Ret header_len header_buf \<Rightarrow>
                         (let s = WsUV_Write E (of_bytes (take header_len header_buf)) s;
                              data = MaskPayload (mask_key (uvHeader_m s)) data dataLen
                          in Ret (0, data) s)))))"

definition WsUV_SendMsgEx ::
  "('p, 'w, 'h) ws_uv_env \<Rightarrow> bytes \<Rightarrow> bool \<Rightarrow> ('p, 'w, 'h) ws_uv \<Rightarrow> (int \<times> bytes, ('p, 'w, 'h) ws_uv) outcome" where
  "WsUV_SendMsgEx E msg binary s =
     (if length msg \<le> ws_maxFrameSize_m s \<or> ws_maxFrameSize_m s = 0
      then WsUV_SendFrameRaw E (if binary then BINARY_0X2 else TEXT_0X1) msg s
      else Ret (0, msg) s)"

definition WsUV_DoSendMsg ::
  "('p, 'w, 'h) ws_uv_env \<Rightarrow> bytes \<Rightarrow> ('p, 'w, 'h) ws_uv \<Rightarrow> (int \<times> bytes, ('p, 'w, 'h) ws_uv) outcome" where
  "WsUV_DoSendMsg E msg s = WsUV_SendMsgEx E msg False s"

section \<open>Connecting\<close>

definition DoHandshake ::
  "('p, 'w, 'h) ws_uv_env \<Rightarrow> ('p, 'w, 'h) ws_uv \<Rightarrow> (int, ('p, 'w, 'h) ws_uv) outcome" where
  "DoHandshake E s =
     wtf_check (req_method (ws_request_m s) = ''GET'')
       (let u = req_url (ws_request_m s) in
        case port u of
          None \<Rightarrow> Fault IndeterminateRead
        | Some p \<Rightarrow>
            (let r = put_header ''Origin'' (FmtString (''http://'' @ c_str (host u) @ '':'' @ dec_int p)) (ws_request_m s);
                 s = s\<lparr>ws_request_m := PreparePayload r\<rparr>
             in Ret 0 (WsUV_Write E (raw (ws_request_m s)) s)))"

definition WsUV_OnConnect ::
  "('p, 'w, 'h) ws_uv_env \<Rightarrow> int \<Rightarrow> ('p, 'w, 'h) ws_uv \<Rightarrow> (unit, ('p, 'w, 'h) ws_uv) outcome" where
  "WsUV_OnConnect E st s =
     wtf_check (ws_connReq_data s)
       (let s = s\<lparr>ws_reading := (st \<ge> 0)\<rparr> in andThen (DoHandshake E s) (\<lambda>_ s. Ret () s))"

definition ws_parser_callback :: "parser_event \<Rightarrow> ('p, 'w, 'h) ws_uv \<Rightarrow> (int, ('p, 'w, 'h) ws_uv) outcome" where
  "ws_parser_callback ev s =
     wtf_check (ws_parser_m s \<noteq> None)
       (case ev of
          on_status t c \<Rightarrow> Ret 0 (s\<lparr>ws_response_m := (ws_response_m s)\<lparr>ws_status := t, ws_statusCode := c\<rparr>\<rparr>)
        | on_header_field f \<Rightarrow> Ret 0 (s\<lparr>ws_field_m := f\<rparr>)
        | on_header_value v \<Rightarrow>
            (let hs = ws_header (ws_response_m s);
                 moved = map_find CaseInsensitiveCompare (ws_field_m s) hs = None;
                 s = s\<lparr>ws_response_m := (ws_response_m s)\<lparr>ws_header := insert_or_assign CaseInsensitiveCompare (ws_field_m s) v hs\<rparr>\<rparr>
             in Ret 0 (s\<lparr>ws_field_m := (if moved then '''' else ws_field_m s)\<rparr>))
        | on_headers_complete \<Rightarrow> Ret 0 s
        | on_body p \<Rightarrow> Ret 0 s
        | on_message_complete \<Rightarrow> Ret 0 s)"

fun ws_parser_callbacks :: "parser_event list \<Rightarrow> ('p, 'w, 'h) ws_uv \<Rightarrow> (unit, ('p, 'w, 'h) ws_uv) outcome" where
  "ws_parser_callbacks [] s = Ret () s"
| "ws_parser_callbacks (ev # evs) s = andThen (ws_parser_callback ev s) (\<lambda>_ s. ws_parser_callbacks evs s)"

definition call_connect_handler ::
  "('p, 'w, 'h) ws_uv_env \<Rightarrow> ('p, 'w, 'h) ws_uv \<Rightarrow> (unit, ('p, 'w, 'h) ws_uv) outcome" where
  "call_connect_handler E s = (case connect_handler_m s of None \<Rightarrow> Ret () s | Some h \<Rightarrow> on_connect E h s)"

definition WsUV_OnRead ::
  "('p, 'w, 'h) ws_uv_env \<Rightarrow> int \<Rightarrow> string \<Rightarrow> ('p, 'w, 'h) ws_uv \<Rightarrow> (unit, ('p, 'w, 'h) ws_uv) outcome" where
  "WsUV_OnRead E nread buf s =
     wtf_check (ws_socket_data s)
       (if nread > 0 then
          (case ws_parser_m s of
             None \<Rightarrow> Fault UndefinedValue
           | Some p \<Rightarrow>
               (let (evs, nparsed, p') = http_parser_execute (libs E) p buf
                in andThen (ws_parser_callbacks evs s) (\<lambda>_ s.
                     let s = s\<lparr>ws_parser_m := Some p'\<rparr> in
                     wtf_check (int nparsed = nread) (call_connect_handler E s))))
        else Ret () (s\<lparr>ws_reading := False\<rparr>))"

definition WsUV_Connect :: "('p, 'w, 'h) ws_uv_env \<Rightarrow> ('p, 'w, 'h) ws_uv \<Rightarrow> int \<times> ('p, 'w, 'h) ws_uv" where
  "WsUV_Connect E s =
     (let s = s\<lparr>ws_socket_data := True\<rparr>;
          s = s\<lparr>ws_connReq_data := True\<rparr>
      in (0, s\<lparr>ws_connecting := (uv_tcp_connect (libs E) = 0)\<rparr>))"

definition WsUV_OnResolved ::
  "('p, 'w, 'h) ws_uv_env \<Rightarrow> int \<Rightarrow> ('p, 'w, 'h) ws_uv \<Rightarrow> (unit, ('p, 'w, 'h) ws_uv) outcome" where
  "WsUV_OnResolved E st s =
     wtf_check (ws_resolver_data s)
       (if st < 0 then Ret () s else (let (rc, s) = WsUV_Connect E s in Ret () s))"

definition WsUV_Resolve ::
  "('p, 'w, 'h) ws_uv_env \<Rightarrow> ('p, 'w, 'h) ws_uv \<Rightarrow> (int, ('p, 'w, 'h) ws_uv) outcome" where
  "WsUV_Resolve E s =
     (let s = s\<lparr>ws_resolver_data := True\<rparr> in
      if \<not> ws_loop_m s then Fault NullDeref
      else
        case port (req_url (ws_request_m s)) of
          None \<Rightarrow> Fault IndeterminateRead
        | Some p \<Rightarrow>
            (let r = uv_getaddrinfo (libs E) (c_str (host (req_url (ws_request_m s)))) (dec_int p)
             in if r \<noteq> 0 then Ret 1 s else Ret 0 (s\<lparr>ws_resolving := True\<rparr>)))"

definition ws_uv_enabled :: "('p, 'w, 'h) ws_uv \<Rightarrow> uv_event \<Rightarrow> bool" where
  "ws_uv_enabled s ev =
     (case ev of
        Resolved st \<Rightarrow> ws_resolving s
      | uv_event.Connected st \<Rightarrow> ws_connecting s
      | ReadBytes d \<Rightarrow> ws_reading s \<and> d \<noteq> []
      | ReadStatus st \<Rightarrow> ws_reading s \<and> st \<le> 0)"

definition ws_uv_callback ::
  "('p, 'w, 'h) ws_uv_env \<Rightarrow> uv_event \<Rightarrow> ('p, 'w, 'h) ws_uv \<Rightarrow> (unit, ('p, 'w, 'h) ws_uv) outcome" where
  "ws_uv_callback E ev s =
     (case ev of
        Resolved st \<Rightarrow> WsUV_OnResolved E st (s\<lparr>ws_resolving := False\<rparr>)
      | uv_event.Connected st \<Rightarrow> WsUV_OnConnect E st (s\<lparr>ws_connecting := False\<rparr>)
      | ReadBytes d \<Rightarrow> WsUV_OnRead E (int (length d)) d s
      | ReadStatus st \<Rightarrow> WsUV_OnRead E st '''' s)"

fun ws_uv_run ::
  "('p, 'w, 'h) ws_uv_env \<Rightarrow> uv_event list \<Rightarrow> ('p, 'w, 'h) ws_uv \<Rightarrow> (unit, ('p, 'w, 'h) ws_uv) outcome" where
  "ws_uv_run E [] s = Ret () s"
| "ws_uv_run E (ev # evs) s =
     (if ws_uv_enabled s ev then andThen (ws_uv_callback E ev s) (\<lambda>_ s. ws_uv_run E evs s) else ws_uv_run E evs s)"

definition WsUV_DoConnect ::
  "('p, 'w, 'h) ws_uv_env \<Rightarrow> uv_event list \<Rightarrow> ('p, 'w, 'h) ws_uv \<Rightarrow> (int, ('p, 'w, 'h) ws_uv) outcome" where
  "WsUV_DoConnect E evs s = andThen (WsUV_Resolve E s) (\<lambda>_ s. andThen (ws_uv_run E evs s) (\<lambda>_ s. Ret 0 s))"

section \<open>The upgrade request\<close>

lemma strip_id: "l \<noteq> [] \<Longrightarrow> \<not> ows (hd l) \<Longrightarrow> \<not> ows (last l) \<Longrightarrow> strip l = l"
proof -
  assume l: "l \<noteq> []" "\<not> ows (hd l)" "\<not> ows (last l)"
  then have "dropWhile ows l = l" by (cases l) simp_all
  moreover have "dropWhile ows (rev l) = rev l" using l by (cases "rev l") (auto simp: last_rev hd_rev dest: sym)
  ultimately show ?thesis by (simp add: strip_def)
qed

definition upgrade_headers :: "string \<Rightarrow> Header" where
  "upgrade_headers origin =
     [(''Connection'', ''upgrade''), (''Origin'', origin), (''Sec-WebSocket-Key'', ''dGhlIHNhbXBsZSBub25jZQ==''),
      (''Sec-WebSocket-Version'', ''13''), (''Upgrade'', ''websocket'')]"

definition ws_fresh :: "('p, 'w, 'h) ws_uv_env \<Rightarrow> Url \<Rightarrow> 'w \<Rightarrow> ('p, 'w, 'h) ws_uv" where
  "ws_fresh E u w = WsUV_SetUrl E u (snd (WsUV_DoInit E (WsUV_new w)))"

lemmas cmp_eval = CaseInsensitiveCompare_def tolower_def

lemma ws_fresh_headers:
  "req_header (put_header ''Origin'' origin (ws_request_m (ws_fresh E u w))) = upgrade_headers origin"
  unfolding ws_fresh_def WsUV_DoInit_def Let_def put_header_def WsUV_SetUrl_def WsUV_new_def Request_new_def upgrade_headers_def
  by (simp add: cmp_eval)

definition ws_origin :: "Url \<Rightarrow> int \<Rightarrow> string" where
  "ws_origin u p = ''http://'' @ host u @ '':'' @ dec_int p"

definition ws_url_ok :: "Url \<Rightarrow> bool" where
  "ws_url_ok u \<longleftrightarrow> line_text (path u) \<and> CHR '' '' \<notin> set (path u) \<and> field_ok (''Host'', host u)"

lemma dec_int_last: "0 \<le> p \<Longrightarrow> dec_int p \<noteq> [] \<and> isdigit (last (dec_int p))"
  using isdigit_dec_nat [of "nat p"] by (simp add: dec_int_def list_all_iff)

lemma dec_int_plain: "0 \<le> p \<Longrightarrow> line_text (dec_int p)"
  by (auto simp: dec_int_def line_text_def dest!: dec_nat_chars simp: isdigit_def)

lemma ws_origin_field_ok:
  assumes "ws_url_ok u" "0 \<le> p"
  shows "field_ok (''Origin'', ws_origin u p)"
proof -
  have "isdigit (last (ws_origin u p))" using dec_int_last [OF assms(2)] by (simp add: ws_origin_def)
  then have "\<not> ows (last (ws_origin u p))" by (auto simp: ows_def isdigit_def)
  then have "strip (ws_origin u p) = ws_origin u p"
    by (intro strip_id) (simp_all add: ws_origin_def ows_def)
  moreover have "line_text (ws_origin u p)"
    using assms dec_int_plain [OF assms(2)] by (simp add: ws_origin_def line_text_def ws_url_ok_def field_ok_def)
  ultimately show ?thesis by (simp add: field_ok_def line_text_def)
qed

text \<open>
  The upgrade request of the libuv session is read back as intended: for a URL whose path and
  host can stand in a request head, connecting sends one request, in which a reader of HTTP/1.1 heads
  finds a GET for the path with the host and exactly the five upgrade fields in the order of the
  header map. The key is the same in every request, the sample nonce of RFC 6455.
\<close>
theorem WsUV_upgrade_request:
  assumes "ws_url_ok (parsed_url (libs E) u)" "port (parsed_url (libs E) u) = Some p" "0 \<le> p"
    and "\<And>d. uv_write (libs E) d \<ge> 0"
  shows "\<exists>t req. DoHandshake E (ws_fresh E u w) = Ret 0 t \<and> ws_written t = [req] \<and>
    read_head req = Some ((''GET'', if path (parsed_url (libs E) u) = [] then ''/'' else path (parsed_url (libs E) u), ''HTTP/1.1''),
      (''Host'', host (parsed_url (libs E) u)) # upgrade_headers (ws_origin (parsed_url (libs E) u) p), [])"
proof -
  let ?u = "parsed_url (libs E) u"
  let ?r = "put_header ''Origin'' (ws_origin ?u p) (ws_request_m (ws_fresh E u w))"
  have h: "req_header ?r = upgrade_headers (ws_origin ?u p)" by (rule ws_fresh_headers)
  have r: "req_method ?r = ''GET''" "req_url ?r = ?u" "httpMajor ?r = 1" "httpMinor ?r = 1" "ws_written (ws_fresh E u w) = []"
    "req_method (ws_request_m (ws_fresh E u w)) = ''GET''" "req_url (ws_request_m (ws_fresh E u w)) = ?u"
    by (simp_all add: ws_fresh_def WsUV_DoInit_def put_header_def WsUV_SetUrl_def WsUV_new_def Request_new_def Let_def)
  have "field_ok (''Origin'', ws_origin ?u p)" by (rule ws_origin_field_ok [OF assms(1,3)])
  then have ok: "request_ok ?r"
    using assms(1) by (simp add: request_ok_def r h upgrade_headers_def ws_url_ok_def field_ok_def line_text_def strip_def ows_def)
  have "CHR 0x00 \<notin> set (ws_origin ?u p)" "c_str (host ?u) = host ?u"
    using \<open>field_ok (''Origin'', ws_origin ?u p)\<close> assms(1) by (simp_all add: field_ok_def line_text_def ws_url_ok_def c_str_id)
  then have f: "FmtString (''http://'' @ c_str (host ?u) @ '':'' @ dec_int p) = ws_origin ?u p"
    by (simp add: FmtString_id ws_origin_def)
  have "dec_nat 1 = ''1''" by code_simp
  with read_head_PreparePayload [OF ok, of "[]"] assms(2,4) f show ?thesis
    by (simp add: DoHandshake_def r h WsUV_Write_def Let_def not_less)
qed

text \<open>An example: the libraries of the HTTP example, a counter as the outside world.\<close>

definition sample_ws_uv :: "(unit, nat, unit) ws_uv_env" where
  "sample_ws_uv =
     \<lparr>libs =
        \<lparr>http_parser_init = (), http_parser_execute = (\<lambda>p d. ([on_status ''Forbidden'' 403], length d, p)),
         http_parser_parse_url = http_parser_parse_url sample_uv, uv_getaddrinfo = (\<lambda>_ _. 0), uv_tcp_connect = 0,
         uv_write = (\<lambda>_. 0), SSL_new = (), SSL_do_handshake = (\<lambda>t. (0, t)), SSL_connect = (\<lambda>t. (0, t)),
         SSL_is_init_finished = (\<lambda>_. True), SSL_get_error = (\<lambda>_ _. 0), SSL_read = (\<lambda>t _. (0, '''', t)),
         SSL_write = (\<lambda>t _. (0, t)), BIO_write = (\<lambda>t _. t), BIO_read = (\<lambda>t _. (0, '''', t)),
         BIO_pending = (\<lambda>_. 0), handler = (\<lambda>_ r. r)\<rparr>,
      uv_rand_s = (\<lambda>w. (of_nat w, Suc w)), uv_stack_bytes = (\<lambda>n. replicate n 0),
      on_connect = (\<lambda>_ s. Ret () (s\<lparr>ws_world := ws_world s + 1000\<rparr>))\<rparr>"

lemma sample_ws_url:
  "parsed_url (libs sample_ws_uv) (Url_new ''http://h'') =
     (Url_new ''http://h'')\<lparr>schema := ''http'', host := ''h'', port := Some 80\<rparr>"
  by (simp add: sample_ws_uv_def parsed_url_def sample_uv_def Url_new_def ParseUrl_def url_part_def Let_def)

theorem WsUV_upgrade_request_witness:
  "\<exists>t req. DoHandshake sample_ws_uv (ws_fresh sample_ws_uv (Url_new ''http://h'') 0) = Ret 0 t \<and> ws_written t = [req] \<and>
    read_head req = Some ((''GET'', ''/'', ''HTTP/1.1''),
      (''Host'', ''h'') # upgrade_headers (ws_origin ((Url_new ''http://h'')\<lparr>schema := ''http'', host := ''h'', port := Some 80\<rparr>) 80), [])"
proof -
  have "ws_url_ok (parsed_url (libs sample_ws_uv) (Url_new ''http://h''))"
    unfolding sample_ws_url by (simp add: ws_url_ok_def Url_new_def ParseUrl_def field_ok_def line_text_def strip_def ows_def)
  from WsUV_upgrade_request [OF this, of 80 0] show ?thesis
    unfolding sample_ws_url by (simp add: Url_new_def ParseUrl_def) (simp add: sample_ws_uv_def)
qed

section \<open>Messages\<close>

lemma byte_of_char_of_byte [simp]: "byte_of_char (char_of_byte b) = b"
  by (simp add: char_of_byte_def byte_of_char_def take_bit_eq_mod of_nat_mod)

lemma to_bytes_of_bytes [simp]: "to_bytes (of_bytes bs) = bs"
  by (induction bs) (simp_all add: to_bytes_def of_bytes_def)

text \<open>
  The libuv session sends the header of a message and never its payload: on every session that is
  not in the middle of a fragmented message, \<open>DoSendMsg\<close> reports success, writes exactly the RFC 6455
  header that announces the length (modulo 128) of the masked text frame, and leaves the caller's
  string masked. It does so in any connection state.
\<close>
theorem WsUV_sends_only_the_header:
  assumes "ws_sendState_m s = SEND_NONE" "ws_maxFrameSize_m s = 0" "length msg \<le> WS_MAX_PAYLOAD_LEN"
    and "\<And>d. uv_write (libs E) d \<ge> 0" "length (uv_stack_bytes E 14) = 14"
  shows "\<exists>key t. WsUV_DoSendMsg E msg s = Ret (0, xor_key (store_le 4 key) msg) t \<and>
    map to_bytes (ws_written t) = map to_bytes (ws_written s) @ [rfc_header (frame_header TEXT_0X1 key) (length msg mod 128)]"
proof -
  obtain k n w where g: "GetRandomMask (uv_rand_s E) 4 (ws_world s) = (k, n, w)" by (metis prod_cases3)
  then have n: "n = 4" by (auto dest: GetRandomMask_count)
  let ?h = "(frame_header TEXT_0X1 (load_le k))\<lparr>payloadLen := of_nat (length msg)\<rparr>"
  have l: "unat (payloadLen ?h) = length msg mod 128" by (simp add: unsigned_of_nat take_bit_eq_mod)
  have hd: "rfc_header ?h m = rfc_header (frame_header TEXT_0X1 (load_le k)) m" for m by (simp add: rfc_header_def)
  have p: "PackHeader ?h (uv_stack_bytes E WS_HDR_MAX_SIZE) WS_HDR_MAX_SIZE =
      Ret (length (rfc_header (frame_header TEXT_0X1 (load_le k)) (length msg mod 128)))
        (rfc_header (frame_header TEXT_0X1 (load_le k)) (length msg mod 128) @
         drop (length (rfc_header (frame_header TEXT_0X1 (load_le k)) (length msg mod 128))) (uv_stack_bytes E 14))"
    using PackHeader_rfc [of "uv_stack_bytes E 14" 14 ?h] assms(5) unfolding l hd by (simp add: ws_consts)
  have m: "MaskPayload key msg (length msg) = xor_key (store_le 4 key) msg" for key by (rule MaskPayload_eq)
  have h: "WSHeader0\<lparr>fin := 1, opcode := of_nat (opcode_value TEXT_0X1), maskBit := 1, payloadLen := of_nat (length msg),
      mask_key := load_le k\<rparr> = ?h"
    by (simp add: frame_header_def)
  have key: "mask_key (frame_header TEXT_0X1 key) = key" for key by (simp add: frame_header_def)
  show ?thesis
    using assms(1-4) g n p h m key
    by (intro exI [of _ "load_le k"])
      (simp add: WsUV_DoSendMsg_def WsUV_SendMsgEx_def WsUV_SendFrameRaw_def Let_def WsUV_Write_def not_less IsControlOpcode_def)
qed

theorem WsUV_sends_only_the_header_witness:
  "\<exists>key t. WsUV_DoSendMsg sample_ws_uv [72, 105] (WsUV_new 7) = Ret (0, xor_key (store_le 4 key) [72, 105]) t \<and>
    map to_bytes (ws_written t) = map to_bytes (ws_written (WsUV_new 7 :: (unit, nat, unit) ws_uv)) @
      [rfc_header (frame_header TEXT_0X1 key) (length [72, 105 :: u8] mod 128)]"
  by (rule WsUV_sends_only_the_header) (simp_all add: WsUV_new_def sample_ws_uv_def ws_consts)

lemma ws_parser_callbacks_ok:
  "ws_parser_m s \<noteq> None \<Longrightarrow>
   \<exists>t. ws_parser_callbacks evs s = Ret () t \<and> connect_handler_m t = connect_handler_m s \<and> ws_parser_m t = ws_parser_m s \<and>
     ws_written t = ws_written s"
proof (induction evs arbitrary: s)
  case (Cons ev evs)
  have "\<exists>t. ws_parser_callback ev s = Ret 0 t \<and> connect_handler_m t = connect_handler_m s \<and> ws_parser_m t = ws_parser_m s \<and>
      ws_written t = ws_written s"
    using Cons.prems by (cases ev) (auto simp: ws_parser_callback_def Let_def)
  then obtain t where t: "ws_parser_callback ev s = Ret 0 t" "connect_handler_m t = connect_handler_m s"
    "ws_parser_m t = ws_parser_m s" "ws_written t = ws_written s" by blast
  with Cons.IH [of t] Cons.prems show ?case by auto
qed simp

text \<open>
  Every reply connects: the connect handler is called for each piece of data that the parser
  takes, whatever its status line and fields are, so a refusal of the upgrade is reported to the
  application as a connection, and a reply in two pieces as two.
\<close>
theorem WsUV_any_reply_connects:
  assumes "ws_socket_data s" "ws_parser_m s = Some p" "connect_handler_m s = Some h" "d \<noteq> []"
    and "http_parser_execute (libs E) p d = (evs, length d, p')"
  shows "\<exists>t. WsUV_OnRead E (int (length d)) d s = on_connect E h t \<and> ws_parser_m t = Some p' \<and> ws_written t = ws_written s"
proof -
  obtain t where "ws_parser_callbacks evs s = Ret () t" "connect_handler_m t = Some h" "ws_written t = ws_written s"
    using ws_parser_callbacks_ok [of s evs] assms(2,3) by auto
  with assms show ?thesis
    by (intro exI [of _ "t\<lparr>ws_parser_m := Some p'\<rparr>"]) (simp add: WsUV_OnRead_def call_connect_handler_def Let_def)
qed

theorem WsUV_any_reply_connects_witness:
  "\<exists>t. WsUV_OnRead sample_ws_uv (int (length ''HTTP/1.1 403'')) ''HTTP/1.1 403''
      ((WsUV_new 7)\<lparr>ws_socket_data := True, ws_parser_m := Some (), connect_handler_m := Some ()\<rparr>) = on_connect sample_ws_uv () t \<and>
    ws_parser_m t = Some () \<and>
    ws_written t = ws_written ((WsUV_new 7 :: (unit, nat, unit) ws_uv)\<lparr>ws_socket_data := True, ws_parser_m := Some (), connect_handler_m := Some ()\<rparr>)"
  by (rule WsUV_any_reply_connects [where p = "()" and evs = "[on_status ''Forbidden'' 403]"])
    (simp_all add: sample_ws_uv_def)

end
