(* ===== verification/Ws_Client.thy ===== *)
theory Ws_Client
  imports Ws_Events Ws_Uv "HOL-Library.Multiset"
begin

text \<open>
  The WebSocket session that applications use, \<^verbatim>\<open>src/net/ws_cli/session.cpp\<close>, \<^verbatim>\<open>src/net/ws_cli/session.h\<close>
  and \<^verbatim>\<open>src/net/ws_cli/session_impl.cpp\<close>: the virtual functions of an implementation as a record, and
  the facade on top of it. Both implementations are given as such records.
\<close>

section \<open>The interface\<close>

datatype ('c, 'm) ws_option = ConnectOption 'c | MessageOption 'm | WsUrlOption Url

record ('c, 'm, 's) WsSessionImpl =
  Impl_DoClose :: "'s \<Rightarrow> (int, 's) outcome"
  Impl_DoInit :: "'s \<Rightarrow> (int, 's) outcome"
  Impl_DoConnect :: "'s \<Rightarrow> (int, 's) outcome"
  Impl_DoSendMsg :: "bytes \<Rightarrow> 's \<Rightarrow> (int \<times> bytes, 's) outcome"
  Impl_SetConnectHandler :: "'c \<Rightarrow> 's \<Rightarrow> 's"
  Impl_SetMessageHandler :: "'m \<Rightarrow> 's \<Rightarrow> 's"
  Impl_SetUrl :: "Url \<Rightarrow> 's \<Rightarrow> 's"

definition WsSession_Close :: "('c, 'm, 's) WsSessionImpl \<Rightarrow> 's \<Rightarrow> (int, 's) outcome" where
  "WsSession_Close V s = Impl_DoClose V s"

definition WsSession_Connect :: "('c, 'm, 's) WsSessionImpl \<Rightarrow> 's \<Rightarrow> (int, 's) outcome" where
  "WsSession_Connect V s = Impl_DoConnect V s"

text \<open>The \<open>int\<close> of \<open>DoInit\<close> is converted to \<open>bool\<close>.\<close>

definition WsSession_Init :: "('c, 'm, 's) WsSessionImpl \<Rightarrow> 's \<Rightarrow> (bool, 's) outcome" where
  "WsSession_Init V s = andThen (Impl_DoInit V s) (\<lambda>rc s. Ret (rc \<noteq> 0) s)"

definition WsSession_SendMsg :: "('c, 'm, 's) WsSessionImpl \<Rightarrow> bytes \<Rightarrow> 's \<Rightarrow> (int \<times> bytes, 's) outcome" where
  "WsSession_SendMsg V msg s = Impl_DoSendMsg V msg s"

definition ws_SetOption :: "('c, 'm, 's) WsSessionImpl \<Rightarrow> ('c, 'm) ws_option \<Rightarrow> 's \<Rightarrow> 's" where
  "ws_SetOption V opt s =
     (case opt of
        ConnectOption connect_handler \<Rightarrow> Impl_SetConnectHandler V connect_handler s
      | MessageOption message_handler \<Rightarrow> Impl_SetMessageHandler V message_handler s
      | WsUrlOption u \<Rightarrow> Impl_SetUrl V u s)"

definition WsSession_SetOption :: "('c, 'm, 's) WsSessionImpl \<Rightarrow> ('c, 'm) ws_option list \<Rightarrow> 's \<Rightarrow> 's" where
  "WsSession_SetOption V opts s = foldl (\<lambda>s opt. ws_SetOption V opt s) s opts"

section \<open>The implementations\<close>

definition WsEV_SetUrl :: "Url \<Rightarrow> ('w, 'h) session \<Rightarrow> ('w, 'h) session" where
  "WsEV_SetUrl u s = s"

definition WsEV :: "('w, 'h) env \<Rightarrow> loop_event list \<Rightarrow> ('h option, 'h MessageHandler, ('w, 'h) session) WsSessionImpl" where
  "WsEV E evs =
     \<lparr>Impl_DoClose = DoClose E, Impl_DoInit = (\<lambda>s. let (rc, s) = DoInit E s in Ret rc s), Impl_DoConnect = DoConnect E evs,
      Impl_DoSendMsg = DoSendMsg E, Impl_SetConnectHandler = SetConnectHandler, Impl_SetMessageHandler = SetMessageHandler,
      Impl_SetUrl = WsEV_SetUrl\<rparr>"

definition WsUV :: "('p, 'w, 'h) ws_uv_env \<Rightarrow> uv_event list \<Rightarrow> ('h option, 'h option, ('p, 'w, 'h) ws_uv) WsSessionImpl" where
  "WsUV E evs =
     \<lparr>Impl_DoClose = (\<lambda>s. let (rc, s) = WsUV_DoClose s in Ret rc s), Impl_DoInit = (\<lambda>s. let (rc, s) = WsUV_DoInit E s in Ret rc s),
      Impl_DoConnect = WsUV_DoConnect E evs, Impl_DoSendMsg = WsUV_DoSendMsg E,
      Impl_SetConnectHandler = WsUV_SetConnectHandler, Impl_SetMessageHandler = WsUV_SetMessageHandler,
      Impl_SetUrl = WsUV_SetUrl E\<rparr>"

section \<open>What an implementation promises\<close>

text \<open>
  The contract of an implementation: options of different kinds do not interfere, and \<open>DoInit\<close>
  returns with 0 or -1. Then the options of a call may be given in any order, and what \<open>Init\<close> returns
  says that the initialisation failed.
\<close>

fun ws_kind :: "('c, 'm) ws_option \<Rightarrow> nat" where
  "ws_kind (ConnectOption _) = 0"
| "ws_kind (MessageOption _) = 1"
| "ws_kind (WsUrlOption _) = 2"

locale ws_backend =
  fixes V :: "('c, 'm, 's) WsSessionImpl"
  assumes swap: "ws_kind a \<noteq> ws_kind b \<Longrightarrow> ws_SetOption V a (ws_SetOption V b s) = ws_SetOption V b (ws_SetOption V a s)"
    and init: "ends (\<lambda>_. False) (\<lambda>rc _. rc = 0 \<or> rc = -1) (Impl_DoInit V s)"
begin

lemma options_any_order:
  assumes "distinct (map ws_kind xs)" "mset xs = mset ys"
  shows "WsSession_SetOption V xs s = WsSession_SetOption V ys s"
proof -
  have "fold (ws_SetOption V) xs = fold (ws_SetOption V) ys"
  proof (rule fold_multiset_equiv [OF _ assms(2)])
    fix x y assume xy: "x \<in> set xs" "y \<in> set xs"
    show "ws_SetOption V x \<circ> ws_SetOption V y = ws_SetOption V y \<circ> ws_SetOption V x"
    proof (cases "x = y")
      case False
      then have "ws_kind x \<noteq> ws_kind y" using assms(1) xy by (auto simp: distinct_map inj_on_def)
      then show ?thesis by (auto simp: swap)
    qed simp
  qed
  then show ?thesis by (simp add: WsSession_SetOption_def foldl_conv_fold)
qed

lemma Init_reports_failure:
  "ends (\<lambda>_. False) (\<lambda>failed t. Impl_DoInit V s = Ret (if failed then -1 else 0) t) (WsSession_Init V s)"
  using init [of s] by (cases "Impl_DoInit V s") (auto simp: WsSession_Init_def)

end

interpretation ev: ws_backend "WsEV E evs" for E evs
proof
  show "ws_kind a \<noteq> ws_kind b \<Longrightarrow> ws_SetOption (WsEV E evs) a (ws_SetOption (WsEV E evs) b s) =
      ws_SetOption (WsEV E evs) b (ws_SetOption (WsEV E evs) a s)" for a b s
    by (cases a; cases b) (simp_all add: ws_SetOption_def WsEV_def SetConnectHandler_def SetMessageHandler_def WsEV_SetUrl_def)
  show "ends (\<lambda>_. False) (\<lambda>rc _. rc = 0 \<or> rc = -1) (Impl_DoInit (WsEV E evs) s)" for s
    by (auto simp: WsEV_def DoInit_def Let_def split: prod.split)
qed

interpretation uv: ws_backend "WsUV E evs" for E evs
proof
  show "ws_kind a \<noteq> ws_kind b \<Longrightarrow> ws_SetOption (WsUV E evs) a (ws_SetOption (WsUV E evs) b s) =
      ws_SetOption (WsUV E evs) b (ws_SetOption (WsUV E evs) a s)" for a b s
    by (cases a; cases b) (simp_all add: ws_SetOption_def WsUV_def WsUV_SetConnectHandler_def WsUV_SetMessageHandler_def WsUV_SetUrl_def)
  show "ends (\<lambda>_. False) (\<lambda>rc _. rc = 0 \<or> rc = -1) (Impl_DoInit (WsUV E evs) s)" for s
    by (auto simp: WsUV_def WsUV_DoInit_def Let_def)
qed

text \<open>
  \<open>Session::Init\<close> is inverted for both implementations: it returns true exactly when \<open>DoInit\<close> has
  failed, although its type suggests the opposite.
\<close>
theorem Init_true_means_failure:
  "(\<exists>t. WsSession_Init (WsEV E evs) s = Ret True t) \<longleftrightarrow> fst (DoInit E s) = -1"
  "\<exists>t. WsSession_Init (WsUV F fevs) r = Ret False t"
proof -
  show "(\<exists>t. WsSession_Init (WsEV E evs) s = Ret True t) \<longleftrightarrow> fst (DoInit E s) = -1"
    using ev.init [of E evs s] by (auto simp: WsSession_Init_def WsEV_def case_prod_unfold Let_def)
  show "\<exists>t. WsSession_Init (WsUV F fevs) r = Ret False t"
    by (simp add: WsSession_Init_def WsUV_def WsUV_DoInit_def Let_def)
qed

section \<open>Connecting with a greeting\<close>

text \<open>The libraries' set-up calls succeed.\<close>

definition setup_ok :: "('w, 'h) env \<Rightarrow> bool" where
  "setup_ok E \<longleftrightarrow> (\<forall>w. fst (WSAStartup E w) = 0 \<and> fst (event_base_new E w) \<and> fst (evdns_base_new E w) \<and>
     fst (bufferevent_socket_new E w))"

text \<open>A connect handler that sends \<open>msg\<close>, with the libraries \<open>F\<close>, and does nothing else.\<close>

definition greets :: "('w, 'h) env \<Rightarrow> ('w, 'h) env \<Rightarrow> 'h \<Rightarrow> bytes \<Rightarrow> bool" where
  "greets E F h msg \<longleftrightarrow>
     (\<forall>s. user E h user_event.Connected s = andThen (WsSession_SendMsg (WsEV F []) msg s) (\<lambda>_ s. Ret () s))"

lemma SetupConnectionTimeout_ok:
  assumes "env_no_failure E"
  obtains w where "SetupConnectionTimeout E s = (0, s\<lparr>connectTimeoutEvent_m := True, world := w\<rparr>)"
proof -
  have "fst (evtimer_new E w) = True" "fst (evtimer_add E tv w) = 0" for tv w
    using env_no_failureD [OF assms] by auto
  then show ?thesis
    using that by (auto simp: SetupConnectionTimeout_def SetupTimeoutEvent_def Let_def case_prod_unfold)
qed

lemma greeting_sent:
  assumes "env_laws F" "env_no_failure F" "greets E F h msg" "length msg \<le> WS_MAX_PAYLOAD_LEN"
    and "state_m u = CONNECTED" "sendState_m u = SEND_NONE" "maxFrameSize_m u = 0" "bev_m u = Some out" "bev_input u = []"
  obtains key hd w where "andThen (ConnectHandler_call E (Some h) u) (\<lambda>_ s. read_input E s) =
    Ret () (u\<lparr>wsHeader_m := hd, bev_m := Some (out @ rfc_header (frame_header TEXT_0X1 key) (length msg mod 128) @
      xor_key (store_le 4 key) msg), world := w\<rparr>)"
proof -
  obtain key w where f: "SendFrameRaw F TEXT_0X1 msg u = Ret (0, xor_key (store_le 4 key) msg)
      (u\<lparr>wsHeader_m := WSHeader0\<lparr>fin := 1, opcode := of_nat (opcode_value TEXT_0X1), maskBit := 1,
            payloadLen := of_nat (length msg), mask_key := key\<rparr>,
         bev_m := Some (out @ rfc_header (WSHeader0\<lparr>fin := 1, opcode := of_nat (opcode_value TEXT_0X1),
            maskBit := 1, mask_key := key\<rparr>) (length msg mod 128) @ xor_key (store_le 4 key) msg),
         world := w\<rparr>)" (is "_ = Ret _ ?z")
    by (rule SendFrameRaw_ok [OF assms(1,2,6,8) _ assms(4), of TEXT_0X1]) (simp_all add: IsControlOpcode_def)
  have "ConnectHandler_call E (Some h) u = Ret () ?z"
    using assms(3,5,7) f by (simp add: ConnectHandler_call_def greets_def WsSession_SendMsg_def WsEV_def DoSendMsg_def SendMsgEx_def)
  moreover have "read_input E ?z = Ret () (?z\<lparr>bev_input := []\<rparr>)"
    using assms(9) by (simp add: read_input_def ReadWebsocket_def read_all_def)
  moreover have "?z\<lparr>bev_input := []\<rparr> = ?z"
    using assms(9) by (cases u) simp
  ultimately show ?thesis
    by (intro that) (simp add: frame_header_def)
qed

text \<open>The state in which the loop of \<open>DoConnect\<close> starts.\<close>

lemma DoConnect_starts:
  assumes "env_no_failure E" "setup_ok E" "state_m s = CLOSED_CLEANLY"
  obtains w r where "\<And>evs. DoConnect E evs s = andThen (event_base_dispatch E evs r) (\<lambda>_ s. Ret 0 s)"
    "state_m r = CONNECTING" "connectState_m r = connectState_m s" "bev_m r = Some []" "bev_input r = []"
    "numSubprotocols_m r = numSubprotocols_m s" "onConnect_m r = onConnect_m s" "sendState_m r = sendState_m s"
    "maxFrameSize_m r = maxFrameSize_m s"
proof -
  obtain w1 where b: "bufferevent_socket_new E (world s) = (True, w1)"
    using assms(2) by (metis setup_ok_def prod.collapse)
  obtain rc w2 where c: "bufferevent_socket_connect_hostname E ''123.207.136.134'' 9091 w1 = (rc, w2)" by force
  let ?o = "''http://'' @ ''123.207.136.134'' @ '':'' @ dec_int 9091"
  let ?r = "s\<lparr>uri_m := ''/ajaxchattest'', host_m := ''123.207.136.134'', port_m := 9091, receivedCloseFlag_m := False,
    sentCloseFlag_m := False, inMsgFlag_m := False, origin_m := ?o, bev_m := Some [], bev_input := [], world := w2,
    state_m := CONNECTING\<rparr>"
  obtain w where t: "SetupConnectionTimeout E ?r = (0, ?r\<lparr>connectTimeoutEvent_m := True, world := w\<rparr>)"
    by (rule SetupConnectionTimeout_ok [OF assms(1)])
  have "DoConnect E evs s = andThen (event_base_dispatch E evs (?r\<lparr>connectTimeoutEvent_m := True, world := w\<rparr>)) (\<lambda>_ s. Ret 0 s)" for evs
    using assms(3) b c t by (simp add: DoConnect_def)
  then show ?thesis by (rule that) simp_all
qed

lemma connect_and_greet:
  assumes "env_laws E" "env_no_failure E" "env_laws F" "env_no_failure F" "setup_ok E" "greets E F h msg"
    and "length msg \<le> WS_MAX_PAYLOAD_LEN" "plain phrase" "phrase = [] \<or> \<not> isdigit (hd phrase)"
    and "state_m s = CLOSED_CLEANLY" "connectState_m s = CONN_NONE" "numSubprotocols_m s = 0" "onConnect_m s = Some h"
      "sendState_m s = SEND_NONE" "maxFrameSize_m s = 0"
  shows "\<exists>key t. DoConnect E [BevEvent BEV_EVENT_CONNECTED, Readable (conforming_reply E t phrase)] s = Ret 0 t \<and>
    state_m t = CONNECTED \<and> bev_m t = Some (to_bytes (concat (handshake_lines t)) @
      rfc_header (frame_header TEXT_0X1 key) (length msg mod 128) @ xor_key (store_le 4 key) msg)"
proof -
  obtain r where r: "\<And>evs. DoConnect E evs s = andThen (event_base_dispatch E evs r) (\<lambda>_ s. Ret 0 s)"
    "state_m r = CONNECTING" "connectState_m r = CONN_NONE" "bev_m r = Some []" "bev_input r = []"
    "numSubprotocols_m r = 0" "onConnect_m r = Some h" "sendState_m r = SEND_NONE" "maxFrameSize_m r = 0"
    using DoConnect_starts [OF assms(2,5,10)] assms(11-15) by metis
  obtain k w t u where t: "t = r\<lparr>handshakeKeyBase64_m := k, world := w, connectState_m := SENT_REQ,
      bev_m := Some ([] @ to_bytes (concat (handshake_lines (r\<lparr>handshakeKeyBase64_m := k\<rparr>))))\<rparr>"
    and u: "u = t\<lparr>header_m := accepted_headers E t, httpHeaderFlags_m := 7, connectState_m := HANDSHAKE_COMPLETE,
      bev_input := [], state_m := CONNECTED\<rparr>"
    and c: "callback E (BevEvent BEV_EVENT_CONNECTED) r = Ret () t"
      "callback E (Readable (conforming_reply E t phrase @ [])) t =
         andThen (ConnectHandler_call E (onConnect_m r) u) (\<lambda>_ s. read_input E s)"
    using conforming_reply_connects [OF assms(1,2) r(2-6) assms(8,9), of "[]"] by blast
  have uf: "state_m u = CONNECTED" "sendState_m u = SEND_NONE" "maxFrameSize_m u = 0" "bev_input u = []"
    "bev_m u = Some (to_bytes (concat (handshake_lines (r\<lparr>handshakeKeyBase64_m := k\<rparr>))))"
    using r by (simp_all add: u t)
  obtain key hd w' where g: "andThen (ConnectHandler_call E (Some h) u) (\<lambda>_ s. read_input E s) =
    Ret () (u\<lparr>wsHeader_m := hd, bev_m := Some (to_bytes (concat (handshake_lines (r\<lparr>handshakeKeyBase64_m := k\<rparr>))) @
      rfc_header (frame_header TEXT_0X1 key) (length msg mod 128) @ xor_key (store_le 4 key) msg), world := w'\<rparr>)"
    (is "_ = Ret () ?z")
    by (rule greeting_sent [OF assms(3,4,6,7) uf(1-3,5,4)])
  have "conforming_reply E ?z phrase = conforming_reply E t phrase" "handshake_lines ?z = handshake_lines (r\<lparr>handshakeKeyBase64_m := k\<rparr>)"
    by (simp_all add: conforming_reply_def accept_value_def handshake_lines_def u t)
  moreover have "enabled r (BevEvent BEV_EVENT_CONNECTED)" "enabled t (Readable d)" for d
    using r by (simp_all add: enabled_def t)
  ultimately show ?thesis
    using r(1,7) c g uf(1) by (intro exI [of _ key] exI [of _ ?z]) simp
qed

end
