(* ===== verification/Host_Check.thy ===== *)
theory Host_Check
  imports Prelude
begin

text \<open>
  Does a server certificate belong to a host? \<^verbatim>\<open>host_check.cpp\<close> and
  \<^verbatim>\<open>openssl_hostname_validation.cpp\<close> of \<^verbatim>\<open>src/net/http_cli/implement/ev\<close>. A C string is a \<open>string\<close>
  without NUL, a pointer into it a suffix, and the character behind its end is NUL. What OpenSSL
  returns for a certificate is a record.
\<close>

section \<open>Comparing names\<close>

definition Curl_raw_toupper :: "char \<Rightarrow> char" where
  "Curl_raw_toupper c =
     (case map_of (zip ''abcdefghijklmnopqrstuvwxyz'' ''ABCDEFGHIJKLMNOPQRSTUVWXYZ'') c of
        None \<Rightarrow> c | Some u \<Rightarrow> u)"

definition c_head :: "string \<Rightarrow> char" where
  "c_head s = (case s of [] \<Rightarrow> CHR 0x00 | c # _ \<Rightarrow> c)"

fun Curl_raw_equal :: "string \<Rightarrow> string \<Rightarrow> bool" where
  "Curl_raw_equal (a # first) (b # second) =
     (if Curl_raw_toupper a \<noteq> Curl_raw_toupper b then Curl_raw_toupper a = Curl_raw_toupper b
      else Curl_raw_equal first second)"
| "Curl_raw_equal first second = (Curl_raw_toupper (c_head first) = Curl_raw_toupper (c_head second))"

fun Curl_raw_nequal :: "string \<Rightarrow> string \<Rightarrow> nat \<Rightarrow> bool" where
  "Curl_raw_nequal (a # first) (b # second) (Suc n) =
     (if Curl_raw_toupper a \<noteq> Curl_raw_toupper b then Curl_raw_toupper a = Curl_raw_toupper b
      else Curl_raw_nequal first second n)"
| "Curl_raw_nequal first second n =
     (if n = 0 then True else Curl_raw_toupper (c_head first) = Curl_raw_toupper (c_head second))"

definition strchr :: "string \<Rightarrow> char \<Rightarrow> string option" where
  "strchr s c = (case dropWhile (\<lambda>x. x \<noteq> c) s of [] \<Rightarrow> None | r \<Rightarrow> Some r)"

text \<open>The difference of two pointers into a string is the difference of what lies behind them.\<close>

definition hostmatch :: "string \<Rightarrow> string \<Rightarrow> bool" where
  "hostmatch hostname pattern =
     (case strchr pattern CHR ''*'' of
        None \<Rightarrow> Curl_raw_equal pattern hostname
      | Some pattern_wildcard \<Rightarrow>
          (case strchr pattern CHR ''.'' of
             None \<Rightarrow> Curl_raw_equal pattern hostname
           | Some pattern_label_end \<Rightarrow>
               if strchr (tl pattern_label_end) CHR ''.'' = None \<or>
                  length pattern_wildcard < length pattern_label_end \<or>
                  Curl_raw_nequal pattern ''xn--'' 4
               then Curl_raw_equal pattern hostname
               else
                 (case strchr hostname CHR ''.'' of
                    None \<Rightarrow> False
                  | Some hostname_label_end \<Rightarrow>
                      if \<not> Curl_raw_equal pattern_label_end hostname_label_end then False
                      else if length hostname - length hostname_label_end < length pattern - length pattern_label_end
                      then False
                      else
                        (let prefixlen = length pattern - length pattern_wildcard;
                             suffixlen = length (tl pattern_wildcard) - length pattern_label_end
                         in Curl_raw_nequal pattern hostname prefixlen \<and>
                            Curl_raw_nequal (tl pattern_wildcard)
                              (drop (length hostname - length hostname_label_end - suffixlen) hostname) suffixlen))))"

definition Curl_cert_hostcheck :: "string option \<Rightarrow> string option \<Rightarrow> bool" where
  "Curl_cert_hostcheck match_pattern hostname =
     (case (match_pattern, hostname) of
        (Some p, Some h) \<Rightarrow>
          if p = [] \<or> h = [] then False else if Curl_raw_equal h p then True else hostmatch h p
      | _ \<Rightarrow> False)"

section \<open>What matching means\<close>

abbreviation upper :: "string \<Rightarrow> string" where
  "upper \<equiv> map Curl_raw_toupper"

text \<open>
  RFC 6125, section 6.4.3: the first asterisk of the pattern is in its leftmost label, it stands
  for at least one character of the leftmost label of the host, there are two dots at least, and
  the label is not an A-label of an internationalised name.
\<close>

definition wildcard_match :: "string \<Rightarrow> string \<Rightarrow> bool" where
  "wildcard_match pattern hostname \<longleftrightarrow>
     (\<exists>prefix suffix domain stands_for.
        pattern = prefix @ ''*'' @ suffix @ ''.'' @ domain \<and>
        CHR ''*'' \<notin> set prefix \<and> CHR ''.'' \<notin> set (prefix @ suffix) \<and> CHR ''.'' \<in> set domain \<and>
        upper (take 4 pattern) \<noteq> ''XN--'' \<and>
        stands_for \<noteq> [] \<and> CHR ''.'' \<notin> set stands_for \<and>
        upper hostname = upper (prefix @ stands_for @ suffix @ ''.'' @ domain))"

lemma toupper_cases:
  "Curl_raw_toupper c = c \<or> c \<in> set ''abcdefghijklmnopqrstuvwxyz'' \<and> Curl_raw_toupper c \<in> set ''ABCDEFGHIJKLMNOPQRSTUVWXYZ''"
  by (simp add: Curl_raw_toupper_def)

lemma toupper_iff [simp]:
  "Curl_raw_toupper c = CHR 0x00 \<longleftrightarrow> c = CHR 0x00" "Curl_raw_toupper c = CHR ''.'' \<longleftrightarrow> c = CHR ''.''"
  using toupper_cases [of c] by (auto simp: Curl_raw_toupper_def)

lemma toupper_NUL [simp]: "Curl_raw_toupper CHR 0x00 = CHR 0x00" "CHR 0x00 = Curl_raw_toupper c \<longleftrightarrow> c = CHR 0x00"
  "Curl_raw_toupper CHR ''.'' = CHR ''.''" "CHR ''.'' = Curl_raw_toupper c \<longleftrightarrow> c = CHR ''.''"
  using toupper_iff by metis+

lemma Curl_raw_equal_iff:
  "CHR 0x00 \<notin> set a \<Longrightarrow> CHR 0x00 \<notin> set b \<Longrightarrow> Curl_raw_equal a b \<longleftrightarrow> upper a = upper b"
  by (induction a b rule: Curl_raw_equal.induct) (auto simp: c_head_def split: list.splits)

lemma Curl_raw_nequal_iff:
  "CHR 0x00 \<notin> set a \<Longrightarrow> CHR 0x00 \<notin> set b \<Longrightarrow> Curl_raw_nequal a b n \<longleftrightarrow> upper (take n a) = upper (take n b)"
proof (induction n arbitrary: a b)
  case 0
  then show ?case by (cases a; cases b) auto
next
  case (Suc n)
  then show ?case by (cases a; cases b) (auto simp: c_head_def)
qed

lemma strchr_None: "strchr s c = None \<longleftrightarrow> c \<notin> set s"
  by (induction s) (auto simp: strchr_def)

lemma strchr_append [simp]: "c \<notin> set p \<Longrightarrow> strchr (p @ c # t) c = Some (c # t)"
  by (induction p) (auto simp: strchr_def)

lemma strchr_Some:
  assumes "strchr s c = Some r"
  obtains p t where "s = p @ c # t" "c \<notin> set p" "r = c # t"
proof -
  have "c \<in> set s" using assms strchr_None [of s c] by auto
  then obtain p t where s: "s = p @ c # t" "c \<notin> set p" by (auto dest: split_list_first)
  then have "r = c # t" using assms by simp
  with s show ?thesis by (rule that)
qed

lemma upper_dot: "CHR ''.'' \<in> set (upper s) \<longleftrightarrow> CHR ''.'' \<in> set s"
  by (induction s) auto

lemma different_sets: "c \<notin> set a \<Longrightarrow> c \<in> set b \<Longrightarrow> a \<noteq> b"
  by auto

lemma upper_split:
  assumes "CHR ''.'' \<notin> set a" "CHR ''.'' \<notin> set b"
  shows "upper (a @ CHR ''.'' # c) = upper (b @ CHR ''.'' # d) \<longleftrightarrow> upper a = upper b \<and> upper c = upper d"
proof -
  have split: "takeWhile (\<lambda>x. x \<noteq> CHR ''.'') (upper s @ CHR ''.'' # v) = upper s"
      "dropWhile (\<lambda>x. x \<noteq> CHR ''.'') (upper s @ CHR ''.'' # v) = CHR ''.'' # v" if "CHR ''.'' \<notin> set s" for s v
    using that by (induction s) auto
  have "upper a = upper b \<and> upper c = upper d" if eq: "upper a @ CHR ''.'' # upper c = upper b @ CHR ''.'' # upper d"
    using arg_cong [OF eq, of "takeWhile (\<lambda>x. x \<noteq> CHR ''.'')"] arg_cong [OF eq, of "dropWhile (\<lambda>x. x \<noteq> CHR ''.'')"]
    by (simp only: split [OF assms(1)] split [OF assms(2)]) simp
  then show ?thesis by auto
qed

text \<open>A label that starts with a prefix and ends with a suffix, and has something between them.\<close>

lemma label_split:
  assumes "length prefix + length suffix < length label"
    "upper (take (length prefix) label) = upper prefix"
    "upper (drop (length label - length suffix) label) = upper suffix"
  shows "\<exists>m. m \<noteq> [] \<and> set m \<subseteq> set label \<and> upper label = upper (prefix @ m @ suffix)"
proof -
  define a r where "a = take (length prefix) label" and "r = drop (length prefix) label"
  define m b where "m = take (length r - length suffix) r" and "b = drop (length r - length suffix) r"
  have l: "label = a @ m @ b" unfolding m_def b_def append_take_drop_id a_def r_def ..
  have n: "length a = length prefix" "length b = length suffix" "m \<noteq> []"
    using assms(1) by (simp_all add: a_def r_def m_def b_def)
  have "upper a = upper prefix" "upper b = upper suffix"
    using assms(2,3) n(1,2) unfolding l by simp_all
  with n(3) l show ?thesis by (intro exI [of _ m]) auto
qed

lemma xn_iff:
  assumes "CHR 0x00 \<notin> set p"
  shows "Curl_raw_nequal p ''xn--'' 4 \<longleftrightarrow> upper (take 4 p) = ''XN--''"
proof -
  have "upper (take 4 ''xn--'') = ''XN--''" by (simp add: Curl_raw_toupper_def)
  then show ?thesis using Curl_raw_nequal_iff [OF assms, of "''xn--''" 4] by simp
qed

lemma label_compares:
  assumes "CHR 0x00 \<notin> set (label @ CHR ''.'' # hdomain)" "CHR 0x00 \<notin> set (prefix @ CHR ''*'' # suffix @ CHR ''.'' # domain)"
    "length prefix + length suffix < length label"
  shows "Curl_raw_nequal (prefix @ CHR ''*'' # suffix @ CHR ''.'' # domain) (label @ CHR ''.'' # hdomain) (length prefix) \<longleftrightarrow>
      upper (take (length prefix) label) = upper prefix"
    "Curl_raw_nequal (suffix @ CHR ''.'' # domain) (drop (length label - length suffix) (label @ CHR ''.'' # hdomain)) (length suffix) \<longleftrightarrow>
      upper (drop (length label - length suffix) label) = upper suffix"
proof -
  show "Curl_raw_nequal (prefix @ CHR ''*'' # suffix @ CHR ''.'' # domain) (label @ CHR ''.'' # hdomain) (length prefix) \<longleftrightarrow>
      upper (take (length prefix) label) = upper prefix"
    using assms(3) Curl_raw_nequal_iff [OF assms(2,1), of "length prefix"] by auto
  have "CHR 0x00 \<notin> set (suffix @ CHR ''.'' # domain)" using assms(2) by simp
  moreover have "CHR 0x00 \<notin> set (drop (length label - length suffix) (label @ CHR ''.'' # hdomain))"
    using assms(1) in_set_dropD by metis
  ultimately show "Curl_raw_nequal (suffix @ CHR ''.'' # domain) (drop (length label - length suffix) (label @ CHR ''.'' # hdomain)) (length suffix) \<longleftrightarrow>
      upper (drop (length label - length suffix) label) = upper suffix"
    using assms(3) by (subst Curl_raw_nequal_iff) (auto simp: eq_commute)
qed

lemma hostmatch_enabled:
  assumes "strchr pattern CHR ''*'' = Some w" "strchr pattern CHR ''.'' = Some l" "strchr (tl l) CHR ''.'' \<noteq> None"
    "\<not> length w < length l" "\<not> Curl_raw_nequal pattern ''xn--'' 4"
  shows "hostmatch hostname pattern =
    (case strchr hostname CHR ''.'' of None \<Rightarrow> False
     | Some hle \<Rightarrow> Curl_raw_equal l hle \<and> length pattern - length l \<le> length hostname - length hle \<and>
         Curl_raw_nequal pattern hostname (length pattern - length w) \<and>
         Curl_raw_nequal (tl w) (drop (length hostname - length hle - (length (tl w) - length l)) hostname)
           (length (tl w) - length l))"
  using assms(3-5) unfolding hostmatch_def assms(1,2) by (cases "strchr hostname CHR ''.''") (auto simp: Let_def not_less)

lemma hostmatch_wildcard_eq:
  fixes prefix suffix domain hostname :: string
  defines "p \<equiv> prefix @ CHR ''*'' # suffix @ CHR ''.'' # domain"
  assumes p: "CHR 0x00 \<notin> set p"
    and dots: "CHR ''*'' \<notin> set prefix" "CHR ''.'' \<notin> set (prefix @ suffix)" "CHR ''.'' \<in> set domain"
    and xn: "upper (take 4 p) \<noteq> ''XN--''"
  shows "hostmatch hostname p =
      (case strchr hostname CHR ''.'' of None \<Rightarrow> False
       | Some hle \<Rightarrow> Curl_raw_equal (CHR ''.'' # domain) hle \<and>
           length prefix + 1 + length suffix \<le> length hostname - length hle \<and>
           Curl_raw_nequal p hostname (length prefix) \<and>
           Curl_raw_nequal (suffix @ CHR ''.'' # domain) (drop (length hostname - length hle - length suffix) hostname) (length suffix))"
proof -
  have s: "strchr p CHR ''*'' = Some (CHR ''*'' # suffix @ CHR ''.'' # domain)"
    unfolding p_def by (rule strchr_append [OF dots(1)])
  have "CHR ''.'' \<notin> set (prefix @ CHR ''*'' # suffix)" using dots(2) by simp
  from strchr_append [OF this, of domain] have d: "strchr p CHR ''.'' = Some (CHR ''.'' # domain)" by (simp add: p_def)
  have nx: "\<not> Curl_raw_nequal p ''xn--'' 4"
    using xn xn_iff [OF p] by blast
  have dd: "strchr domain CHR ''.'' \<noteq> None" using dots(3) by (simp only: strchr_None not_not)
  have n: "length p - length (CHR ''.'' # domain) = length prefix + 1 + length suffix"
      "length p - length (CHR ''*'' # suffix @ CHR ''.'' # domain) = length prefix"
      "length (suffix @ CHR ''.'' # domain) - length (CHR ''.'' # domain) = length suffix"
      "\<not> length (CHR ''*'' # suffix @ CHR ''.'' # domain) < length (CHR ''.'' # domain)" by (simp_all add: p_def)
  show ?thesis using hostmatch_enabled [OF s d _ n(4) nx, unfolded list.sel n, OF dd] .
qed

lemma hostmatch_wildcard:
  fixes prefix suffix domain hostname :: string
  defines "p \<equiv> prefix @ CHR ''*'' # suffix @ CHR ''.'' # domain"
  assumes host: "CHR 0x00 \<notin> set hostname" and p: "CHR 0x00 \<notin> set p"
    and dots: "CHR ''*'' \<notin> set prefix" "CHR ''.'' \<notin> set (prefix @ suffix)" "CHR ''.'' \<in> set domain"
    and xn: "upper (take 4 p) \<noteq> ''XN--''"
  shows "hostmatch hostname p \<longleftrightarrow>
    (\<exists>m. m \<noteq> [] \<and> CHR ''.'' \<notin> set m \<and> upper hostname = upper ((prefix @ m @ suffix) @ CHR ''.'' # domain))"
proof -
  note H = hostmatch_wildcard_eq [OF p [unfolded p_def] dots xn [unfolded p_def], of hostname, folded p_def]
  show ?thesis
  proof (cases "strchr hostname CHR ''.''")
    case None
    then have "CHR ''.'' \<notin> set (upper hostname)" by (simp only: upper_dot strchr_None not_False_eq_True)
    moreover have "CHR ''.'' \<in> set (upper ((prefix @ m @ suffix) @ CHR ''.'' # domain))" for m by (simp only: upper_dot) simp
    ultimately have "upper hostname \<noteq> upper ((prefix @ m @ suffix) @ CHR ''.'' # domain)" for m by (rule different_sets)
    then show ?thesis unfolding H None by auto
  next
    case (Some r)
    then obtain label hdomain where h: "hostname = label @ CHR ''.'' # hdomain" "CHR ''.'' \<notin> set label"
        "r = CHR ''.'' # hdomain" by (rule strchr_Some)
    have e: "Curl_raw_equal (CHR ''.'' # domain) (CHR ''.'' # hdomain) \<longleftrightarrow> upper domain = upper hdomain"
      using host p by (subst Curl_raw_equal_iff) (simp_all add: h(1) p_def)
    have ll: "length hostname - length (CHR ''.'' # hdomain) = length label" by (simp add: h(1))
    have M: "hostmatch hostname p \<longleftrightarrow> upper domain = upper hdomain \<and> length prefix + length suffix < length label \<and>
        upper (take (length prefix) label) = upper prefix \<and> upper (drop (length label - length suffix) label) = upper suffix"
      unfolding H Some option.case h(3) e ll using label_compares [OF host [unfolded h(1)] p [unfolded p_def]]
      unfolding p_def h(1) less_eq_Suc_le by auto
    have R: "upper hostname = upper ((prefix @ m @ suffix) @ CHR ''.'' # domain) \<longleftrightarrow>
        upper label = upper (prefix @ m @ suffix) \<and> upper hdomain = upper domain" if "CHR ''.'' \<notin> set m" for m
      unfolding h(1) using that dots(2) by (intro upper_split [OF h(2)]) simp
    show ?thesis
    proof
      assume "hostmatch hostname p"
      then obtain m where "m \<noteq> []" "set m \<subseteq> set label" "upper label = upper (prefix @ m @ suffix)" "upper hdomain = upper domain"
        using label_split [of prefix suffix label] unfolding M by auto
      then show "\<exists>m. m \<noteq> [] \<and> CHR ''.'' \<notin> set m \<and> upper hostname = upper ((prefix @ m @ suffix) @ CHR ''.'' # domain)"
        using R [of m] h(2) by (intro exI [of _ m]) auto
    next
      assume "\<exists>m. m \<noteq> [] \<and> CHR ''.'' \<notin> set m \<and> upper hostname = upper ((prefix @ m @ suffix) @ CHR ''.'' # domain)"
      then obtain m where m: "m \<noteq> []" "upper label = upper prefix @ upper m @ upper suffix" "upper hdomain = upper domain"
        using R by auto
      have "length label = length prefix + length m + length suffix" using arg_cong [OF m(2), of length] by simp
      then show "hostmatch hostname p" unfolding M using m by (simp flip: take_map drop_map)
    qed
  qed
qed

lemma hostmatch_other:
  assumes "\<nexists>prefix suffix domain. pattern = prefix @ CHR ''*'' # suffix @ CHR ''.'' # domain \<and> CHR ''*'' \<notin> set prefix \<and>
      CHR ''.'' \<notin> set (prefix @ suffix) \<and> CHR ''.'' \<in> set domain \<and> upper (take 4 pattern) \<noteq> ''XN--''"
    "CHR 0x00 \<notin> set pattern"
  shows "hostmatch hostname pattern = Curl_raw_equal pattern hostname"
proof (cases "strchr pattern CHR ''*'' = None \<or> strchr pattern CHR ''.'' = None")
  case False
  then obtain w l where S: "strchr pattern CHR ''*'' = Some w" "strchr pattern CHR ''.'' = Some l" by auto
  then obtain prefix wrest llabel domain where w: "pattern = prefix @ CHR ''*'' # wrest" "CHR ''*'' \<notin> set prefix" "w = CHR ''*'' # wrest"
      and l: "pattern = llabel @ CHR ''.'' # domain" "CHR ''.'' \<notin> set llabel" "l = CHR ''.'' # domain"
    by (metis strchr_Some)
  have "CHR ''.'' \<notin> set domain \<or> length w < length l \<or> upper (take 4 pattern) = ''XN--''"
  proof (rule ccontr)
    assume n: "\<not> ?thesis"
    have "prefix @ CHR ''*'' # wrest = llabel @ CHR ''.'' # domain" using w(1) l(1) by simp
    then obtain us where "prefix @ us = llabel \<and> CHR ''*'' # wrest = us @ CHR ''.'' # domain \<or>
        prefix = llabel @ us \<and> us @ CHR ''*'' # wrest = CHR ''.'' # domain"
      by (auto simp: append_eq_append_conv2)
    then have "\<exists>suffix. llabel = prefix @ CHR ''*'' # suffix \<and> wrest = suffix @ CHR ''.'' # domain"
      using n w(3) l(3) by (cases us) auto
    then obtain suffix where "llabel = prefix @ CHR ''*'' # suffix" "wrest = suffix @ CHR ''.'' # domain" by blast
    then show False using assms(1) [unfolded not_ex, rule_format, of prefix suffix domain] w(1,2) l(2) n by auto
  qed
  moreover note xn_iff [OF assms(2)]
  ultimately have "strchr (tl l) CHR ''.'' = None \<or> length w < length l \<or> Curl_raw_nequal pattern ''xn--'' 4"
    unfolding l(3) strchr_None by auto
  then show ?thesis unfolding hostmatch_def S by simp
qed (auto simp: hostmatch_def split: option.splits)

lemma hostmatch_iff:
  assumes "CHR 0x00 \<notin> set pattern" "CHR 0x00 \<notin> set hostname"
  shows "hostmatch hostname pattern \<or> upper pattern = upper hostname \<longleftrightarrow>
    upper pattern = upper hostname \<or> wildcard_match pattern hostname"
proof (cases "\<exists>prefix suffix domain. pattern = prefix @ CHR ''*'' # suffix @ CHR ''.'' # domain \<and> CHR ''*'' \<notin> set prefix \<and>
      CHR ''.'' \<notin> set (prefix @ suffix) \<and> CHR ''.'' \<in> set domain \<and> upper (take 4 pattern) \<noteq> ''XN--''")
  case True
  then obtain prefix suffix domain where p: "pattern = prefix @ CHR ''*'' # suffix @ CHR ''.'' # domain" "CHR ''*'' \<notin> set prefix"
      "CHR ''.'' \<notin> set (prefix @ suffix)" "CHR ''.'' \<in> set domain" "upper (take 4 pattern) \<noteq> ''XN--''" by blast
  note H = hostmatch_wildcard [OF assms(2) _ p(2-4) , folded p(1), OF assms(1) p(5)]
  have "hostmatch hostname pattern" if w: "wildcard_match pattern hostname"
  proof -
    obtain prefix' suffix' domain' m where w: "pattern = prefix' @ CHR ''*'' # suffix' @ CHR ''.'' # domain'" "CHR ''*'' \<notin> set prefix'"
      "CHR ''.'' \<notin> set (prefix' @ suffix')" "CHR ''.'' \<in> set domain'" "m \<noteq> []" "CHR ''.'' \<notin> set m"
      "upper hostname = upper (prefix' @ m @ suffix' @ ''.'' @ domain')" using w by (auto simp: wildcard_match_def)
    show ?thesis
      using hostmatch_wildcard [OF assms(2) _ w(2-4), folded w(1), OF assms(1) p(5)] w(5-7) by auto
  qed
  moreover have "wildcard_match pattern hostname" if "hostmatch hostname pattern"
    using that p unfolding H wildcard_match_def by auto
  ultimately show ?thesis by blast
next
  case False
  then have "hostmatch hostname pattern = Curl_raw_equal pattern hostname" using hostmatch_other [OF _ assms(1)] by blast
  moreover have "\<not> wildcard_match pattern hostname" using False by (auto simp: wildcard_match_def)
  ultimately show ?thesis using Curl_raw_equal_iff [OF assms] by blast
qed

lemma Curl_cert_hostcheck_matches:
  assumes "CHR 0x00 \<notin> set p" "CHR 0x00 \<notin> set h"
  shows "Curl_cert_hostcheck (Some p) (Some h) \<longleftrightarrow> p \<noteq> [] \<and> h \<noteq> [] \<and> (upper p = upper h \<or> wildcard_match p h)"
  using hostmatch_iff [OF assms] Curl_raw_equal_iff [OF assms(2,1)] by (auto simp: Curl_cert_hostcheck_def)

text \<open>
  C29. The host name check implements RFC 6125: a name in a certificate matches a host exactly if
  both are non-empty and they are equal up to the case of ASCII letters, or the name has a
  wildcard in its leftmost label which stands for at least one character of the leftmost label of
  the host, with the rest equal up to case and at least two dots in the name.
\<close>
theorem Curl_cert_hostcheck_iff:
  assumes "CHR 0x00 \<notin> set p" "CHR 0x00 \<notin> set h"
  shows "Curl_cert_hostcheck (Some p) (Some h) \<longleftrightarrow>
    p \<noteq> [] \<and> h \<noteq> [] \<and> (upper p = upper h \<or> wildcard_match p h)"
  by (rule Curl_cert_hostcheck_matches [OF assms])

theorem Curl_cert_hostcheck_iff_witness:
  "wildcard_match ''*.host.com'' ''foo.Host.com''"
proof -
  have "Curl_cert_hostcheck (Some ''*.host.com'') (Some ''foo.Host.com'')" by code_simp
  moreover have "upper ''*.host.com'' \<noteq> upper ''foo.Host.com''" by code_simp
  ultimately show ?thesis using Curl_cert_hostcheck_iff [of "''*.host.com''" "''foo.Host.com''"] by simp
qed

section \<open>Certificates\<close>

text \<open>
  What OpenSSL finds in a certificate: the names of the subject alternative name extension, if
  there is one; the index of the common name in the subject, negative if there is none; the entry
  at that index and its data, either of which may be null. The data of an \<open>ASN1_STRING\<close> are bytes
  that may contain NUL; in memory a NUL follows them.
\<close>

datatype GENERAL_NAME = GEN_DNS string | GEN_other

record X509 =
  X509_get_ext_d2i :: "GENERAL_NAME list option"
  X509_NAME_get_index_by_NID :: int
  X509_NAME_get_entry :: "string option option"

datatype HostnameValidationResult = MatchFound | MatchNotFound | NoSANPresent | MalformedCertificate | ValidationError

definition matches_common_name :: "string option \<Rightarrow> X509 \<Rightarrow> HostnameValidationResult" where
  "matches_common_name hostname server_cert =
     (if X509_NAME_get_index_by_NID server_cert < 0 then ValidationError
      else case X509_NAME_get_entry server_cert of
        None \<Rightarrow> ValidationError
      | Some common_name_asn1 \<Rightarrow>
          (case common_name_asn1 of
             None \<Rightarrow> ValidationError
           | Some data \<Rightarrow>
               if length data \<noteq> length (c_str data) then MalformedCertificate
               else if Curl_cert_hostcheck (Some (c_str data)) hostname then MatchFound else MatchNotFound))"

fun check_names :: "string option \<Rightarrow> GENERAL_NAME list \<Rightarrow> HostnameValidationResult" where
  "check_names hostname [] = MatchNotFound"
| "check_names hostname (current_name # names) =
     (case current_name of
        GEN_DNS data \<Rightarrow>
          if length data \<noteq> length (c_str data) then MalformedCertificate
          else if Curl_cert_hostcheck (Some (c_str data)) hostname then MatchFound
          else check_names hostname names
      | GEN_other \<Rightarrow> check_names hostname names)"

definition matches_subject_alternative_name :: "string option \<Rightarrow> X509 \<Rightarrow> HostnameValidationResult" where
  "matches_subject_alternative_name hostname server_cert =
     (case X509_get_ext_d2i server_cert of
        None \<Rightarrow> NoSANPresent
      | Some san_names \<Rightarrow> check_names hostname san_names)"

definition ValidateHostname :: "string option \<Rightarrow> X509 option \<Rightarrow> HostnameValidationResult" where
  "ValidateHostname hostname server_cert =
     (case (hostname, server_cert) of
        (Some _, Some cert) \<Rightarrow>
          (let result = matches_subject_alternative_name hostname cert
           in if result = NoSANPresent then matches_common_name hostname cert else result)
      | _ \<Rightarrow> ValidationError)"

definition name_of_host :: "string \<Rightarrow> string \<Rightarrow> bool" where
  "name_of_host name host \<longleftrightarrow>
     CHR 0x00 \<notin> set name \<and> name \<noteq> [] \<and> host \<noteq> [] \<and> (upper name = upper host \<or> wildcard_match name host)"

lemma c_str_length: "length data = length (c_str data) \<longleftrightarrow> CHR 0x00 \<notin> set data"
proof
  assume "length data = length (c_str data)"
  then have "c_str data = data" unfolding c_str_def by (metis append_self_conv length_append add_cancel_left_right length_0_conv takeWhile_dropWhile_id)
  then show "CHR 0x00 \<notin> set data" unfolding c_str_def using set_takeWhileD by fastforce
next
  assume "CHR 0x00 \<notin> set data"
  then have "c_str data = data" unfolding c_str_def by (subst takeWhile_eq_all_conv) auto
  then show "length data = length (c_str data)" by simp
qed

lemma name_of_host_iff:
  "CHR 0x00 \<notin> set host \<Longrightarrow> CHR 0x00 \<notin> set name \<Longrightarrow> Curl_cert_hostcheck (Some name) (Some host) \<longleftrightarrow> name_of_host name host"
  by (simp add: name_of_host_def Curl_cert_hostcheck_matches)

definition good_name_first :: "string \<Rightarrow> GENERAL_NAME list \<Rightarrow> bool" where
  "good_name_first host names \<longleftrightarrow>
     (\<exists>earlier name others. names = earlier @ GEN_DNS name # others \<and> name_of_host name host \<and>
        (\<forall>d. GEN_DNS d \<in> set earlier \<longrightarrow> CHR 0x00 \<notin> set d))"

lemma good_name_first_Cons:
  "good_name_first host (x # names) \<longleftrightarrow>
     (\<exists>name. x = GEN_DNS name \<and> name_of_host name host) \<or>
     (\<forall>d. x = GEN_DNS d \<longrightarrow> CHR 0x00 \<notin> set d) \<and> good_name_first host names"
  (is "?l \<longleftrightarrow> ?a \<or> ?b")
proof
  assume ?l
  then obtain earlier name others where e: "x # names = earlier @ GEN_DNS name # others" "name_of_host name host"
      "\<forall>d. GEN_DNS d \<in> set earlier \<longrightarrow> CHR 0x00 \<notin> set d" by (auto simp: good_name_first_def)
  show "?a \<or> ?b"
  proof (cases earlier)
    case (Cons y ys)
    then have "good_name_first host names" unfolding good_name_first_def
      using e by (intro exI [of _ ys] exI [of _ name] exI [of _ others]) auto
    then show ?thesis using e Cons by auto
  qed (use e in auto)
next
  assume "?a \<or> ?b"
  then show ?l
  proof
    assume ?a
    then show ?l unfolding good_name_first_def by (metis append_Nil empty_iff empty_set)
  next
    assume b: ?b
    then obtain earlier name others where "names = earlier @ GEN_DNS name # others" "name_of_host name host"
      "\<forall>d. GEN_DNS d \<in> set earlier \<longrightarrow> CHR 0x00 \<notin> set d" by (auto simp: good_name_first_def)
    with b show ?l unfolding good_name_first_def by (intro exI [of _ "x # earlier"]) auto
  qed
qed

lemma check_names_MatchFound:
  assumes "CHR 0x00 \<notin> set host"
  shows "check_names (Some host) names = MatchFound \<longleftrightarrow> good_name_first host names"
proof (induction names)
  case (Cons x names)
  show ?case
  proof (cases x)
    case (GEN_DNS d)
    show ?thesis
    proof (cases "CHR 0x00 \<in> set d")
      case True
      then have "length d \<noteq> length (c_str d)" by (simp add: c_str_length)
      then show ?thesis using True GEN_DNS by (simp add: good_name_first_Cons) (auto simp: name_of_host_def)
    next
      case False
      then show ?thesis
        using GEN_DNS Cons.IH by (simp add: good_name_first_Cons c_str_id name_of_host_iff [OF assms])
    qed
  qed (use Cons.IH in \<open>simp add: good_name_first_Cons\<close>)
qed (simp add: good_name_first_def)

lemma ValidateHostname_MatchFound:
  assumes "CHR 0x00 \<notin> set host"
  shows "ValidateHostname (Some host) (Some cert) = MatchFound \<longleftrightarrow>
    (case X509_get_ext_d2i cert of
       Some names \<Rightarrow> good_name_first host names
     | None \<Rightarrow> X509_NAME_get_index_by_NID cert \<ge> 0 \<and>
         (\<exists>name. X509_NAME_get_entry cert = Some (Some name) \<and> name_of_host name host))"
proof -
  have n: "check_names (Some host) names \<noteq> NoSANPresent" for names
    by (induction names) (auto split: GENERAL_NAME.splits)
  have c: "length name = length (c_str name) \<and> Curl_cert_hostcheck (Some (c_str name)) (Some host) \<longleftrightarrow> name_of_host name host" for name
    using name_of_host_iff [OF assms, of name] c_str_id [of name] by (auto simp: c_str_length name_of_host_def)
  show ?thesis
    using n c check_names_MatchFound [OF assms]
    by (auto simp: ValidateHostname_def matches_subject_alternative_name_def matches_common_name_def Let_def split: option.splits)
qed

text \<open>
  A certificate is accepted for a host exactly if it names the host: if it has a subject
  alternative name extension, some DNS name in it must match and no DNS name before that one may
  contain a NUL character; the common name counts only if there is no such extension, and then it
  must match and contain no NUL. In particular a truncated name never matches.
\<close>
theorem ValidateHostname_iff:
  assumes "CHR 0x00 \<notin> set host"
  shows "ValidateHostname (Some host) (Some cert) = MatchFound \<longleftrightarrow>
    (case X509_get_ext_d2i cert of
       Some names \<Rightarrow> good_name_first host names
     | None \<Rightarrow> X509_NAME_get_index_by_NID cert \<ge> 0 \<and>
         (\<exists>name. X509_NAME_get_entry cert = Some (Some name) \<and> name_of_host name host))"
  by (rule ValidateHostname_MatchFound [OF assms])

definition host_cert :: X509 where
  "host_cert = \<lparr>X509_get_ext_d2i = Some [GEN_other, GEN_DNS ''*.host.com''], X509_NAME_get_index_by_NID = -1,
     X509_NAME_get_entry = None\<rparr>"

theorem ValidateHostname_iff_witness:
  "ValidateHostname (Some ''foo.host.com'') (Some host_cert) = MatchFound \<and> good_name_first ''foo.host.com'' [GEN_other, GEN_DNS ''*.host.com'']"
proof -
  have "ValidateHostname (Some ''foo.host.com'') (Some host_cert) = MatchFound" by code_simp
  then show ?thesis using ValidateHostname_iff [of "''foo.host.com''" host_cert] by (simp add: host_cert_def)
qed

end
