(* ===== verification/Http_Ev.thy ===== *)
theory Http_Ev
  imports Host_Check Http_Message Wtf_Time
begin

text \<open>
  The libevent implementation of the HTTP session, \<^verbatim>\<open>src/net/http_cli/implement/ev/session_impl_ev.cpp\<close>:
  the certificate check on top of \<open>ValidateHostname\<close>, filling the certificate store, the set-up of a
  connection, and the callbacks that receive the response. libevent, OpenSSL and the Windows
  certificate store are parameters.
\<close>

section \<open>Certificates\<close>

text \<open>What OpenSSL says of a peer's chain, and the certificate it looks at, if any.\<close>

record X509_STORE_CTX =
  X509_verify_cert :: int
  X509_STORE_CTX_get_current_cert :: "X509 option"

definition ignoreCert :: bool where
  "ignoreCert = False"

definition VerifyCertCallback :: "X509_STORE_CTX \<Rightarrow> string \<Rightarrow> (int, unit) outcome" where
  "VerifyCertCallback x509_ctx arg =
     (if ignoreCert then Ret 1 ()
      else
        (let ok_so_far = X509_verify_cert x509_ctx;
             server_cert = X509_STORE_CTX_get_current_cert x509_ctx;
             res = (if ok_so_far \<noteq> 0 then ValidateHostname (Some (c_str arg)) server_cert else ValidationError)
         in case server_cert of
              None \<Rightarrow> Fault NullDeref
            | Some _ \<Rightarrow> Ret (if res = MatchFound then 1 else 0) ()))"

text \<open>
  The system store gives its certificates in encoded form; \<open>None\<close> is one that \<open>d2i_X509\<close> cannot
  decode. The result is the return code and what was added to OpenSSL's store.
\<close>

fun add_certs :: "'x option list \<Rightarrow> 'x list \<Rightarrow> int \<times> 'x list" where
  "add_certs [] store = (0, store)"
| "add_certs (ctx # ctxs) store =
     (case ctx of Some x509 \<Rightarrow> add_certs ctxs (store @ [x509]) | None \<Rightarrow> (-1, store))"

definition AddCertForStore :: "(string \<Rightarrow> 'x option list option) \<Rightarrow> 'x list \<Rightarrow> string \<Rightarrow> int \<times> 'x list" where
  "AddCertForStore CertOpenSystemStore store name =
     (case CertOpenSystemStore (c_str name) of
        None \<Rightarrow> (-1, store)
      | Some sys_store \<Rightarrow> add_certs sys_store store)"

section \<open>The session\<close>

text \<open>An HTTP connection of libevent: host and port, the TLS peer name to verify, and its limits.\<close>

record evhttp_connection =
  conn_host :: string
  conn_port :: "int option"
  conn_tls :: "string option"
  conn_retries :: "u64 option"
  conn_timeout :: "int option"

record ('x, 'h) http_ev =
  ev_retries_m :: u64
  ev_responseHandler_m :: "'h option"
  evReq_m :: bool
  ev_base_m :: bool
  evConn_m :: "evhttp_connection option"
  ev_url_m :: Url
  ev_timeout_m :: TimeDelta
  output_headers :: "(string \<times> string) list"
  cert_store :: "'x list"
  ev_delivered :: "Response list"

record 'x ev_lib =
  ev_base_new :: bool
  evhttp_request_new :: bool
  evhttp_add_header :: "string \<Rightarrow> string \<Rightarrow> int"
  bufferevent_new :: bool
  SSL_CTX_new :: bool
  SSL_new :: bool
  evhttp_connection_new :: bool
  evhttp_make_request :: int
  CertOpenSystemStore :: "string \<Rightarrow> 'x option list option"

definition HttpEV_SetHandler :: "'h option \<Rightarrow> ('x, 'h) http_ev \<Rightarrow> ('x, 'h) http_ev" where
  "HttpEV_SetHandler onResponse s = s\<lparr>ev_responseHandler_m := onResponse\<rparr>"

definition HttpEV_SetTimeout :: "TimeDelta \<Rightarrow> ('x, 'h) http_ev \<Rightarrow> ('x, 'h) http_ev" where
  "HttpEV_SetTimeout timeout s = s\<lparr>ev_timeout_m := timeout\<rparr>"

definition HttpEV_SetRetries :: "u64 \<Rightarrow> ('x, 'h) http_ev \<Rightarrow> ('x, 'h) http_ev" where
  "HttpEV_SetRetries retries s = s\<lparr>ev_retries_m := retries\<rparr>"

definition add_header :: "'x ev_lib \<Rightarrow> string \<Rightarrow> string \<Rightarrow> ('x, 'h) http_ev \<Rightarrow> ('x, 'h) http_ev" where
  "add_header L name val s =
     (if evhttp_add_header L name val = 0 then s\<lparr>output_headers := output_headers s @ [(name, val)]\<rparr> else s)"

definition HttpEV_SetHeader :: "'x ev_lib \<Rightarrow> Header \<Rightarrow> ('x, 'h) http_ev \<Rightarrow> (unit, ('x, 'h) http_ev) outcome" where
  "HttpEV_SetHeader L hs s =
     (if \<not> evReq_m s then Fault NullDeref
      else Ret () (foldl (\<lambda>s (name, val). add_header L (c_str name) (c_str val) s) s hs))"

definition HttpEV_OnResponse :: "Response \<Rightarrow> ('x, 'h) http_ev \<Rightarrow> ('x, 'h) http_ev" where
  "HttpEV_OnResponse response s =
     (case ev_responseHandler_m s of None \<Rightarrow> s | Some h \<Rightarrow> s\<lparr>ev_delivered := ev_delivered s @ [response]\<rparr>)"

definition HttpEV_DoInit :: "'x ev_lib \<Rightarrow> ('x, 'h) http_ev \<Rightarrow> (bool, ('x, 'h) http_ev) outcome" where
  "HttpEV_DoInit L s =
     (let s = s\<lparr>ev_base_m := ev_base_new L\<rparr>;
          s = s\<lparr>evReq_m := evhttp_request_new L\<rparr>
      in if \<not> evReq_m s then Fault NullDeref else Ret True s)"

definition add_stores :: "'x ev_lib \<Rightarrow> 'x list \<Rightarrow> 'x list" where
  "add_stores L store =
     (let (r, store) = AddCertForStore (CertOpenSystemStore L) store ''CA'' in
      if r < 0 then store
      else let (r, store) = AddCertForStore (CertOpenSystemStore L) store ''AuthRoot'' in
      if r < 0 then store
      else let (r, store) = AddCertForStore (CertOpenSystemStore L) store ''ROOT'' in store)"

text \<open>
  The fields of the library that are \<open>bool\<close> say whether a call returns an object. A null context, TLS
  object or buffer is logged at most and then passed on to a function that dereferences it.
\<close>

definition InitEventConnect :: "'x ev_lib \<Rightarrow> ('x, 'h) http_ev \<Rightarrow> (unit, ('x, 'h) http_ev) outcome" where
  "InitEventConnect L s =
     (if IsHttps (ev_url_m s) \<and> \<not> (SSL_CTX_new L \<and> SSL_new L) then Fault NullDeref
      else if \<not> bufferevent_new L then Fault NullDeref
      else let s = (if IsHttps (ev_url_m s) then s\<lparr>cert_store := add_stores L (cert_store s)\<rparr> else s) in
      if \<not> evhttp_connection_new L then
        (if ev_retries_m s > 0 \<or> ToSeconds (ev_timeout_m s) > 0 then Fault NullDeref else Ret () (s\<lparr>evConn_m := None\<rparr>))
      else
        Ret () (s\<lparr>evConn_m := Some
          \<lparr>conn_host = c_str (host (ev_url_m s)), conn_port = port (ev_url_m s),
           conn_tls = (if IsHttps (ev_url_m s) then Some (c_str (host (ev_url_m s))) else None),
           conn_retries = (if ev_retries_m s > 0 then Some (ev_retries_m s) else None),
           conn_timeout = (if ToSeconds (ev_timeout_m s) > 0 then Some (ToSeconds (ev_timeout_m s)) else None)\<rparr>\<rparr>))"

section \<open>Receiving the response\<close>

text \<open>
  A \<open>char\<close> array that is streamed as a C string: the characters up to the first NUL. A byte that was
  never written is indeterminate, and without a NUL the read leaves the array.
\<close>

fun read_c_string :: "u8 option list \<Rightarrow> (string, unit) outcome" where
  "read_c_string [] = Fault OutOfBounds"
| "read_c_string (None # bs) = Fault IndeterminateRead"
| "read_c_string (Some b # bs) =
     (if b = 0 then Ret [] () else andThen (read_c_string bs) (\<lambda>str _. Ret (char_of_byte b # str) ()))"

function response_loop :: "u8 option list \<Rightarrow> bytes \<Rightarrow> string \<Rightarrow> (string, unit) outcome" where
  "response_loop buffer input oss =
     (let nread = min 256 (length input) in
      if nread > 0 then
        (let buffer = map Some (take nread input) @ drop nread buffer
         in andThen (read_c_string buffer) (\<lambda>str _. response_loop buffer (drop nread input) (oss @ str)))
      else Ret oss ())"
  by pat_completeness auto
termination by (relation "measure (\<lambda>(b, i, t). length i)") auto

declare response_loop.simps [simp del]

text \<open>
  A finished request is \<open>None\<close> when it failed, or else its status code and the body in its input
  buffer. On failure the context pointer, which is the session, is used as a \<open>bufferevent\<close>.
\<close>

definition HandleResponse :: "(int \<times> bytes) option \<Rightarrow> ('x, 'h) http_ev \<Rightarrow> (unit, ('x, 'h) http_ev) outcome" where
  "HandleResponse req s =
     (case req of
        None \<Rightarrow> Fault UndefinedValue
      | Some (code, input) \<Rightarrow>
          if code = 0 then Fault UndefinedValue
          else
            (case response_loop (replicate 256 None) input '''' of
               Fault e \<Rightarrow> Fault e
             | Ret oss _ \<Rightarrow> Ret () (HttpEV_OnResponse (Response_make code \<lparr>code_m = OK\<rparr> oss [] (ev_url_m s)) s)))"

text \<open>The error callback of a session that exists.\<close>

definition OnError :: "('x, 'h) http_ev option \<Rightarrow> (unit, ('x, 'h) http_ev) outcome" where
  "OnError that =
     wtf_check (that = None)
       (case that of
          None \<Rightarrow> Fault NullDeref
        | Some s \<Rightarrow> Ret () (HttpEV_OnResponse (Response_make 0 \<lparr>code_m = OK\<rparr> ''oss.str()'' [] (ev_url_m s)) s))"

datatype ev_http_event = RequestDone "(int \<times> bytes) option" | RequestError

fun ev_dispatch :: "ev_http_event list \<Rightarrow> ('x, 'h) http_ev \<Rightarrow> (unit, ('x, 'h) http_ev) outcome" where
  "ev_dispatch [] s = Ret () s"
| "ev_dispatch (ev # evs) s =
     andThen (case ev of RequestDone req \<Rightarrow> HandleResponse req s | RequestError \<Rightarrow> OnError (Some s))
       (\<lambda>_ s. ev_dispatch evs s)"

definition HttpEV_DoRequest ::
  "'x ev_lib \<Rightarrow> ev_http_event list \<Rightarrow> ('x, 'h) http_ev \<Rightarrow> (unit, ('x, 'h) http_ev) outcome" where
  "HttpEV_DoRequest L evs s =
     wtf_check (url_text (ev_url_m s) \<noteq> [])
       (andThen (InitEventConnect L s) (\<lambda>_ s.
          if \<not> evReq_m s then Fault NullDeref
          else
            (let s = add_header L ''Host'' (c_str (host (ev_url_m s))) s;
                 s = add_header L ''Connection'' ''close'' s
             in if evConn_m s = None then Fault NullDeref
                else if evhttp_make_request L \<noteq> 0 then ev_dispatch [] s
                else ev_dispatch evs s)))"

section \<open>Who is accepted\<close>

text \<open>
  C24. The HTTPS peer check of the libevent session: a certificate is accepted exactly if OpenSSL's
  chain verification does not return 0 and the certificate names the requested host, by a subject
  alternative name or, without that extension, by its common name, under the wildcard rules of
  RFC 6125; otherwise the connection is refused. A negative return code of \<open>X509_verify_cert\<close>, which
  reports an internal error, counts as verified.
\<close>
theorem VerifyCertCallback_accepts_iff:
  assumes "CHR 0x00 \<notin> set peer" "X509_STORE_CTX_get_current_cert ctx = Some cert"
  shows "VerifyCertCallback ctx peer =
    Ret (if X509_verify_cert ctx \<noteq> 0 \<and>
            (case X509_get_ext_d2i cert of
               Some names \<Rightarrow> good_name_first peer names
             | None \<Rightarrow> X509_NAME_get_index_by_NID cert \<ge> 0 \<and>
                 (\<exists>name. X509_NAME_get_entry cert = Some (Some name) \<and> name_of_host name peer))
         then 1 else 0) ()"
  using ValidateHostname_MatchFound [OF assms(1), of cert] assms(2)
  by (simp add: VerifyCertCallback_def ignoreCert_def c_str_id [OF assms(1)] Let_def)

theorem VerifyCertCallback_accepts_iff_witness:
  "VerifyCertCallback \<lparr>X509_verify_cert = -1, X509_STORE_CTX_get_current_cert = Some host_cert\<rparr> ''foo.host.com'' = Ret 1 ()"
proof -
  let ?c = "\<lparr>X509_verify_cert = -1, X509_STORE_CTX_get_current_cert = Some host_cert\<rparr>"
  have "ValidateHostname (Some ''foo.host.com'') (Some host_cert) = MatchFound" by code_simp
  then have "good_name_first ''foo.host.com'' [GEN_other, GEN_DNS ''*.host.com'']"
    using ValidateHostname_MatchFound [of "''foo.host.com''" host_cert] by (simp add: host_cert_def)
  then show ?thesis
    using VerifyCertCallback_accepts_iff [of "''foo.host.com''" ?c host_cert] by (simp add: host_cert_def)
qed

text \<open>The store receives the decodable certificates up to the first one that is not.\<close>

lemma add_certs_prefix:
  "add_certs (map Some xs @ rest) store = add_certs rest (store @ xs)"
  by (induction xs arbitrary: store) simp_all

lemma add_stores_all:
  assumes "\<And>n. CertOpenSystemStore L n = Some (map Some (certs n))"
  shows "add_stores L store = store @ certs ''CA'' @ certs ''AuthRoot'' @ certs ''ROOT''"
  using assms by (simp add: add_stores_def AddCertForStore_def c_str_def add_certs_prefix [of _ "[]", simplified] Let_def)

section \<open>What responses come through\<close>

lemma read_c_string_append:
  "0 \<notin> set bs \<Longrightarrow>
   read_c_string (map Some bs @ rest) = andThen (read_c_string rest) (\<lambda>str _. Ret (of_bytes bs @ str) ())"
  by (induction bs) (cases "read_c_string rest", simp_all add: of_bytes_def andThen_assoc)+

lemma read_c_string_fresh:
  "read_c_string (replicate n None) = Fault (if n = 0 then OutOfBounds else IndeterminateRead)"
  by (cases n) simp_all

lemma response_loop_text:
  assumes "bs \<noteq> []" "0 \<notin> set bs"
  shows "response_loop (replicate 256 None) bs oss = Fault (if length bs \<ge> 256 then OutOfBounds else IndeterminateRead)"
proof -
  let ?n = "min 256 (length bs)"
  have "0 \<notin> set (take ?n bs)" using assms(2) set_take_subset by fastforce
  from read_c_string_append [OF this, of "replicate (256 - ?n) None"]
  have "read_c_string (map Some (take ?n bs) @ drop ?n (replicate 256 None)) = Fault (if length bs \<ge> 256 then OutOfBounds else IndeterminateRead)"
    by (simp add: read_c_string_fresh min_def)
  then show ?thesis using assms(1) by (subst response_loop.simps) (simp add: Let_def)
qed

text \<open>
  The libevent HTTP session cannot receive a text: a response with an empty body reaches the
  handler, but every body without NUL bytes is streamed from a buffer without terminator, which
  reads indeterminate bytes, or past the buffer from 256 bytes on; a failed request is undefined
  behaviour, and the error callback aborts the process.
\<close>
theorem HttpEV_receives_only_empty_bodies:
  assumes "ev_responseHandler_m s = Some h" "code \<noteq> 0"
  shows "(\<exists>t. HandleResponse (Some (code, [])) s = Ret () t \<and>
        ev_delivered t = ev_delivered s @ [Response_make code Error_new '''' [] (ev_url_m s)]) \<and>
    (bs \<noteq> [] \<and> 0 \<notin> set bs \<longrightarrow>
       HandleResponse (Some (code, bs)) s = Fault (if length bs \<ge> 256 then OutOfBounds else IndeterminateRead)) \<and>
    HandleResponse None s = Fault UndefinedValue \<and> OnError (Some s) = Fault CheckFailed"
  using assms response_loop_text [of bs "''''"]
  by (simp add: HandleResponse_def OnError_def response_loop.simps [of _ "[]"] HttpEV_OnResponse_def Error_new_def)

definition sample_ev :: "(unit, unit) http_ev" where
  "sample_ev =
     \<lparr>ev_retries_m = 0, ev_responseHandler_m = Some (), evReq_m = True, ev_base_m = True, evConn_m = None,
      ev_url_m = Url_new ''http://h'', ev_timeout_m = 0, output_headers = [], cert_store = [], ev_delivered = []\<rparr>"

theorem HttpEV_receives_only_empty_bodies_witness:
  "(\<exists>t. HandleResponse (Some (200, [])) sample_ev = Ret () t \<and>
        ev_delivered t = ev_delivered sample_ev @ [Response_make 200 Error_new '''' [] (ev_url_m sample_ev)]) \<and>
    HandleResponse (Some (200, [79, 75])) sample_ev = Fault IndeterminateRead \<and>
    HandleResponse None sample_ev = Fault UndefinedValue \<and> OnError (Some sample_ev) = Fault CheckFailed"
  using HttpEV_receives_only_empty_bodies [of sample_ev "()" 200 "[79, 75]"] by (simp add: sample_ev_def)

end
