(* ===== verification/Http_Beast.thy ===== *)
theory Http_Beast
  imports Http_Message
begin

text \<open>
  The Boost.Beast implementation of the HTTP session,
  \<^verbatim>\<open>src/net/http_cli/implement/beast/session_impl_beast.cpp\<close>: a chain of asynchronous operations whose
  completion handlers start the next one, and the loop that follows redirections. Boost.Asio is the
  scheduler: a run of \<open>ioc_.run()\<close> is the sequence of the handlers of the operations that complete.
  The request's fields are data for Beast only and are not part of the state.
\<close>

section \<open>The session\<close>

datatype StreamOpaque = Monostate | PlainStream | TlsStream

text \<open>The operation of the chain that is under way.\<close>

datatype beast_op = Resolve | Connect | HandShake | Write | Read

text \<open>
  \<open>onResponse\<close> is an empty \<open>std::function\<close> and \<open>responseHandler_m\<close> an empty handler unless set;
  calling the former while it is empty throws. \<open>requested\<close> logs the URLs for which a request was
  started, \<open>handled\<close> what a handler received.
\<close>

record 'h beast =
  timeout_m :: int
  timeouter :: bool
  timeouterForGracefulShutdown :: bool
  redirect_m :: bool
  followNextRedirect :: bool
  numberOfRedirects :: int
  beast_url_m :: Url
  onResponse :: "'h option"
  beast_handler_m :: "'h option"
  stream_m :: StreamOpaque
  op :: "beast_op option"
  shutting :: bool
  stopped :: bool
  requested :: "string list"
  handled :: "Response list"

definition SessionImplBeast_new :: "'h beast" where
  "SessionImplBeast_new =
     \<lparr>timeout_m = 0, timeouter = False, timeouterForGracefulShutdown = False, redirect_m = True,
      followNextRedirect = False, numberOfRedirects = 2147483647, beast_url_m = Url_new '''', onResponse = None,
      beast_handler_m = None, stream_m = Monostate, op = None, shutting = False, stopped = False,
      requested = [], handled = []\<rparr>"

definition Beast_SetUrl :: "Url \<Rightarrow> 'h beast \<Rightarrow> 'h beast" where
  "Beast_SetUrl u s = s\<lparr>beast_url_m := u\<rparr>"

definition Beast_SetHandler :: "'h option \<Rightarrow> 'h beast \<Rightarrow> 'h beast" where
  "Beast_SetHandler handler s = s"

definition IsTlsStream :: "'h beast \<Rightarrow> bool" where
  "IsTlsStream s \<longleftrightarrow> stream_m s = TlsStream"

definition OnFail :: "ErrorCode \<Rightarrow> 'h beast \<Rightarrow> 'h beast" where
  "OnFail http_ec s =
     (case beast_handler_m s of
        None \<Rightarrow> s
      | Some h \<Rightarrow> s\<lparr>handled := handled s @ [Response_make 0 \<lparr>code_m = http_ec\<rparr> '''' [] (beast_url_m s)]\<rparr>)"

section \<open>Completion handlers\<close>

text \<open>\<open>ec\<close> says whether the operation failed; a completed read has a status, fields and a body.\<close>

definition Beast_OnWrite :: "bool \<Rightarrow> 'h beast \<Rightarrow> 'h beast" where
  "Beast_OnWrite ec s =
     (if ec then OnFail NETWORK_SEND_FAILURE s
      else if stream_m s = Monostate then s else s\<lparr>op := Some Read\<rparr>)"

definition Beast_OnHandShake :: "bool \<Rightarrow> 'h beast \<Rightarrow> 'h beast" where
  "Beast_OnHandShake ec s =
     (if ec then OnFail SSL_CONNECT_ERROR s
      else if stream_m s = Monostate then s else s\<lparr>op := Some Write\<rparr>)"

definition Beast_OnConnect :: "bool \<Rightarrow> 'h beast \<Rightarrow> 'h beast" where
  "Beast_OnConnect ec s =
     (if ec then OnFail CONNECTION_FAILURE s
      else if IsTlsStream s then s\<lparr>op := Some HandShake\<rparr> else Beast_OnHandShake ec s)"

definition Beast_OnResolve :: "bool \<Rightarrow> 'h beast \<Rightarrow> 'h beast" where
  "Beast_OnResolve ec s =
     (if ec then OnFail HOST_RESOLUTION_FAILURE s else s\<lparr>op := Some Connect\<rparr>)"

definition Beast_OnShutdown :: "'h beast \<Rightarrow> 'h beast" where
  "Beast_OnShutdown s = s\<lparr>timeouterForGracefulShutdown := False\<rparr>"

definition Beast_OnTimeout :: "'h beast \<Rightarrow> 'h beast" where
  "Beast_OnTimeout s = OnFail TIMEDOUT (s\<lparr>stopped := True\<rparr>)"

definition Beast_OnTooLongAsyncShutdown :: "'h beast \<Rightarrow> 'h beast" where
  "Beast_OnTooLongAsyncShutdown s = s\<lparr>stopped := True\<rparr>"

definition response_headers :: "(string \<times> string) list \<Rightarrow> Header" where
  "response_headers fs =
     foldl (\<lambda>hs (name, val). if map tolower name = ''set-cookie'' then hs
                             else insert_or_assign CaseInsensitiveCompare name val hs) [] fs"

definition Beast_OnRead ::
  "(int \<times> (string \<times> string) list \<times> string) option \<Rightarrow> 'h beast \<Rightarrow> (unit, 'h beast) outcome" where
  "Beast_OnRead res s =
     (let s = s\<lparr>timeouter := False\<rparr> in
      case res of
        None \<Rightarrow> Ret () (OnFail NETWORK_RECEIVE_ERROR s)
      | Some (code, fs, text) \<Rightarrow>
          (let responseHeaders = response_headers fs;
               s = (if IsTlsStream s then s\<lparr>timeouterForGracefulShutdown := True, shutting := True\<rparr>
                    else Beast_OnShutdown s)
           in case map_find CaseInsensitiveCompare ''Location'' responseHeaders of
                Some location \<Rightarrow>
                  (let s = Beast_SetUrl (Url_new location) s
                   in if redirect_m s \<and> numberOfRedirects s > 0
                      then Ret () (s\<lparr>numberOfRedirects := numberOfRedirects s - 1, followNextRedirect := True\<rparr>)
                      else Ret () s)
              | None \<Rightarrow>
                  (case onResponse s of
                     None \<Rightarrow> Fault NullCall
                   | Some h \<Rightarrow>
                       Ret () (s\<lparr>handled := handled s @
                         [Response_make code Error_new text responseHeaders (beast_url_m s)]\<rparr>))))"

section \<open>Running a request\<close>

text \<open>
  \<open>sni\<close> is whether OpenSSL takes the host name for the handshake. The chain starts with the
  resolution of the host.
\<close>

definition Beast_PrepareRequest :: "bool \<Rightarrow> 'h beast \<Rightarrow> 'h beast" where
  "Beast_PrepareRequest sni s = (if IsTlsStream s \<and> \<not> sni then s else s\<lparr>op := Some Resolve\<rparr>)"

definition DoOneRequest :: "bool \<Rightarrow> 'h beast \<Rightarrow> 'h beast" where
  "DoOneRequest sni s =
     (let s = s\<lparr>followNextRedirect := False\<rparr>;
          s = s\<lparr>requested := requested s @ [url_text (beast_url_m s)]\<rparr>;
          s = (if IsHttps (beast_url_m s) then s\<lparr>stream_m := TlsStream\<rparr> else s\<lparr>stream_m := PlainStream\<rparr>);
          s = Beast_PrepareRequest sni s
      in if timeout_m s \<noteq> 0 then s\<lparr>timeouter := True\<rparr> else s)"

datatype completion =
    Resolved bool | Connected bool | ShookHands bool | Written bool
  | GotResponse "(int \<times> (string \<times> string) list \<times> string) option"
  | ShutDone | TimedOut | GraceOver

definition can_complete :: "'h beast \<Rightarrow> completion \<Rightarrow> bool" where
  "can_complete s c \<longleftrightarrow> \<not> stopped s \<and>
     (case c of
        Resolved _ \<Rightarrow> op s = Some Resolve
      | Connected _ \<Rightarrow> op s = Some Connect
      | ShookHands _ \<Rightarrow> op s = Some HandShake
      | Written _ \<Rightarrow> op s = Some Write
      | GotResponse _ \<Rightarrow> op s = Some Read
      | ShutDone \<Rightarrow> shutting s
      | TimedOut \<Rightarrow> timeouter s
      | GraceOver \<Rightarrow> timeouterForGracefulShutdown s)"

definition complete :: "completion \<Rightarrow> 'h beast \<Rightarrow> (unit, 'h beast) outcome" where
  "complete c s =
     (case c of
        Resolved ec \<Rightarrow> Ret () (Beast_OnResolve ec (s\<lparr>op := None\<rparr>))
      | Connected ec \<Rightarrow> Ret () (Beast_OnConnect ec (s\<lparr>op := None\<rparr>))
      | ShookHands ec \<Rightarrow> Ret () (Beast_OnHandShake ec (s\<lparr>op := None\<rparr>))
      | Written ec \<Rightarrow> Ret () (Beast_OnWrite ec (s\<lparr>op := None\<rparr>))
      | GotResponse res \<Rightarrow> Beast_OnRead res (s\<lparr>op := None\<rparr>)
      | ShutDone \<Rightarrow> Ret () (Beast_OnShutdown (s\<lparr>shutting := False\<rparr>))
      | TimedOut \<Rightarrow> Ret () (Beast_OnTimeout (s\<lparr>timeouter := False\<rparr>))
      | GraceOver \<Rightarrow> Ret () (Beast_OnTooLongAsyncShutdown (s\<lparr>timeouterForGracefulShutdown := False\<rparr>)))"

fun ioc_run :: "completion list \<Rightarrow> 'h beast \<Rightarrow> (unit, 'h beast) outcome" where
  "ioc_run [] s = Ret () s"
| "ioc_run (c # cs) s =
     (if can_complete s c then andThen (complete c s) (\<lambda>_ s. ioc_run cs s) else ioc_run cs s)"

text \<open>\<open>peer i\<close> are the completions of the \<open>i\<close>-th request of the loop.\<close>

fun redirect_loop :: "bool \<Rightarrow> (nat \<Rightarrow> completion list) \<Rightarrow> nat \<Rightarrow> nat \<Rightarrow> 'h beast \<Rightarrow> (unit, 'h beast) outcome" where
  "redirect_loop sni peer i 0 s = Fault OutOfFuel"
| "redirect_loop sni peer i (Suc n) s =
     (let s = s\<lparr>stopped := False\<rparr>;
          s = DoOneRequest sni s
      in andThen (ioc_run (peer i) s) (\<lambda>_ s.
           if followNextRedirect s then redirect_loop sni peer (Suc i) n s else Ret () s))"

definition Beast_DoRequest :: "bool \<Rightarrow> (nat \<Rightarrow> completion list) \<Rightarrow> 'h beast \<Rightarrow> (unit, 'h beast) outcome" where
  "Beast_DoRequest sni peer s = redirect_loop sni peer 0 (Suc (nat (numberOfRedirects s))) s"

section \<open>The invariant of a run\<close>

text \<open>One completion as a step of the session, and what every sequence of steps keeps.\<close>

inductive beast_step :: "'h beast \<Rightarrow> 'h beast \<Rightarrow> bool" where
  step: "can_complete s c \<Longrightarrow> complete c s = Ret () t \<Longrightarrow> beast_step s t"

inductive_cases beast_stepE: "beast_step s t"

text \<open>
  Either no redirection is pending, or one is and the read that asked for it has ended the chain;
  the budget is the one of the start \<open>s\<close>, less the pending redirection. Without handlers nothing is
  handled.
\<close>

definition run_inv :: "'h beast \<Rightarrow> 'h beast \<Rightarrow> bool" where
  "run_inv s t \<longleftrightarrow> requested t = requested s \<and> onResponse t = onResponse s \<and> beast_handler_m t = beast_handler_m s \<and>
     (if followNextRedirect t then op t = None \<and> numberOfRedirects s > 0 \<and> numberOfRedirects t = numberOfRedirects s - 1
      else numberOfRedirects t = numberOfRedirects s) \<and>
     (beast_handler_m s = None \<and> onResponse s = None \<longrightarrow> handled t = handled s)"

lemma OnFail_frame:
  "requested (OnFail e s) = requested s" "onResponse (OnFail e s) = onResponse s" "op (OnFail e s) = op s"
  "beast_handler_m (OnFail e s) = beast_handler_m s" "followNextRedirect (OnFail e s) = followNextRedirect s"
  "numberOfRedirects (OnFail e s) = numberOfRedirects s" "beast_handler_m s = None \<Longrightarrow> OnFail e s = s"
  by (auto simp: OnFail_def split: option.split)

lemmas handler_defs =
  complete_def can_complete_def Beast_OnResolve_def Beast_OnConnect_def Beast_OnHandShake_def Beast_OnWrite_def
  Beast_OnShutdown_def Beast_OnTimeout_def Beast_OnTooLongAsyncShutdown_def IsTlsStream_def

lemma OnRead_inv:
  assumes "run_inv s t" "op t = Some Read" "Beast_OnRead res (t\<lparr>op := None\<rparr>) = Ret () u"
  shows "run_inv s u"
proof (cases res)
  case None
  with assms show ?thesis
    by (auto simp: Beast_OnRead_def run_inv_def OnFail_frame Let_def split: if_splits)
next
  case (Some r)
  with assms show ?thesis
    by (cases r) (auto simp: Beast_OnRead_def run_inv_def Let_def IsTlsStream_def Beast_OnShutdown_def Beast_SetUrl_def
        split: if_splits option.splits)
qed

lemma step_inv: "beast_step t u \<Longrightarrow> run_inv s t \<Longrightarrow> run_inv s u"
proof (erule beast_stepE)
  fix c assume c: "can_complete t c" "complete c t = Ret () u" and i: "run_inv s t"
  show "run_inv s u"
  proof (cases c)
    case (GotResponse res)
    with c i show ?thesis by (auto simp: can_complete_def complete_def intro: OnRead_inv)
  qed (use c i in \<open>auto simp: handler_defs run_inv_def OnFail_frame split: if_splits\<close>)
qed

lemma steps_inv: "beast_step\<^sup>*\<^sup>* t u \<Longrightarrow> run_inv s t \<Longrightarrow> run_inv s u"
  by (induction rule: rtranclp_induct) (auto intro: step_inv)

lemma ioc_run_steps: "ends (\<lambda>e. e = NullCall) (\<lambda>_ t. beast_step\<^sup>*\<^sup>* s t) (ioc_run cs s)"
proof (induction cs arbitrary: s)
  case (Cons c cs)
  show ?case
  proof (cases "can_complete s c")
    case True
    show ?thesis
    proof (cases "complete c s")
      case (Ret x t)
      have "beast_step\<^sup>*\<^sup>* s u" if "beast_step\<^sup>*\<^sup>* t u" for u
        using beast_step.step [OF True, of t] Ret that by (simp add: converse_rtranclp_into_rtranclp)
      then show ?thesis using True Ret ends_post [OF Cons.IH [of t]] by simp
    next
      case (Fault e)
      then have "e = NullCall"
        by (auto simp: complete_def Beast_OnRead_def Let_def split: completion.splits option.splits if_splits prod.splits)
      with True Fault show ?thesis by simp
    qed
  qed (use Cons in simp)
qed simp

lemma DoOneRequest_inv:
  assumes "op s = None" "0 \<le> numberOfRedirects s"
  shows "run_inv (s\<lparr>requested := requested s @ [url_text (beast_url_m s)]\<rparr>) (DoOneRequest sni (s\<lparr>stopped := False\<rparr>))"
  using assms by (simp add: DoOneRequest_def run_inv_def Beast_PrepareRequest_def Let_def)

section \<open>Following redirections\<close>

lemma redirect_loop_ends:
  assumes "op s = None" "0 \<le> numberOfRedirects s" "nat (numberOfRedirects s) < n"
  shows "ends (\<lambda>e. e = NullCall)
    (\<lambda>_ t. 0 \<le> numberOfRedirects t \<and>
       int (length (requested t)) + numberOfRedirects t = int (length (requested s)) + numberOfRedirects s + 1 \<and>
       (onResponse s = None \<and> beast_handler_m s = None \<longrightarrow> handled t = handled s))
    (redirect_loop sni peer i n s)"
  using assms
proof (induction n arbitrary: i s)
  case (Suc n)
  let ?r = "s\<lparr>requested := requested s @ [url_text (beast_url_m s)]\<rparr>"
  let ?s = "DoOneRequest sni (s\<lparr>stopped := False\<rparr>)"
  let ?P = "\<lambda>t. 0 \<le> numberOfRedirects t \<and>
       int (length (requested t)) + numberOfRedirects t = int (length (requested s)) + numberOfRedirects s + 1 \<and>
       (onResponse s = None \<and> beast_handler_m s = None \<longrightarrow> handled t = handled s)"
  have i: "run_inv ?r ?s" by (rule DoOneRequest_inv [OF Suc.prems(1,2)])
  have "ends (\<lambda>e. e = NullCall) (\<lambda>_. ?P) (if followNextRedirect t then redirect_loop sni peer (Suc i) n t else Ret () t)"
    if "beast_step\<^sup>*\<^sup>* ?s t" for t
  proof -
    have t: "run_inv ?r t" by (rule steps_inv [OF that i])
    show ?thesis
    proof (cases "followNextRedirect t")
      case True
      with t have "op t = None" "0 \<le> numberOfRedirects t" "nat (numberOfRedirects t) < n"
        using Suc.prems(3) by (auto simp: run_inv_def)
      from Suc.IH [OF this, of "Suc i"] show ?thesis
        using True t by (auto simp: run_inv_def elim!: ends_mono)
    qed (use t Suc.prems(2) in \<open>auto simp: run_inv_def\<close>)
  qed
  then have "ends (\<lambda>e. e = NullCall)
      (\<lambda>_ t. ends (\<lambda>e. e = NullCall) (\<lambda>_. ?P) (if followNextRedirect t then redirect_loop sni peer (Suc i) n t else Ret () t))
      (ioc_run (peer i) ?s)"
    by (rule ends_post [OF ioc_run_steps])
  then show ?case by (simp add: ends_andThen Let_def)
qed simp

text \<open>
  C25. Following redirections comes to an end against every peer: each redirection that is followed
  costs one of \<open>numberOfRedirects\<close>, so a request makes at most that many further requests, even if the
  peer redirects for ever. Requests made and redirections left always add up.
\<close>
theorem Beast_redirects_end:
  assumes "op s = None" "0 \<le> numberOfRedirects s"
  shows "ends (\<lambda>e. e = NullCall)
    (\<lambda>_ t. 0 \<le> numberOfRedirects t \<and>
       int (length (requested t)) + numberOfRedirects t = int (length (requested s)) + numberOfRedirects s + 1)
    (Beast_DoRequest sni peer s)"
  unfolding Beast_DoRequest_def
  by (rule ends_mono [OF redirect_loop_ends [OF assms]]) simp_all

definition redirecting_peer :: "nat \<Rightarrow> completion list" where
  "redirecting_peer i =
     [Resolved False, Connected False, Written False, GotResponse (Some (302, [(''location'', ''http://h/next'')], ''''))]"

theorem Beast_redirects_end_witness:
  "ends (\<lambda>e. e = NullCall)
    (\<lambda>_ t. 0 \<le> numberOfRedirects t \<and>
       int (length (requested t)) + numberOfRedirects t =
         int (length (requested (SessionImplBeast_new :: unit beast))) + numberOfRedirects (SessionImplBeast_new :: unit beast) + 1)
    (Beast_DoRequest True redirecting_peer (SessionImplBeast_new :: unit beast))"
  by (rule Beast_redirects_end) (simp_all add: SessionImplBeast_new_def)

text \<open>
  The Beast session never answers: \<open>SetHandler\<close> stores nothing, so on a session with any handler
  set every request that returns has called no handler, not even for a failure, and a complete
  response without a \<open>Location\<close> field ends in a call of an empty function.
\<close>
theorem Beast_never_answers:
  "ends (\<lambda>e. e = NullCall) (\<lambda>_ t. handled t = []) (Beast_DoRequest sni peer (Beast_SetHandler h (Beast_SetUrl u SessionImplBeast_new))) \<and>
   (\<not> IsHttps u \<and> map_find CaseInsensitiveCompare ''Location'' (response_headers fs) = None \<longrightarrow>
      Beast_DoRequest sni (\<lambda>_. [Resolved False, Connected False, Written False, GotResponse (Some (code, fs, text))])
        (Beast_SetHandler h (Beast_SetUrl u SessionImplBeast_new)) = Fault NullCall)"
proof -
  let ?s = "Beast_SetHandler h (Beast_SetUrl u SessionImplBeast_new)"
  have s: "op ?s = None" "0 \<le> numberOfRedirects ?s" "onResponse ?s = None" "beast_handler_m ?s = None" "handled ?s = []"
    by (simp_all add: Beast_SetHandler_def Beast_SetUrl_def SessionImplBeast_new_def)
  have "ends (\<lambda>e. e = NullCall) (\<lambda>_ t. handled t = []) (Beast_DoRequest sni peer ?s)"
    unfolding Beast_DoRequest_def by (rule ends_mono [OF redirect_loop_ends [OF s(1,2)]]) (simp_all add: s)
  moreover have "Beast_DoRequest sni (\<lambda>_. [Resolved False, Connected False, Written False, GotResponse (Some (code, fs, text))]) ?s =
      Fault NullCall"
    if "\<not> IsHttps u" "map_find CaseInsensitiveCompare ''Location'' (response_headers fs) = None"
    unfolding Beast_DoRequest_def redirect_loop.simps(2)
    using that by (simp add: Beast_SetHandler_def Beast_SetUrl_def SessionImplBeast_new_def DoOneRequest_def
        Beast_PrepareRequest_def handler_defs Beast_OnRead_def)
  ultimately show ?thesis by blast
qed

theorem Beast_never_answers_witness:
  "ends (\<lambda>e. e = NullCall) (\<lambda>_ t. handled t = [])
     (Beast_DoRequest True redirecting_peer (Beast_SetHandler (Some ()) (Beast_SetUrl (Url_new ''http://h'') SessionImplBeast_new))) \<and>
   Beast_DoRequest True (\<lambda>_. [Resolved False, Connected False, Written False, GotResponse (Some (200, [], ''hi''))])
        (Beast_SetHandler (Some ()) (Beast_SetUrl (Url_new ''http://h'') SessionImplBeast_new)) = Fault NullCall"
  using Beast_never_answers [of True redirecting_peer "Some ()" "Url_new ''http://h''" "[]" 200 "''hi''"]
  by (simp add: IsHttps_def Url_new_def ParseUrl_def response_headers_def)

end
