(* ===== verification/Task_Queues.thy ===== *)
theory Task_Queues
  imports Wtf_Time Header_Map "HOL-Library.Multiset"
begin

text \<open>
  The queues of delayed tasks that all message loops share: \<^verbatim>\<open>delayed_task.{h,cpp}\<close> and
  \<^verbatim>\<open>message_loop_task_queues.{h,cpp}\<close> of \<^verbatim>\<open>src/wtf/task_runner\<close>, with the \<open>WakeUp\<close> of
  \<^verbatim>\<open>platform/win/message_loop_win.cpp\<close> that the queues call.

  A task (\<open>std::function\<close>) is a value of a type \<open>'t\<close>; what running it does is a parameter. The
  contract of \<open>std::priority_queue\<close> is a locale over the multiset of the elements, interpreted
  with the list that the model keeps sorted. The mutex of the class makes every public operation
  one atomic step. Waitable timers and the steady clock belong to the platform: the \<open>n\<close>th reading
  of the clock is \<open>clock n\<close>, and \<open>SetWaitableTimer\<close> says whether the \<open>n\<close>th request succeeds.
\<close>

section \<open>Delayed tasks\<close>

record 't DelayedTask =
  order_m :: u64
  task_m :: 't
  target_time_m :: TimePoint

definition DelayedTask_greater :: "'t DelayedTask \<Rightarrow> 't DelayedTask \<Rightarrow> bool" where
  "DelayedTask_greater a b =
     (if target_time_m a = target_time_m b then order_m a > order_m b
      else target_time_m a > target_time_m b)"

section \<open>Priority queues\<close>

text \<open>The contract of \<open>std::priority_queue\<close> with a comparison \<open>gt\<close> like \<open>std::greater\<close>.\<close>

locale priority_queue =
  fixes gt :: "'a \<Rightarrow> 'a \<Rightarrow> bool"
    and empty :: 'q
    and push :: "'a \<Rightarrow> 'q \<Rightarrow> 'q"
    and top :: "'q \<Rightarrow> 'a option"
    and pop :: "'q \<Rightarrow> 'q"
    and elements :: "'q \<Rightarrow> 'a multiset"
    and valid :: "'q \<Rightarrow> bool"
  assumes valid_empty: "valid empty"
    and valid_push: "valid q \<Longrightarrow> valid (push x q)"
    and valid_pop: "valid q \<Longrightarrow> valid (pop q)"
    and elements_empty: "elements empty = {#}"
    and elements_push: "elements (push x q) = add_mset x (elements q)"
    and top_None: "top q = None \<longleftrightarrow> elements q = {#}"
    and top_least: "valid q \<Longrightarrow> top q = Some x \<Longrightarrow> x \<in># elements q \<and> (\<forall>y \<in># elements q. \<not> gt x y)"
    and elements_pop: "top q = Some x \<Longrightarrow> elements q = add_mset x (elements (pop q))"
begin

fun drain :: "nat \<Rightarrow> 'q \<Rightarrow> 'a list" where
  "drain 0 q = []"
| "drain (Suc n) q = (case top q of None \<Rightarrow> [] | Some x \<Rightarrow> x # drain n (pop q))"

lemma mset_drain: "size (elements q) \<le> n \<Longrightarrow> mset (drain n q) = elements q"
proof (induction n arbitrary: q)
  case (Suc n)
  show ?case
  proof (cases "top q")
    case None
    then have "elements q = {#}" by (simp only: top_None)
    with None show ?thesis by simp
  next
    case (Some x)
    then show ?thesis using Suc elements_pop [OF Some] by simp
  qed
qed simp

lemma drain_sub: "set (drain n q) \<subseteq> set_mset (elements q)"
proof (induction n arbitrary: q)
  case (Suc n)
  show ?case
  proof (cases "top q")
    case (Some x)
    then show ?thesis using Suc.IH [of "pop q"] elements_pop [OF Some] by auto
  qed simp
qed simp

lemma drain_sorted: "valid q \<Longrightarrow> sorted_wrt (\<lambda>a b. \<not> gt a b) (drain n q)"
proof (induction n arbitrary: q)
  case (Suc n)
  show ?case
  proof (cases "top q")
    case (Some x)
    have "\<not> gt x y" if "y \<in> set (drain n (pop q))" for y
      using that drain_sub [of n "pop q"] top_least [OF Suc.prems Some] elements_pop [OF Some] by auto
    then show ?thesis using Some Suc.IH [OF valid_pop [OF Suc.prems]] by simp
  qed simp
qed simp

end

fun pq_push :: "('a \<Rightarrow> 'a \<Rightarrow> bool) \<Rightarrow> 'a \<Rightarrow> 'a list \<Rightarrow> 'a list" where
  "pq_push gt x [] = [x]"
| "pq_push gt x (y # ys) = (if gt y x then x # y # ys else y # pq_push gt x ys)"

definition pq_top :: "'a list \<Rightarrow> 'a option" where
  "pq_top q = (case q of [] \<Rightarrow> None | x # _ \<Rightarrow> Some x)"

definition pq_pop :: "'a list \<Rightarrow> 'a list" where
  "pq_pop q = tl q"

definition pq_sorted :: "('a \<Rightarrow> 'a \<Rightarrow> bool) \<Rightarrow> 'a list \<Rightarrow> bool" where
  "pq_sorted gt q = sorted_wrt (\<lambda>a b. \<not> gt a b) q"

lemma mset_pq_push [simp]: "mset (pq_push gt x q) = add_mset x (mset q)"
  by (induction q) auto

lemma set_pq_push [simp]: "set (pq_push gt x q) = insert x (set q)"
  by (induction q) auto

lemma not_greater_trans:
  "\<not> DelayedTask_greater a b \<Longrightarrow> \<not> DelayedTask_greater b c \<Longrightarrow> \<not> DelayedTask_greater a c"
  by (auto simp: DelayedTask_greater_def not_less split: if_splits)

lemma greater_asym: "DelayedTask_greater a b \<Longrightarrow> \<not> DelayedTask_greater b a"
  by (auto simp: DelayedTask_greater_def split: if_splits)

lemma pq_sorted_push: "pq_sorted DelayedTask_greater q \<Longrightarrow> pq_sorted DelayedTask_greater (pq_push DelayedTask_greater x q)"
proof (induction q)
  case (Cons y q)
  show ?case
  proof (cases "DelayedTask_greater y x")
    case True
    then have "\<not> DelayedTask_greater x y" by (rule greater_asym)
    then show ?thesis using True Cons.prems not_greater_trans [of x y] by (auto simp: pq_sorted_def)
  next
    case False
    then show ?thesis using Cons by (auto simp: pq_sorted_def)
  qed
qed (simp add: pq_sorted_def)

interpretation dtq: priority_queue DelayedTask_greater "[]" "pq_push DelayedTask_greater" pq_top pq_pop mset
  "pq_sorted DelayedTask_greater"
proof
  show "pq_sorted DelayedTask_greater q \<Longrightarrow> pq_sorted DelayedTask_greater (pq_push DelayedTask_greater x q)"
    for x :: "'a DelayedTask" and q by (rule pq_sorted_push)
  show "pq_sorted DelayedTask_greater q \<Longrightarrow> pq_top q = Some x \<Longrightarrow>
      x \<in># mset q \<and> (\<forall>y \<in># mset q. \<not> DelayedTask_greater x y)" for q and x :: "'a DelayedTask"
    using greater_asym [of x x] by (auto simp: pq_top_def pq_sorted_def split: list.splits)
  show "pq_sorted DelayedTask_greater q \<Longrightarrow> pq_sorted DelayedTask_greater (pq_pop q)"
    for q :: "'a DelayedTask list"
    by (cases q) (simp_all add: pq_sorted_def pq_pop_def)
qed (auto simp: pq_sorted_def pq_top_def pq_pop_def split: list.splits)

section \<open>The queues\<close>

record 't TaskQueueEntry =
  wakeable :: "u64 option"
  task_observers :: "(int \<times> 't) list"
  delayed_task_queue :: "'t DelayedTask list"
  owner_of :: u64

text \<open>
  A message loop is identified by the queue it creates, so a \<open>Wakeable\<close> pointer is a queue id.
  \<open>timers\<close> holds the time at which a loop's waitable timer becomes signalled, if it is set;
  \<open>terminated_m\<close> and \<open>running_m\<close> are the members of the loops.
\<close>

record ('t, 'w) runtime =
  queue_entries_m :: "u64 \<Rightarrow> 't TaskQueueEntry option"
  task_queue_id_counter_m :: u64
  order_counter_m :: u32
  timers :: "u64 \<Rightarrow> TimePoint option"
  clock_reads :: nat
  terminated_m :: "u64 \<Rightarrow> bool"
  running_m :: "u64 \<Rightarrow> bool"
  app :: 'w

record ('t, 'w) platform =
  clock :: "nat \<Rightarrow> TimePoint"
  CreateWaitableTimer :: bool
  SetWaitableTimer :: "nat \<Rightarrow> bool"
  run_task :: "'t \<Rightarrow> ('t, 'w) runtime \<Rightarrow> (unit, ('t, 'w) runtime) outcome"

text \<open>\<open>ULONG_MAX\<close> of a 32-bit \<open>unsigned long\<close>.\<close>

definition unmerged :: u64 where "unmerged = 0xFFFFFFFF"

definition Now :: "('t, 'w) platform \<Rightarrow> ('t, 'w) runtime \<Rightarrow> TimePoint \<times> ('t, 'w) runtime" where
  "Now P s = (clock P (clock_reads s), s\<lparr>clock_reads := Suc (clock_reads s)\<rparr>)"

text \<open>\<open>std::map::at\<close> throws for a missing key.\<close>

definition entry_at :: "u64 \<Rightarrow> ('t, 'w) runtime \<Rightarrow> ('t TaskQueueEntry, ('t, 'w) runtime) outcome" where
  "entry_at queue_id s =
     (case queue_entries_m s queue_id of None \<Rightarrow> Fault OutOfBounds | Some e \<Rightarrow> Ret e s)"

definition set_entry :: "u64 \<Rightarrow> 't TaskQueueEntry \<Rightarrow> ('t, 'w) runtime \<Rightarrow> ('t, 'w) runtime" where
  "set_entry queue_id e s = s\<lparr>queue_entries_m := (queue_entries_m s)(queue_id := Some e)\<rparr>"

text \<open>
  A negative due time is relative, in units of 100 ns; zero lies in the past and signals the timer
  at once.
\<close>

definition due_time :: "TimePoint \<Rightarrow> TimePoint \<Rightarrow> int option" where
  "due_time now time_point =
     (if time_point > now then map_option (\<lambda>d. ToNanoseconds d sdiv -100) (TimePoint_diff time_point now)
      else Some 0)"

definition signals_at :: "TimePoint \<Rightarrow> int \<Rightarrow> TimePoint" where
  "signals_at now due = (if due < 0 then now + 100 * - due else now)"

definition WakeUp ::
  "('t, 'w) platform \<Rightarrow> u64 \<Rightarrow> TimePoint \<Rightarrow> ('t, 'w) runtime \<Rightarrow> (unit, ('t, 'w) runtime) outcome" where
  "WakeUp P loop time_point s =
     (let n = clock_reads s; (now, s) = Now P s
      in case due_time now time_point of
           None \<Rightarrow> Fault UndefinedValue
         | Some due \<Rightarrow>
             wtf_check (SetWaitableTimer P n)
               (Ret () (s\<lparr>timers := (timers s)(loop := Some (signals_at now due))\<rparr>)))"

definition WakeUpUnlocked ::
  "('t, 'w) platform \<Rightarrow> u64 \<Rightarrow> TimePoint \<Rightarrow> ('t, 'w) runtime \<Rightarrow> (unit, ('t, 'w) runtime) outcome" where
  "WakeUpUnlocked P queue_id time s =
     andThen (entry_at queue_id s) (\<lambda>e s.
       case wakeable e of None \<Rightarrow> Ret () s | Some loop \<Rightarrow> WakeUp P loop time s)"

definition new_entry :: "u64 \<Rightarrow> 't TaskQueueEntry" where
  "new_entry owner = \<lparr>wakeable = None, task_observers = [], delayed_task_queue = [], owner_of = owner\<rparr>"

definition CreateTaskQueue :: "('t, 'w) runtime \<Rightarrow> (u64, ('t, 'w) runtime) outcome" where
  "CreateTaskQueue s =
     (let loop_id = task_queue_id_counter_m s;
          s = s\<lparr>task_queue_id_counter_m := task_queue_id_counter_m s + 1\<rparr>
      in Ret loop_id (set_entry loop_id (new_entry loop_id) s))"

definition Dispose :: "u64 \<Rightarrow> ('t, 'w) runtime \<Rightarrow> (unit, ('t, 'w) runtime) outcome" where
  "Dispose queue_id s =
     andThen (entry_at queue_id s) (\<lambda>e s.
       let subsumed = owner_of e;
           s = s\<lparr>queue_entries_m := (queue_entries_m s)(queue_id := None)\<rparr>
       in Ret () (if subsumed \<noteq> unmerged
                  then s\<lparr>queue_entries_m := (queue_entries_m s)(subsumed := None)\<rparr> else s))"

definition DisposeTasks :: "u64 \<Rightarrow> ('t, 'w) runtime \<Rightarrow> (unit, ('t, 'w) runtime) outcome" where
  "DisposeTasks queue_id s =
     andThen (entry_at queue_id s) (\<lambda>e s. Ret () (set_entry queue_id (e\<lparr>delayed_task_queue := []\<rparr>) s))"

definition Queues_AddTaskObserver ::
  "u64 \<Rightarrow> int \<Rightarrow> 't option \<Rightarrow> ('t, 'w) runtime \<Rightarrow> (unit, ('t, 'w) runtime) outcome" where
  "Queues_AddTaskObserver queue_id key callback s =
     (case callback of
        None \<Rightarrow> Fault CheckFailed
      | Some f \<Rightarrow>
          andThen (entry_at queue_id s) (\<lambda>e s.
            Ret () (set_entry queue_id (e\<lparr>task_observers := insert_or_assign (<) key f (task_observers e)\<rparr>) s)))"

definition GetObserversToNotify :: "u64 \<Rightarrow> ('t, 'w) runtime \<Rightarrow> ('t list, ('t, 'w) runtime) outcome" where
  "GetObserversToNotify queue_id s =
     andThen (entry_at queue_id s) (\<lambda>e s. Ret (map snd (task_observers e)) s)"

definition HasPendingTasksUnlocked :: "u64 \<Rightarrow> ('t, 'w) runtime \<Rightarrow> (bool, ('t, 'w) runtime) outcome" where
  "HasPendingTasksUnlocked queue_id s =
     andThen (entry_at queue_id s) (\<lambda>e s.
       if owner_of e = unmerged then Ret False s else Ret (delayed_task_queue e \<noteq> []) s)"

definition PeekNextTaskUnlocked :: "u64 \<Rightarrow> ('t, 'w) runtime \<Rightarrow> ('t DelayedTask, ('t, 'w) runtime) outcome" where
  "PeekNextTaskUnlocked owner s =
     andThen (HasPendingTasksUnlocked owner s) (\<lambda>pending s.
       wtf_check pending
         (andThen (entry_at owner s) (\<lambda>e s.
            case pq_top (delayed_task_queue e) of None \<Rightarrow> Fault OutOfBounds | Some d \<Rightarrow> Ret d s)))"

definition GetNextWakeTimeUnlocked :: "u64 \<Rightarrow> ('t, 'w) runtime \<Rightarrow> (TimePoint, ('t, 'w) runtime) outcome" where
  "GetNextWakeTimeUnlocked queue_id s =
     andThen (PeekNextTaskUnlocked queue_id s) (\<lambda>d s. Ret (target_time_m d) s)"

definition Owns :: "u64 \<Rightarrow> u64 \<Rightarrow> ('t, 'w) runtime \<Rightarrow> (bool, ('t, 'w) runtime) outcome" where
  "Owns owner subsumed s =
     (if owner = unmerged then Ret False s
      else if subsumed = unmerged then Ret False s
      else andThen (entry_at owner s) (\<lambda>e s. Ret (subsumed = owner_of e) s))"

definition RegisterTask ::
  "('t, 'w) platform \<Rightarrow> u64 \<Rightarrow> 't \<Rightarrow> TimePoint \<Rightarrow> ('t, 'w) runtime \<Rightarrow> (unit, ('t, 'w) runtime) outcome" where
  "RegisterTask P queue_id task target_time s =
     (let order = scast (order_counter_m s) :: u64;
          s = s\<lparr>order_counter_m := order_counter_m s + 1\<rparr>
      in andThen (entry_at queue_id s) (\<lambda>e s.
           let d = \<lparr>order_m = order, task_m = task, target_time_m = target_time\<rparr>;
               s = set_entry queue_id
                     (e\<lparr>delayed_task_queue := pq_push DelayedTask_greater d (delayed_task_queue e)\<rparr>) s
           in andThen (HasPendingTasksUnlocked queue_id s) (\<lambda>pending s.
                if pending
                then andThen (GetNextWakeTimeUnlocked queue_id s) (\<lambda>t s. WakeUpUnlocked P queue_id t s)
                else Ret () s)))"

definition GetNextTaskToRun ::
  "('t, 'w) platform \<Rightarrow> u64 \<Rightarrow> TimePoint \<Rightarrow> ('t, 'w) runtime \<Rightarrow> ('t option, ('t, 'w) runtime) outcome" where
  "GetNextTaskToRun P queue_id from_time s =
     andThen (HasPendingTasksUnlocked queue_id s) (\<lambda>pending s.
       if \<not> pending then Ret None s
       else
         andThen (PeekNextTaskUnlocked queue_id s) (\<lambda>top_task s.
           andThen
             (andThen (HasPendingTasksUnlocked queue_id s) (\<lambda>pending s.
                if \<not> pending then WakeUpUnlocked P queue_id TimePoint_Max s
                else andThen (GetNextWakeTimeUnlocked queue_id s) (\<lambda>t s. WakeUpUnlocked P queue_id t s)))
             (\<lambda>_ s.
                if target_time_m top_task > from_time then Ret None s
                else
                  andThen (entry_at queue_id s) (\<lambda>e s.
                    Ret (Some (task_m top_task))
                      (set_entry queue_id (e\<lparr>delayed_task_queue := pq_pop (delayed_task_queue e)\<rparr>) s)))))"

definition SetWakeable :: "u64 \<Rightarrow> u64 \<Rightarrow> ('t, 'w) runtime \<Rightarrow> (unit, ('t, 'w) runtime) outcome" where
  "SetWakeable queue_id loop s =
     andThen (entry_at queue_id s) (\<lambda>e s.
       wtf_check (wakeable e = None) (Ret () (set_entry queue_id (e\<lparr>wakeable := Some loop\<rparr>) s)))"

definition RunsOnTheSameThread :: "u64 \<Rightarrow> u64 \<Rightarrow> ('t, 'w) runtime \<Rightarrow> (bool, ('t, 'w) runtime) outcome" where
  "RunsOnTheSameThread queue_a queue_b s =
     (if queue_a = queue_b then Ret True s
      else
        andThen (Owns queue_a queue_b s) (\<lambda>r s.
          if r then Ret True s
          else andThen (Owns queue_b queue_a s) (\<lambda>r s. if r then Ret True s else Ret False s)))"

section \<open>Posting order\<close>

text \<open>The order number of the \<open>k\<close>th task posted: an \<open>int\<close> that wraps around, converted to \<open>size_t\<close>.\<close>

definition post_order :: "nat \<Rightarrow> u64" where
  "post_order k = scast (of_nat k :: u32)"

lemma unat_post_order:
  assumes "k < 2 ^ 32"
  shows "unat (post_order k) = (if k < 2 ^ 31 then k else 2 ^ 64 - 2 ^ 32 + k)"
proof -
  have v: "sint (of_nat k :: u32) = (int k + 2 ^ 31) mod 2 ^ 32 - 2 ^ 31"
    unfolding signed_of_nat signed_take_bit_eq_take_bit_shift take_bit_eq_mod by simp
  have u: "unat (scast (of_nat k :: u32) :: u64) = nat (sint (of_nat k :: u32) mod 2 ^ 64)"
    unfolding scast_eq unsigned_of_int take_bit_eq_mod by simp
  show ?thesis
  proof (cases "k < 2 ^ 31")
    case True
    then have "(int k + 2 ^ 31) mod 2 ^ 32 = int k + 2 ^ 31" by (intro mod_pos_pos_trivial) simp_all
    then have i: "sint (of_nat k :: u32) = int k" unfolding v by simp
    have "int k mod 2 ^ 64 = int k" using True by (intro mod_pos_pos_trivial) simp_all
    then show ?thesis using True unfolding post_order_def u i by simp
  next
    case False
    have "int k + 2 ^ 31 = (int k - 2 ^ 31) + 2 ^ 32" by simp
    then have "(int k + 2 ^ 31) mod 2 ^ 32 = (int k - 2 ^ 31) mod 2 ^ 32" by (simp only: mod_add_self2)
    also have "\<dots> = int k - 2 ^ 31" using False assms by (intro mod_pos_pos_trivial) simp_all
    finally have i: "sint (of_nat k :: u32) = int k - 2 ^ 32" unfolding v by simp
    have "(int k - 2 ^ 32) mod 2 ^ 64 = ((int k - 2 ^ 32) + 2 ^ 64) mod 2 ^ 64" by (simp only: mod_add_self2)
    also have "\<dots> = (int k - 2 ^ 32) + 2 ^ 64" using False assms by (intro mod_pos_pos_trivial) simp_all
    finally show ?thesis using False unfolding post_order_def u i by simp
  qed
qed

lemma post_order_less: "i < j \<Longrightarrow> j < 2 ^ 32 \<Longrightarrow> post_order i < post_order j"
  unfolding word_less_nat_alt by (auto simp: unat_post_order)

section \<open>The invariant of the queues\<close>

text \<open>
  After \<open>k\<close> posts: every queue belongs to itself, is sorted, holds tasks posted before, and wakes
  its own loop.
\<close>

definition entry_inv :: "nat \<Rightarrow> u64 \<Rightarrow> 't TaskQueueEntry \<Rightarrow> bool" where
  "entry_inv k q e \<longleftrightarrow> owner_of e = q \<and> pq_sorted DelayedTask_greater (delayed_task_queue e) \<and>
     (\<forall>d \<in> set (delayed_task_queue e). is_int64 (target_time_m d) \<and> (\<exists>i<k. order_m d = post_order i)) \<and>
     wakeable e \<in> {None, Some q}"

definition queues_inv :: "nat \<Rightarrow> ('t, 'w) runtime \<Rightarrow> bool" where
  "queues_inv k s \<longleftrightarrow> order_counter_m s = of_nat k \<and>
     (\<forall>q e. queue_entries_m s q = Some e \<longrightarrow> entry_inv k q e)"

definition queue_of :: "('t, 'w) runtime \<Rightarrow> u64 \<Rightarrow> 't DelayedTask list" where
  "queue_of s q = (case queue_entries_m s q of None \<Rightarrow> [] | Some e \<Rightarrow> delayed_task_queue e)"

text \<open>The platform works: timers can be set and the steady clock counts up from zero.\<close>

definition platform_ok :: "('t, 'w) platform \<Rightarrow> bool" where
  "platform_ok P \<longleftrightarrow> (\<forall>n. SetWaitableTimer P n) \<and> mono (clock P) \<and> (\<forall>n. 0 \<le> clock P n \<and> clock P n \<le> int64_max)"

text \<open>A loop's timer is set so that it is signalled by the time \<open>tm\<close>, or has been signalled already.\<close>

definition armed :: "('t, 'w) platform \<Rightarrow> ('t, 'w) runtime \<Rightarrow> u64 \<Rightarrow> TimePoint \<Rightarrow> bool" where
  "armed P s loop tm \<longleftrightarrow>
     (\<exists>d. timers s loop = Some d \<and> (d \<le> tm \<or> (\<exists>n < clock_reads s. d \<le> clock P n)))"

lemma entry_at_Some [simp]: "queue_entries_m s q = Some e \<Longrightarrow> entry_at q s = Ret e s"
  by (simp add: entry_at_def)

lemma set_entry_simps [simp]:
  "queue_entries_m (set_entry q e s) = (queue_entries_m s)(q := Some e)"
  "order_counter_m (set_entry q e s) = order_counter_m s" "timers (set_entry q e s) = timers s"
  "clock_reads (set_entry q e s) = clock_reads s" "app (set_entry q e s) = app s"
  "terminated_m (set_entry q e s) = terminated_m s" "running_m (set_entry q e s) = running_m s"
  by (simp_all add: set_entry_def)

lemma signals_at_due: "due_time now tp = Some due \<Longrightarrow> signals_at now due \<le> tp \<or> signals_at now due = now"
proof (cases "tp > now")
  case True
  assume "due_time now tp = Some due"
  then have "due = (tp - now) sdiv -100"
    using True by (auto simp: due_time_def TimePoint_diff_def FromNanoseconds_def ToNanoseconds_def dest: int64_SomeD)
  then have d: "due = - ((tp - now) div 100)"
    using True by (simp add: signed_divide_int_def)
  have "100 * ((tp - now) div 100) \<le> tp - now" by simp
  then show ?thesis using d by (auto simp: signals_at_def)
qed (simp add: due_time_def signals_at_def)

definition woken :: "('t, 'w) runtime \<Rightarrow> ('t, 'w) runtime \<Rightarrow> bool" where
  "woken s t \<longleftrightarrow> (\<exists>c f. t = s\<lparr>clock_reads := c, timers := f\<rparr>)"

lemma woken_fields:
  assumes "woken s t"
  shows "queue_entries_m t = queue_entries_m s" "order_counter_m t = order_counter_m s"
    "task_queue_id_counter_m t = task_queue_id_counter_m s" "app t = app s"
    "terminated_m t = terminated_m s" "running_m t = running_m s"
  using assms by (auto simp: woken_def)

lemma WakeUp_armed:
  assumes "WakeUp P loop tm s = Ret () t"
  shows "armed P t loop tm \<and> woken s t \<and> (\<forall>l. l \<noteq> loop \<longrightarrow> timers t l = timers s l) \<and> clock_reads t = Suc (clock_reads s)"
proof -
  let ?now = "clock P (clock_reads s)"
  obtain due where due: "due_time ?now tm = Some due"
    and t: "t = s\<lparr>clock_reads := Suc (clock_reads s), timers := (timers s)(loop := Some (signals_at ?now due))\<rparr>"
    using assms by (auto simp: WakeUp_def Now_def wtf_check_def Let_def split: option.splits if_splits)
  show ?thesis using signals_at_due [OF due] by (auto simp: t armed_def woken_def)
qed

lemma WakeUp_returns:
  assumes "platform_ok P" "is_int64 tm"
  shows "\<exists>t. WakeUp P loop tm s = Ret () t"
proof -
  have "0 \<le> clock P (clock_reads s)" using assms(1) by (simp add: platform_ok_def)
  then have "due_time (clock P (clock_reads s)) tm \<noteq> None"
    using assms(2) by (auto simp: due_time_def TimePoint_diff_def int64_def is_int64_def int64_min_def)
  then show ?thesis using assms(1) by (auto simp: WakeUp_def Now_def wtf_check_def platform_ok_def split: option.splits)
qed

lemma WakeUpUnlocked_simp:
  "queue_entries_m s q = Some e \<Longrightarrow>
   WakeUpUnlocked P q tm s = (case wakeable e of None \<Rightarrow> Ret () s | Some loop \<Rightarrow> WakeUp P loop tm s)"
  by (simp add: WakeUpUnlocked_def)

lemma woken_refl [simp]: "woken s s"
  unfolding woken_def by (intro exI [of _ "clock_reads s"] exI [of _ "timers s"]) simp

lemma WakeUpUnlocked_result:
  assumes "queue_entries_m s q = Some e" "entry_inv k q e" "WakeUpUnlocked P q tm s = Ret () t"
  shows "woken s t \<and> (wakeable e \<noteq> None \<longrightarrow> armed P t q tm) \<and> (\<forall>l. l \<noteq> q \<longrightarrow> timers t l = timers s l) \<and>
    clock_reads s \<le> clock_reads t"
proof (cases "wakeable e")
  case None
  then show ?thesis using assms(3) by (simp add: WakeUpUnlocked_simp [OF assms(1)])
next
  case (Some l)
  then have "l = q" using assms(2) by (simp add: entry_inv_def)
  then show ?thesis
    using assms(3) Some WakeUp_armed [of P q tm s t] by (simp add: WakeUpUnlocked_simp [OF assms(1)])
qed

lemma WakeUpUnlocked_returns:
  assumes "platform_ok P" "is_int64 tm" "queue_entries_m s q = Some e"
  obtains t where "WakeUpUnlocked P q tm s = Ret () t"
  using that WakeUp_returns [OF assms(1,2)] by (cases "wakeable e") (auto simp: WakeUpUnlocked_simp [OF assms(3)])

text \<open>What the two operations of the queue do, with the internal calls resolved.\<close>

lemma RegisterTask_eq:
  fixes s :: "('t, 'w) runtime" and task :: 't and tm :: TimePoint
  assumes "queue_entries_m s q = Some e" "owner_of e \<noteq> unmerged"
  defines "q' \<equiv> pq_push DelayedTask_greater
    \<lparr>order_m = scast (order_counter_m s), task_m = task, target_time_m = tm\<rparr> (delayed_task_queue e)"
  shows "RegisterTask P q task tm s =
    WakeUpUnlocked P q (target_time_m (hd q')) (set_entry q (e\<lparr>delayed_task_queue := q'\<rparr>)
      (s\<lparr>order_counter_m := order_counter_m s + 1\<rparr>))"
proof -
  have "q' \<noteq> []" unfolding q'_def by (cases "delayed_task_queue e") auto
  then obtain d ds where q': "q' = d # ds" by (cases q') auto
  show ?thesis
    using assms(1,2) q' unfolding q'_def
    by (simp add: RegisterTask_def HasPendingTasksUnlocked_def GetNextWakeTimeUnlocked_def PeekNextTaskUnlocked_def
        pq_top_def Let_def)
qed

lemma GetNextTaskToRun_eq:
  assumes "queue_entries_m s q = Some e" "owner_of e \<noteq> unmerged"
  shows "GetNextTaskToRun P q from s =
    (case delayed_task_queue e of
       [] \<Rightarrow> Ret None s
     | d # ds \<Rightarrow>
         andThen (WakeUpUnlocked P q (target_time_m d) s) (\<lambda>_ t.
           if target_time_m d > from then Ret None t
           else andThen (entry_at q t) (\<lambda>e t. Ret (Some (task_m d)) (set_entry q (e\<lparr>delayed_task_queue := pq_pop (delayed_task_queue e)\<rparr>) t))))"
proof (cases "delayed_task_queue e")
  case (Cons d ds)
  then show ?thesis
    using assms
    by (simp add: GetNextTaskToRun_def HasPendingTasksUnlocked_def GetNextWakeTimeUnlocked_def PeekNextTaskUnlocked_def
        pq_top_def)
qed (use assms in \<open>simp add: GetNextTaskToRun_def HasPendingTasksUnlocked_def\<close>)

lemma pq_push_fifo:
  assumes "pq_sorted DelayedTask_greater q" "\<forall>d \<in> set q. order_m d < order_m x"
  shows "pq_push DelayedTask_greater x q =
    filter (\<lambda>d. target_time_m d \<le> target_time_m x) q @ x # filter (\<lambda>d. target_time_m d > target_time_m x) q"
  using assms
proof (induction q)
  case (Cons y q)
  show ?case
  proof (cases "target_time_m y > target_time_m x")
    case True
    have "target_time_m d > target_time_m x" if "d \<in> set q" for d
      using Cons.prems(1) that True by (auto simp: pq_sorted_def DelayedTask_greater_def split: if_splits)
    then have "filter (\<lambda>d. target_time_m d \<le> target_time_m x) q = []" "filter (\<lambda>d. target_time_m d > target_time_m x) q = q"
      by (auto simp: filter_empty_conv not_le filter_id_conv)
    then show ?thesis using True by (simp add: DelayedTask_greater_def)
  next
    case False
    then have "\<not> DelayedTask_greater y x" using Cons.prems(2) by (auto simp: DelayedTask_greater_def)
    then show ?thesis using False Cons by (simp add: pq_sorted_def)
  qed
qed simp

lemma entry_inv_mono: "entry_inv k q e \<Longrightarrow> entry_inv (Suc k) q e"
  by (auto simp: entry_inv_def less_Suc_eq)

lemma queues_invD: "queues_inv k s \<Longrightarrow> queue_entries_m s q = Some e \<Longrightarrow> entry_inv k q e"
  by (simp add: queues_inv_def)

lemma queues_inv_woken: "woken s t \<Longrightarrow> queues_inv k t = queues_inv k s"
  by (simp add: queues_inv_def woken_fields)

lemma queue_of_woken: "woken s t \<Longrightarrow> queue_of t q = queue_of s q"
  by (simp add: queue_of_def woken_fields)

lemma RegisterTask_works:
  assumes "platform_ok P" "queues_inv k s" "k < 2 ^ 32" "queue_entries_m s q = Some e" "q \<noteq> unmerged" "is_int64 tm"
  shows "\<exists>t. RegisterTask P q task tm s = Ret () t \<and> queues_inv (Suc k) t \<and>
    queue_of t q = filter (\<lambda>d. target_time_m d \<le> tm) (queue_of s q) @
      [\<lparr>order_m = post_order k, task_m = task, target_time_m = tm\<rparr>] @ filter (\<lambda>d. target_time_m d > tm) (queue_of s q) \<and>
    (\<forall>q'. q' \<noteq> q \<longrightarrow> queue_of t q' = queue_of s q') \<and>
    (wakeable e \<noteq> None \<longrightarrow> armed P t q (target_time_m (hd (queue_of t q))))"
proof -
  let ?x = "\<lparr>order_m = post_order k, task_m = task, target_time_m = tm\<rparr>"
  let ?q = "pq_push DelayedTask_greater ?x (delayed_task_queue e)"
  let ?s = "set_entry q (e\<lparr>delayed_task_queue := ?q\<rparr>) (s\<lparr>order_counter_m := order_counter_m s + 1\<rparr>)"
  have e: "entry_inv k q e" and c: "order_counter_m s = of_nat k"
    using assms(2,4) by (simp_all add: queues_inv_def)
  have R: "RegisterTask P q task tm s = WakeUpUnlocked P q (target_time_m (hd ?q)) ?s"
    using RegisterTask_eq [OF assms(4), of P task tm] assms(5) e c by (simp add: entry_inv_def post_order_def)
  have e': "entry_inv (Suc k) q (e\<lparr>delayed_task_queue := ?q\<rparr>)"
    using e assms(6) pq_sorted_push [of "delayed_task_queue e" ?x] by (auto simp: entry_inv_def less_Suc_eq)
  have ne: "?q \<noteq> []" by (cases "delayed_task_queue e") auto
  have all: "\<forall>d \<in> set ?q. is_int64 (target_time_m d)" using e' by (simp add: entry_inv_def)
  have "is_int64 (target_time_m (hd ?q))" by (rule bspec [OF all hd_in_set [OF ne]])
  then obtain t where t: "WakeUpUnlocked P q (target_time_m (hd ?q)) ?s = Ret () t"
    by (rule WakeUpUnlocked_returns [OF assms(1), of _ ?s q "e\<lparr>delayed_task_queue := ?q\<rparr>"]) simp
  note w = WakeUpUnlocked_result [of ?s q _ "Suc k", OF _ e' t, simplified]
  have inv: "queues_inv (Suc k) ?s"
    using assms(2) e' by (auto simp: queues_inv_def intro: entry_inv_mono)
  have "\<forall>d \<in> set (delayed_task_queue e). order_m d < order_m ?x"
    using e assms(3) post_order_less by (auto simp: entry_inv_def)
  then have f: "?q = filter (\<lambda>d. target_time_m d \<le> tm) (delayed_task_queue e) @ ?x #
      filter (\<lambda>d. target_time_m d > tm) (delayed_task_queue e)"
    using pq_push_fifo [of "delayed_task_queue e" ?x] e by (simp add: entry_inv_def)
  note wf = woken_fields [OF conjunct1 [OF w]]
  have q: "queue_of t q = ?q" "queue_of s q = delayed_task_queue e" "\<forall>q'. q' \<noteq> q \<longrightarrow> queue_of t q' = queue_of s q'"
    using assms(4) by (simp_all add: queue_of_def wf)
  show ?thesis
    using R t inv w q f queues_inv_woken [of ?s t "Suc k"] by (intro exI [of _ t]) simp
qed

lemma RegisterTask_frame:
  assumes "queues_inv k s" "queue_entries_m s q = Some e" "q \<noteq> unmerged" "is_int64 tm" "RegisterTask P q task tm s = Ret () t"
  shows "app t = app s" "terminated_m t = terminated_m s" "clock_reads s \<le> clock_reads t"
    "\<exists>e'. queue_entries_m t q = Some e' \<and> wakeable e' = wakeable e \<and> task_observers e' = task_observers e"
proof -
  let ?x = "\<lparr>order_m = post_order k, task_m = task, target_time_m = tm\<rparr>"
  let ?q = "pq_push DelayedTask_greater ?x (delayed_task_queue e)"
  let ?s = "set_entry q (e\<lparr>delayed_task_queue := ?q\<rparr>) (s\<lparr>order_counter_m := order_counter_m s + 1\<rparr>)"
  have e: "entry_inv k q e" and c: "order_counter_m s = of_nat k"
    using assms(1,2) by (simp_all add: queues_inv_def)
  have e': "entry_inv (Suc k) q (e\<lparr>delayed_task_queue := ?q\<rparr>)"
    using e assms(4) pq_sorted_push [of "delayed_task_queue e" ?x] by (auto simp: entry_inv_def less_Suc_eq)
  have "WakeUpUnlocked P q (target_time_m (hd ?q)) ?s = Ret () t"
    using RegisterTask_eq [OF assms(2), of P task tm] assms(3,5) e c by (simp add: entry_inv_def post_order_def)
  from WakeUpUnlocked_result [of ?s q _ "Suc k", OF _ e' this]
  have w: "woken ?s t" "clock_reads s \<le> clock_reads t" by simp_all
  note f = woken_fields [OF w(1)]
  show "app t = app s" "terminated_m t = terminated_m s" "clock_reads s \<le> clock_reads t"
    "\<exists>e'. queue_entries_m t q = Some e' \<and> wakeable e' = wakeable e \<and> task_observers e' = task_observers e"
    using w(2) by (simp_all add: f)
qed

text \<open>
  C34. Posting is first in, first out: while fewer than \<open>2 ^ 32\<close> tasks have been posted in all,
  registering a task puts it behind every pending task that is due at the same time or earlier and
  before every later one, although the order number is a wrapping \<open>int\<close> that is converted to
  \<open>size_t\<close>. Other queues are untouched.
\<close>
theorem RegisterTask_fifo:
  assumes "platform_ok P" "queues_inv k s" "k < 2 ^ 32" "queue_entries_m s q = Some e" "q \<noteq> unmerged" "is_int64 tm"
  shows "\<exists>t. RegisterTask P q task tm s = Ret () t \<and> queues_inv (Suc k) t \<and>
    queue_of t q = filter (\<lambda>d. target_time_m d \<le> tm) (queue_of s q) @
      [\<lparr>order_m = post_order k, task_m = task, target_time_m = tm\<rparr>] @ filter (\<lambda>d. target_time_m d > tm) (queue_of s q) \<and>
    (\<forall>q'. q' \<noteq> q \<longrightarrow> queue_of t q' = queue_of s q')"
  using RegisterTask_works [OF assms, of task] by blast

definition sample_platform :: "(nat, nat list) platform" where
  "sample_platform = \<lparr>clock = (\<lambda>n. 1000), CreateWaitableTimer = True, SetWaitableTimer = (\<lambda>n. True),
     run_task = (\<lambda>t s. Ret () (s\<lparr>app := app s @ [t]\<rparr>))\<rparr>"

definition start_runtime :: "(nat, nat list) runtime" where
  "start_runtime = \<lparr>queue_entries_m = (\<lambda>_. None)(0 := Some ((new_entry 0)\<lparr>wakeable := Some 0\<rparr>)), task_queue_id_counter_m = 1,
     order_counter_m = 0, timers = (\<lambda>_. None), clock_reads = 0, terminated_m = (\<lambda>_. False),
     running_m = (\<lambda>_. False), app = []\<rparr>"

lemma sample_platform_ok: "platform_ok sample_platform"
  by (simp add: platform_ok_def sample_platform_def mono_def int64_max_def)

lemma start_runtime_inv: "queues_inv 0 start_runtime"
  by (simp add: queues_inv_def start_runtime_def entry_inv_def new_entry_def pq_sorted_def)

theorem RegisterTask_fifo_witness:
  "\<exists>t. RegisterTask sample_platform 0 7 500 start_runtime = Ret () t \<and> queues_inv (Suc 0) t \<and>
    queue_of t 0 = filter (\<lambda>d. target_time_m d \<le> 500) (queue_of start_runtime 0) @
      [\<lparr>order_m = post_order 0, task_m = 7, target_time_m = 500\<rparr>] @ filter (\<lambda>d. target_time_m d > 500) (queue_of start_runtime 0) \<and>
    (\<forall>q'. q' \<noteq> 0 \<longrightarrow> queue_of t q' = queue_of start_runtime q')"
  by (rule RegisterTask_fifo [OF sample_platform_ok start_runtime_inv])
    (simp_all add: start_runtime_def unmerged_def is_int64_def int64_min_def int64_max_def)

lemma GetNextTaskToRun_works:
  assumes "platform_ok P" "queues_inv k s" "queue_entries_m s q = Some e" "q \<noteq> unmerged"
  shows "\<exists>r t. GetNextTaskToRun P q from s = Ret r t \<and> queues_inv k t \<and> app t = app s \<and>
    terminated_m t = terminated_m s \<and> running_m t = running_m s \<and> clock_reads s \<le> clock_reads t \<and>
    (\<exists>e'. queue_entries_m t = (queue_entries_m s)(q := Some e') \<and> wakeable e' = wakeable e \<and> task_observers e' = task_observers e) \<and>
    (wakeable e \<noteq> None \<and> queue_of t q \<noteq> [] \<longrightarrow> armed P t q (target_time_m (hd (queue_of t q)))) \<and>
    (case queue_of s q of
       [] \<Rightarrow> r = None \<and> queue_of t q = []
     | d # ds \<Rightarrow> if target_time_m d > from then r = None \<and> queue_of t q = d # ds
                else r = Some (task_m d) \<and> queue_of t q = ds)"
proof -
  have e: "entry_inv k q e" by (rule queues_invD [OF assms(2,3)])
  have o: "owner_of e \<noteq> unmerged" using e assms(4) by (simp add: entry_inv_def)
  note G = GetNextTaskToRun_eq [OF assms(3) o, of P "from"]
  have qs: "queue_of s q = delayed_task_queue e" using assms(3) by (simp add: queue_of_def)
  show ?thesis
  proof (cases "delayed_task_queue e")
    case Nil
    have "queue_entries_m s = (queue_entries_m s)(q := Some e)" using assms(3) by auto
    then show ?thesis using Nil G qs assms(2) by (intro exI [of _ None] exI [of _ s]) auto
  next
    case (Cons d ds)
    have "is_int64 (target_time_m d)" using e Cons by (simp add: entry_inv_def)
    then obtain u where u: "WakeUpUnlocked P q (target_time_m d) s = Ret () u"
      by (rule WakeUpUnlocked_returns [OF assms(1) _ assms(3)])
    note w = WakeUpUnlocked_result [OF assms(3) e u]
    note wf = woken_fields [OF conjunct1 [OF w]]
    have eu: "queue_entries_m u q = Some e" using w assms(3) by (simp add: wf)
    show ?thesis
    proof (cases "target_time_m d > from")
      case True
      have "queue_entries_m u = (queue_entries_m s)(q := Some e)" using w assms(3) by (auto simp: wf)
      then show ?thesis
        using True G Cons qs u w assms(2) queues_inv_woken [of s u k] queue_of_woken [of s u q]
        by (intro exI [of _ None] exI [of _ u]) (auto simp: wf)
    next
      case False
      let ?e = "e\<lparr>delayed_task_queue := ds\<rparr>"
      let ?t = "set_entry q ?e u"
      have e': "entry_inv k q ?e" using e Cons by (auto simp: entry_inv_def pq_sorted_def)
      have inv: "queues_inv k ?t"
        using e' assms(2) w by (auto simp: queues_inv_def wf)
      have le: "target_time_m d \<le> target_time_m d'" if "d' \<in> set ds" for d'
        using e Cons that by (auto simp: entry_inv_def pq_sorted_def DelayedTask_greater_def split: if_splits)
      have "armed P ?t q (target_time_m (hd ds))" if "wakeable e \<noteq> None" "ds \<noteq> []"
        using w that le [OF hd_in_set [OF that(2)]] by (fastforce simp: armed_def)
      then show ?thesis
        using False G Cons qs u eu inv w
        by (intro exI [of _ "Some (task_m d)"] exI [of _ ?t]) (auto simp: queue_of_def pq_pop_def wf)
    qed
  qed
qed

section \<open>The specification of the queue\<close>

text \<open>
  Abstractly a queue is the multiset of its pending tasks, and asking for the next task to run
  either finds nothing due or removes one due task that no other precedes.
\<close>

definition next_spec ::
  "'t DelayedTask multiset \<Rightarrow> TimePoint \<Rightarrow> 't option \<Rightarrow> 't DelayedTask multiset \<Rightarrow> bool" where
  "next_spec M from r M' \<longleftrightarrow>
     (case r of
        None \<Rightarrow> M' = M \<and> (\<forall>d \<in># M. target_time_m d > from)
      | Some task \<Rightarrow> \<exists>d. task_m d = task \<and> M = add_mset d M' \<and> target_time_m d \<le> from \<and>
          (\<forall>d' \<in># M. \<not> DelayedTask_greater d d'))"

lemma least_target: "\<not> DelayedTask_greater d d' \<Longrightarrow> target_time_m d \<le> target_time_m d'"
  by (auto simp: DelayedTask_greater_def split: if_splits)

text \<open>
  C33. The queue refines its specification: \<open>GetNextTaskToRun\<close> always returns, keeps the invariant,
  and what it does to the list that models the queue is, on the multiset of pending tasks, what
  the specification allows: it takes the earliest due task, the first posted among equals, or
  reports that nothing is due.
\<close>
theorem GetNextTaskToRun_refines:
  assumes "platform_ok P" "queues_inv k s" "queue_entries_m s q = Some e" "q \<noteq> unmerged"
  shows "\<exists>r t. GetNextTaskToRun P q from s = Ret r t \<and> queues_inv k t \<and>
    next_spec (mset (queue_of s q)) from r (mset (queue_of t q))"
proof -
  obtain r t where G: "GetNextTaskToRun P q from s = Ret r t" "queues_inv k t"
    and c: "case queue_of s q of
       [] \<Rightarrow> r = None \<and> queue_of t q = []
     | d # ds \<Rightarrow> if target_time_m d > from then r = None \<and> queue_of t q = d # ds
                else r = Some (task_m d) \<and> queue_of t q = ds"
    using GetNextTaskToRun_works [OF assms, of "from"] by blast
  have valid: "pq_sorted DelayedTask_greater (queue_of s q)"
    using queues_invD [OF assms(2,3)] assms(3) by (simp add: queue_of_def entry_inv_def)
  have "next_spec (mset (queue_of s q)) from r (mset (queue_of t q))"
  proof (cases "queue_of s q")
    case (Cons d ds)
    then have "pq_top (queue_of s q) = Some d" by (simp add: pq_top_def)
    from dtq.top_least [OF valid this] have least: "\<forall>y \<in># mset (queue_of s q). \<not> DelayedTask_greater d y" by simp
    have le: "target_time_m d \<le> target_time_m y" if "y \<in> set ds" for y
      using least Cons that least_target [of d y] by simp
    show ?thesis
    proof (cases "target_time_m d > from")
      case True
      then show ?thesis using c Cons le by (fastforce simp: next_spec_def)
    next
      case False
      then show ?thesis using c Cons least by (auto simp: next_spec_def)
    qed
  qed (use c in \<open>simp add: next_spec_def\<close>)
  with G show ?thesis by blast
qed

theorem GetNextTaskToRun_refines_witness:
  "\<exists>r t. GetNextTaskToRun sample_platform 0 5 start_runtime = Ret r t \<and> queues_inv 0 t \<and>
    next_spec (mset (queue_of start_runtime 0)) 5 r (mset (queue_of t 0))"
  by (rule GetNextTaskToRun_refines [OF sample_platform_ok start_runtime_inv])
    (simp_all add: start_runtime_def unmerged_def)

end
