(* ===== verification/Message_Loop.thy ===== *)
theory Message_Loop
  imports Task_Queues
begin

text \<open>
  Message loops, task runners and threads: \<^verbatim>\<open>message_loop_impl.cpp\<close>, \<^verbatim>\<open>message_loop.cpp\<close>,
  \<^verbatim>\<open>task_runner.cpp\<close>, \<^verbatim>\<open>thread.cpp\<close> and \<^verbatim>\<open>platform/win/message_loop_win.cpp\<close>. A loop is identified
  by the id of its queue. Running a task may post further tasks, so draining a queue need not end;
  the loops take fuel, and the theorems give the fuel that is enough.
\<close>

section \<open>Loops\<close>

definition MessageLoopImpl_new :: "('t, 'w) runtime \<Rightarrow> (u64, ('t, 'w) runtime) outcome" where
  "MessageLoopImpl_new s =
     andThen (CreateTaskQueue s) (\<lambda>queue_id s.
       andThen (SetWakeable queue_id queue_id (s\<lparr>terminated_m := (terminated_m s)(queue_id := False)\<rparr>)) (\<lambda>_ s.
         Ret queue_id s))"

definition MessageLoopImpl_delete :: "u64 \<Rightarrow> ('t, 'w) runtime \<Rightarrow> (unit, ('t, 'w) runtime) outcome" where
  "MessageLoopImpl_delete queue_id s = Dispose queue_id s"

definition MessageLoopWin_new :: "('t, 'w) platform \<Rightarrow> ('t, 'w) runtime \<Rightarrow> (u64, ('t, 'w) runtime) outcome" where
  "MessageLoopWin_new P s =
     andThen (MessageLoopImpl_new s) (\<lambda>queue_id s. wtf_check (CreateWaitableTimer P) (Ret queue_id s))"

text \<open>
  \<open>current\<close> is the thread-local \<open>tls_message_loop\<close>: the loop of the calling thread, if it has one.
  A \<open>MessageLoop\<close> owns its implementation and its task runner, and both are named by the queue id.
\<close>

definition IsInitializedForCurrentThread :: "u64 option \<Rightarrow> bool" where
  "IsInitializedForCurrentThread current = (current \<noteq> None)"

definition EnsureInitializedForCurrentThread ::
  "('t, 'w) platform \<Rightarrow> u64 option \<Rightarrow> ('t, 'w) runtime \<Rightarrow> (u64 option, ('t, 'w) runtime) outcome" where
  "EnsureInitializedForCurrentThread P current s =
     (if current \<noteq> None then Ret current s
      else andThen (MessageLoopWin_new P s) (\<lambda>loop s. Ret (Some loop) s))"

definition GetCurrent :: "u64 option \<Rightarrow> ('t, 'w) runtime \<Rightarrow> (u64, ('t, 'w) runtime) outcome" where
  "GetCurrent current s = (case current of None \<Rightarrow> Fault CheckFailed | Some loop \<Rightarrow> Ret loop s)"

definition GetCurrentTaskQueueId :: "u64 option \<Rightarrow> ('t, 'w) runtime \<Rightarrow> (u64, ('t, 'w) runtime) outcome" where
  "GetCurrentTaskQueueId current s = (case current of None \<Rightarrow> Fault CheckFailed | Some loop \<Rightarrow> Ret loop s)"

definition AddTaskObserver ::
  "u64 option \<Rightarrow> u64 \<Rightarrow> int \<Rightarrow> 't option \<Rightarrow> ('t, 'w) runtime \<Rightarrow> (unit, ('t, 'w) runtime) outcome" where
  "AddTaskObserver current queue_id key callback s =
     wtf_check (callback \<noteq> None)
       (andThen (GetCurrent current s) (\<lambda>loop s.
         wtf_check (loop = queue_id)
           (if callback \<noteq> None then Queues_AddTaskObserver queue_id key callback s else Ret () s)))"

definition PostTask ::
  "('t, 'w) platform \<Rightarrow> u64 \<Rightarrow> 't option \<Rightarrow> TimePoint \<Rightarrow> ('t, 'w) runtime \<Rightarrow> (unit, ('t, 'w) runtime) outcome" where
  "PostTask P queue_id task target_time s =
     (case task of
        None \<Rightarrow> Fault CheckFailed
      | Some f \<Rightarrow>
          if terminated_m s queue_id then Ret () s else RegisterTask P queue_id f target_time s)"

fun run_all :: "('t, 'w) platform \<Rightarrow> 't list \<Rightarrow> ('t, 'w) runtime \<Rightarrow> (unit, ('t, 'w) runtime) outcome" where
  "run_all P [] s = Ret () s"
| "run_all P (t # ts) s = andThen (run_task P t s) (\<lambda>_ s. run_all P ts s)"

datatype FlushType = Single | All

fun flush_loop ::
  "('t, 'w) platform \<Rightarrow> FlushType \<Rightarrow> u64 \<Rightarrow> TimePoint \<Rightarrow> nat \<Rightarrow> ('t, 'w) runtime \<Rightarrow> (unit, ('t, 'w) runtime) outcome" where
  "flush_loop P type queue_id now 0 s = Fault OutOfFuel"
| "flush_loop P type queue_id now (Suc n) s =
     andThen (GetNextTaskToRun P queue_id now s) (\<lambda>invocation s.
       case invocation of
         None \<Rightarrow> Ret () s
       | Some f \<Rightarrow>
           andThen (run_task P f s) (\<lambda>_ s.
             andThen (GetObserversToNotify queue_id s) (\<lambda>observers s.
               andThen (run_all P observers s) (\<lambda>_ s.
                 if type = Single then Ret () s else flush_loop P type queue_id now n s))))"

definition FlushTasks ::
  "('t, 'w) platform \<Rightarrow> nat \<Rightarrow> FlushType \<Rightarrow> u64 \<Rightarrow> ('t, 'w) runtime \<Rightarrow> (unit, ('t, 'w) runtime) outcome" where
  "FlushTasks P n type queue_id s = (let (now, s) = Now P s in flush_loop P type queue_id now n s)"

definition RunExpiredTasksNow ::
  "('t, 'w) platform \<Rightarrow> nat \<Rightarrow> u64 \<Rightarrow> ('t, 'w) runtime \<Rightarrow> (unit, ('t, 'w) runtime) outcome" where
  "RunExpiredTasksNow P n queue_id s = FlushTasks P n All queue_id s"

definition RunSingleExpiredTaskNow ::
  "('t, 'w) platform \<Rightarrow> nat \<Rightarrow> u64 \<Rightarrow> ('t, 'w) runtime \<Rightarrow> (unit, ('t, 'w) runtime) outcome" where
  "RunSingleExpiredTaskNow P n queue_id s = FlushTasks P n Single queue_id s"

section \<open>The Windows loop\<close>

definition Terminate :: "('t, 'w) platform \<Rightarrow> u64 \<Rightarrow> ('t, 'w) runtime \<Rightarrow> (unit, ('t, 'w) runtime) outcome" where
  "Terminate P queue_id s =
     (let s = s\<lparr>running_m := (running_m s)(queue_id := False)\<rparr>; (now, s) = Now P s
      in WakeUp P queue_id now s)"

definition DoTerminate :: "('t, 'w) platform \<Rightarrow> u64 \<Rightarrow> ('t, 'w) runtime \<Rightarrow> (unit, ('t, 'w) runtime) outcome" where
  "DoTerminate P queue_id s = Terminate P queue_id (s\<lparr>terminated_m := (terminated_m s)(queue_id := True)\<rparr>)"

text \<open>
  The \<open>while\<close> loop of \<open>MessageLoopWin::Run\<close>. Each element of the list is one return of
  \<open>WaitForSingleObject\<close>: what other threads have posted until then. The wait only returns when the
  timer has been set, and it resets the timer. The result says whether the loop has returned or is
  still waiting.
\<close>

fun post_all ::
  "('t, 'w) platform \<Rightarrow> u64 \<Rightarrow> ('t \<times> TimePoint) list \<Rightarrow> ('t, 'w) runtime \<Rightarrow> (unit, ('t, 'w) runtime) outcome" where
  "post_all P queue_id [] s = Ret () s"
| "post_all P queue_id ((f, tm) # ps) s =
     andThen (PostTask P queue_id (Some f) tm s) (\<lambda>_ s. post_all P queue_id ps s)"

fun run_loop ::
  "('t, 'w) platform \<Rightarrow> nat \<Rightarrow> ('t \<times> TimePoint) list list \<Rightarrow> u64 \<Rightarrow> ('t, 'w) runtime \<Rightarrow>
   (bool, ('t, 'w) runtime) outcome" where
  "run_loop P n [] queue_id s = Ret (\<not> running_m s queue_id) s"
| "run_loop P n (w # ws) queue_id s =
     (if \<not> running_m s queue_id then Ret True s
      else
        andThen (post_all P queue_id w s) (\<lambda>_ s.
          if timers s queue_id = None then Ret False s
          else
            andThen (RunExpiredTasksNow P n queue_id (s\<lparr>timers := (timers s)(queue_id := None)\<rparr>)) (\<lambda>_ s.
              run_loop P n ws queue_id s)))"

definition Run ::
  "('t, 'w) platform \<Rightarrow> nat \<Rightarrow> ('t \<times> TimePoint) list list \<Rightarrow> u64 \<Rightarrow> ('t, 'w) runtime \<Rightarrow>
   (bool, ('t, 'w) runtime) outcome" where
  "Run P n ws queue_id s = run_loop P n ws queue_id (s\<lparr>running_m := (running_m s)(queue_id := True)\<rparr>)"

definition DoRun ::
  "('t, 'w) platform \<Rightarrow> nat \<Rightarrow> ('t \<times> TimePoint) list list \<Rightarrow> u64 \<Rightarrow> ('t, 'w) runtime \<Rightarrow>
   (bool, ('t, 'w) runtime) outcome" where
  "DoRun P n ws queue_id s =
     (if terminated_m s queue_id then Ret True s
      else
        andThen (Run P n ws queue_id s) (\<lambda>returned s.
          if \<not> returned then Ret False s
          else
            (let s = s\<lparr>terminated_m := (terminated_m s)(queue_id := True)\<rparr>
             in andThen (RunExpiredTasksNow P n queue_id s) (\<lambda>_ s.
                  andThen (DisposeTasks queue_id s) (\<lambda>_ s. Ret True s)))))"

section \<open>Task runners and threads\<close>

definition TaskRunner_PostTask ::
  "('t, 'w) platform \<Rightarrow> u64 \<Rightarrow> 't option \<Rightarrow> ('t, 'w) runtime \<Rightarrow> (unit, ('t, 'w) runtime) outcome" where
  "TaskRunner_PostTask P loop task s = (let (now, s) = Now P s in PostTask P loop task now s)"

definition PostTaskForTime ::
  "('t, 'w) platform \<Rightarrow> u64 \<Rightarrow> 't option \<Rightarrow> TimePoint \<Rightarrow> ('t, 'w) runtime \<Rightarrow> (unit, ('t, 'w) runtime) outcome" where
  "PostTaskForTime P loop task target_time s = PostTask P loop task target_time s"

definition PostDelayedTask ::
  "('t, 'w) platform \<Rightarrow> u64 \<Rightarrow> 't option \<Rightarrow> TimeDelta \<Rightarrow> ('t, 'w) runtime \<Rightarrow> (unit, ('t, 'w) runtime) outcome" where
  "PostDelayedTask P loop task delay s =
     (let (now, s) = Now P s
      in case TimePoint_plus now delay of None \<Rightarrow> Fault UndefinedValue | Some t \<Rightarrow> PostTask P loop task t s)"

definition RunsTasksOnCurrentThread ::
  "u64 option \<Rightarrow> u64 \<Rightarrow> ('t, 'w) runtime \<Rightarrow> (bool, ('t, 'w) runtime) outcome" where
  "RunsTasksOnCurrentThread current loop s =
     (if \<not> IsInitializedForCurrentThread current then Ret False s
      else andThen (GetCurrentTaskQueueId current s) (\<lambda>current_queue_id s.
        RunsOnTheSameThread current_queue_id loop s))"

text \<open>
  The start of a thread up to \<open>latch.Signal()\<close>; the new thread then runs the loop, and the creator
  waits for the latch and keeps the task runner. \<open>terminate\<close> is the closure that \<open>Join\<close> posts, which
  calls \<open>MessageLoop_Terminate\<close> on the thread of the loop; the result of \<open>Thread_Join\<close> is the
  \<open>joined_\<close> member.
\<close>

definition Thread_new :: "('t, 'w) platform \<Rightarrow> ('t, 'w) runtime \<Rightarrow> (u64, ('t, 'w) runtime) outcome" where
  "Thread_new P s =
     andThen (EnsureInitializedForCurrentThread P None s) (\<lambda>current s. GetCurrent current s)"

definition MessageLoop_Terminate ::
  "('t, 'w) platform \<Rightarrow> u64 option \<Rightarrow> ('t, 'w) runtime \<Rightarrow> (unit, ('t, 'w) runtime) outcome" where
  "MessageLoop_Terminate P current s = andThen (GetCurrent current s) (\<lambda>loop s. DoTerminate P loop s)"

definition Thread_Join ::
  "('t, 'w) platform \<Rightarrow> u64 \<Rightarrow> 't \<Rightarrow> bool \<Rightarrow> ('t, 'w) runtime \<Rightarrow> (bool, ('t, 'w) runtime) outcome" where
  "Thread_Join P loop terminate joined s =
     (if joined then Ret joined s
      else andThen (TaskRunner_PostTask P loop (Some terminate) s) (\<lambda>_ s. Ret True s))"

section \<open>Draining a queue\<close>

text \<open>Between two moments loops are only stopped, never restarted, and the clock is only read further.\<close>

definition progress :: "('t, 'w) runtime \<Rightarrow> ('t, 'w) runtime \<Rightarrow> bool" where
  "progress s t \<longleftrightarrow> (\<forall>q. running_m t q \<longrightarrow> running_m s q) \<and> (\<forall>q. terminated_m s q \<longrightarrow> terminated_m t q) \<and>
     clock_reads s \<le> clock_reads t"

lemma progress_refl [simp]: "progress s s"
  by (simp add: progress_def)

lemma progress_same:
  "running_m t = running_m s \<Longrightarrow> terminated_m t = terminated_m s \<Longrightarrow> clock_reads s \<le> clock_reads t \<Longrightarrow> progress s t"
  by (simp add: progress_def)

lemma progress_trans: "progress s t \<Longrightarrow> progress t u \<Longrightarrow> progress s u"
  by (auto simp: progress_def)

text \<open>
  Tasks that do not touch the queues: running one changes what the application sees by \<open>act\<close> and
  may stop loops, but posts nothing and registers no observer.
\<close>

definition quiet :: "('t, 'w) platform \<Rightarrow> ('t \<Rightarrow> 'w \<Rightarrow> 'w) \<Rightarrow> bool" where
  "quiet P act \<longleftrightarrow> (\<forall>f s. \<exists>t. run_task P f s = Ret () t \<and> queue_entries_m t = queue_entries_m s \<and>
     order_counter_m t = order_counter_m s \<and> app t = act f (app s) \<and>
     progress s t)"

lemma quietD:
  assumes "quiet P act"
  obtains t where "run_task P f s = Ret () t" "queue_entries_m t = queue_entries_m s"
    "order_counter_m t = order_counter_m s" "app t = act f (app s)" "progress s t"
  using assms unfolding quiet_def by metis

lemma run_all_quiet:
  assumes "quiet P act"
  shows "\<exists>t. run_all P fs s = Ret () t \<and> queue_entries_m t = queue_entries_m s \<and>
    order_counter_m t = order_counter_m s \<and> app t = fold act fs (app s) \<and> progress s t"
proof (induction fs arbitrary: s)
  case (Cons f fs)
  obtain u where u: "run_task P f s = Ret () u" "queue_entries_m u = queue_entries_m s"
    "order_counter_m u = order_counter_m s" "app u = act f (app s)" "progress s u"
    using quietD [OF assms] .
  then show ?case using Cons.IH [of u] by (auto intro: progress_trans)
qed simp

text \<open>What one due task does to the application: itself, then the observers in the order of their keys.\<close>

definition observed :: "('t \<Rightarrow> 'w \<Rightarrow> 'w) \<Rightarrow> 't TaskQueueEntry \<Rightarrow> 't DelayedTask \<Rightarrow> 'w \<Rightarrow> 'w" where
  "observed act e d w = fold act (map snd (task_observers e)) (act (task_m d) w)"

definition stops :: "('t, 'w) platform \<Rightarrow> u64 \<Rightarrow> 't \<Rightarrow> bool" where
  "stops P q f \<longleftrightarrow> (\<forall>s t. run_task P f s = Ret () t \<longrightarrow> \<not> running_m t q)"

text \<open>A due task and its observers, run one after the other.\<close>

lemma run_observed:
  assumes quiet: "quiet P act" and ev: "queue_entries_m u q = Some e"
  obtains v w where "run_task P f u = Ret () v" "run_all P (map snd (task_observers e)) v = Ret () w"
    "queue_entries_m v = queue_entries_m u" "queue_entries_m w = queue_entries_m u" "order_counter_m w = order_counter_m u"
    "app w = fold act (map snd (task_observers e)) (act f (app u))" "progress u w" "stops P q f \<Longrightarrow> \<not> running_m w q"
proof -
  obtain v where v: "run_task P f u = Ret () v" "queue_entries_m v = queue_entries_m u"
    "order_counter_m v = order_counter_m u" "app v = act f (app u)" "progress u v"
    using quietD [OF quiet] .
  obtain w where w: "run_all P (map snd (task_observers e)) v = Ret () w" "queue_entries_m w = queue_entries_m v"
    "order_counter_m w = order_counter_m v" "app w = fold act (map snd (task_observers e)) (app v)" "progress v w"
    using run_all_quiet [OF quiet] by blast
  have "stops P q f \<Longrightarrow> \<not> running_m w q" using v(1) w(5) by (auto simp: stops_def progress_def)
  then show ?thesis using that [OF v(1) w(1)] v w progress_trans [OF v(5) w(5)] by simp
qed

lemma flush_loop_quiet:
  assumes P: "platform_ok P" and quiet: "quiet P act" and q: "q \<noteq> unmerged"
  shows "queues_inv k s \<Longrightarrow> queue_entries_m s q = Some e \<Longrightarrow> length (queue_of s q) < n \<Longrightarrow>
    \<exists>t. flush_loop P All q now n s = Ret () t \<and> queues_inv k t \<and>
      app t = fold (observed act e) (takeWhile (\<lambda>d. target_time_m d \<le> now) (queue_of s q)) (app s) \<and>
      queue_of t q = dropWhile (\<lambda>d. target_time_m d \<le> now) (queue_of s q) \<and>
      (\<exists>e'. queue_entries_m t q = Some e' \<and> wakeable e' = wakeable e \<and> task_observers e' = task_observers e) \<and>
      progress s t \<and>
      ((\<exists>d \<in> set (takeWhile (\<lambda>d. target_time_m d \<le> now) (queue_of s q)). stops P q (task_m d)) \<longrightarrow> \<not> running_m t q) \<and>
      (wakeable e \<noteq> None \<and> queue_of t q \<noteq> [] \<longrightarrow> armed P t q (target_time_m (hd (queue_of t q))))"
proof (induction n arbitrary: s e)
  case (Suc n)
  obtain r u e' where G: "GetNextTaskToRun P q now s = Ret r u" "queues_inv k u" "app u = app s"
      "progress s u" "queue_entries_m u = (queue_entries_m s)(q := Some e')" "wakeable e' = wakeable e"
      "task_observers e' = task_observers e"
      "wakeable e \<noteq> None \<and> queue_of u q \<noteq> [] \<longrightarrow> armed P u q (target_time_m (hd (queue_of u q)))"
    and c: "case queue_of s q of
       [] \<Rightarrow> r = None \<and> queue_of u q = []
     | d # ds \<Rightarrow> if target_time_m d > now then r = None \<and> queue_of u q = d # ds
                else r = Some (task_m d) \<and> queue_of u q = ds"
    using GetNextTaskToRun_works [OF P Suc.prems(1,2) q, of now] progress_same [of _ s] by blast
  show ?case
  proof (cases "\<exists>d ds. queue_of s q = d # ds \<and> target_time_m d \<le> now")
    case False
    then have "r = None" "queue_of u q = queue_of s q"
        "takeWhile (\<lambda>d. target_time_m d \<le> now) (queue_of s q) = []"
        "dropWhile (\<lambda>d. target_time_m d \<le> now) (queue_of s q) = queue_of s q"
      using c by (auto split: list.splits if_splits)
    then show ?thesis using G by (intro exI [of _ u]) simp
  next
    case True
    then obtain d ds where d: "queue_of s q = d # ds" "target_time_m d \<le> now" by blast
    then have r: "r = Some (task_m d)" "queue_of u q = ds" using c by auto
    have eu: "queue_entries_m u q = Some e'" using G(5) by simp
    obtain v w where v: "run_task P (task_m d) u = Ret () v" "run_all P (map snd (task_observers e')) v = Ret () w"
      "queue_entries_m v = queue_entries_m u" "queue_entries_m w = queue_entries_m u" "order_counter_m w = order_counter_m u"
      "app w = fold act (map snd (task_observers e')) (act (task_m d) (app u))" "progress u w"
      and stop: "stops P q (task_m d) \<Longrightarrow> \<not> running_m w q"
      by (rule run_observed [OF quiet eu, of "task_m d"]) blast
    have inv: "queues_inv k w" using G(2) v(4,5) by (simp add: queues_inv_def)
    have ew: "queue_entries_m w q = Some e'" using eu v(4) by simp
    have qw: "queue_of w q = ds" using r(2) v(4) by (simp add: queue_of_def)
    have o: "observed act e' = observed act e" by (simp add: observed_def fun_eq_iff G(7))
    have a: "app w = observed act e d (app s)" using v(6) G(3,7) by (simp add: observed_def)
    have p: "progress s w" by (rule progress_trans [OF G(4) v(7)])
    have n: "length (queue_of w q) < n" using Suc.prems(3) d(1) qw by simp
    obtain t where t: "flush_loop P All q now n w = Ret () t" "progress w t"
      "((\<exists>d \<in> set (takeWhile (\<lambda>d. target_time_m d \<le> now) ds). stops P q (task_m d)) \<longrightarrow> \<not> running_m t q)"
      and rest: "queues_inv k t" "app t = fold (observed act e) (takeWhile (\<lambda>d. target_time_m d \<le> now) ds) (app w)"
      "queue_of t q = dropWhile (\<lambda>d. target_time_m d \<le> now) ds"
      "\<exists>e'. queue_entries_m t q = Some e' \<and> wakeable e' = wakeable e \<and> task_observers e' = task_observers e"
      "wakeable e \<noteq> None \<and> queue_of t q \<noteq> [] \<longrightarrow> armed P t q (target_time_m (hd (queue_of t q)))"
      using Suc.IH [OF inv ew n] unfolding qw o G(6,7) by blast
    have "flush_loop P All q now (Suc n) s = Ret () t"
      using G(1) r v(1-3) eu t(1) by (simp add: GetObserversToNotify_def)
    moreover have "\<not> running_m t q" if "stops P q (task_m d)"
      using stop [OF that] t(2) by (auto simp: progress_def)
    ultimately show ?thesis
      using rest t(3) d progress_trans [OF p t(2)] a by (intro exI [of _ t]) auto
  qed
qed simp

text \<open>
  Draining a queue runs exactly what is due, in order, and forgets no later task. When tasks
  post nothing, \<open>FlushTasks\<close> with more fuel than there are tasks returns; it has run the tasks due
  at the time it read from the clock, by time and then by posting order, each followed by all
  observers; the others are still queued; and if any is left, the loop's timer is set to wake it
  in time.
\<close>
theorem FlushTasks_runs_due_tasks:
  assumes "platform_ok P" "quiet P act" "queues_inv k s" "queue_entries_m s q = Some e" "q \<noteq> unmerged"
    "wakeable e \<noteq> None" "length (queue_of s q) < n"
  shows "\<exists>t. FlushTasks P n All q s = Ret () t \<and> queues_inv k t \<and>
    app t = fold (observed act e) (takeWhile (\<lambda>d. target_time_m d \<le> clock P (clock_reads s)) (queue_of s q)) (app s) \<and>
    queue_of t q = dropWhile (\<lambda>d. target_time_m d \<le> clock P (clock_reads s)) (queue_of s q) \<and>
    (queue_of t q \<noteq> [] \<longrightarrow> armed P t q (target_time_m (hd (queue_of t q))))"
proof -
  let ?s = "s\<lparr>clock_reads := Suc (clock_reads s)\<rparr>"
  have "queues_inv k ?s" "queue_entries_m ?s q = Some e" "queue_of ?s q = queue_of s q"
    using assms(3,4) by (simp_all add: queues_inv_def queue_of_def)
  from flush_loop_quiet [OF assms(1,2,5) this(1,2), of n "clock P (clock_reads s)"] this(3) assms(6,7)
  show ?thesis by (auto simp: FlushTasks_def Now_def)
qed

definition busy_runtime :: "(nat, nat list) runtime" where
  "busy_runtime = start_runtime\<lparr>order_counter_m := 2, queue_entries_m := (\<lambda>_. None)(0 := Some ((new_entry 0)\<lparr>wakeable := Some 0,
     delayed_task_queue := [\<lparr>order_m = 0, task_m = 7, target_time_m = 500\<rparr>, \<lparr>order_m = 1, task_m = 8, target_time_m = 5000\<rparr>]\<rparr>))\<rparr>"

lemma busy_runtime_inv: "queues_inv 2 busy_runtime"
proof -
  have "post_order 0 = 0" "post_order 1 = 1" by (simp_all add: post_order_def)
  then show ?thesis
    by (auto simp: queues_inv_def busy_runtime_def start_runtime_def entry_inv_def new_entry_def pq_sorted_def
        DelayedTask_greater_def is_int64_def int64_min_def int64_max_def intro: exI [of _ 0] exI [of _ 1])
qed

lemma sample_quiet: "quiet sample_platform (\<lambda>f w. w @ [f])"
  by (auto simp: quiet_def sample_platform_def progress_def)

theorem FlushTasks_runs_due_tasks_witness:
  "\<exists>t. FlushTasks sample_platform 3 All 0 busy_runtime = Ret () t \<and> queues_inv 2 t \<and>
    app t = fold (observed (\<lambda>f w. w @ [f]) (the (queue_entries_m busy_runtime 0)))
      (takeWhile (\<lambda>d. target_time_m d \<le> clock sample_platform (clock_reads busy_runtime)) (queue_of busy_runtime 0)) (app busy_runtime) \<and>
    queue_of t 0 = dropWhile (\<lambda>d. target_time_m d \<le> clock sample_platform (clock_reads busy_runtime)) (queue_of busy_runtime 0) \<and>
    (queue_of t 0 \<noteq> [] \<longrightarrow> armed sample_platform t 0 (target_time_m (hd (queue_of t 0))))"
  by (rule FlushTasks_runs_due_tasks [OF sample_platform_ok sample_quiet busy_runtime_inv])
    (simp_all add: busy_runtime_def start_runtime_def unmerged_def queue_of_def)

section \<open>The end of a loop\<close>

lemma takeWhile_dropWhile_le:
  fixes f :: "'a \<Rightarrow> int"
  assumes "a \<le> b"
  shows "takeWhile (\<lambda>d. f d \<le> a) xs @ takeWhile (\<lambda>d. f d \<le> b) (dropWhile (\<lambda>d. f d \<le> a) xs) = takeWhile (\<lambda>d. f d \<le> b) xs"
  using assms by (induction xs) auto

lemma DoRun_returns:
  assumes "platform_ok P" "quiet P act" "queues_inv k s" "queue_entries_m s q = Some e" "q \<noteq> unmerged"
    "length (queue_of s q) < n" "\<not> terminated_m s q" "timers s q \<noteq> None"
    "d \<in> set (takeWhile (\<lambda>d. target_time_m d \<le> clock P (clock_reads s)) (queue_of s q))" "stops P q (task_m d)"
  shows "\<exists>t now. DoRun P n [[]] q s = Ret True t \<and> queue_of t q = [] \<and> clock P (clock_reads s) \<le> now \<and>
    app t = fold (observed act e) (takeWhile (\<lambda>d. target_time_m d \<le> now) (queue_of s q)) (app s) \<and>
    (\<forall>f tm. PostTask P q (Some f) tm t = Ret () t)"
proof -
  let ?due = "\<lambda>s d. target_time_m d \<le> clock P (clock_reads s)"
  let ?s = "s\<lparr>running_m := (running_m s)(q := True), timers := (timers s)(q := None), clock_reads := Suc (clock_reads s)\<rparr>"
  have s: "queues_inv k ?s" "queue_entries_m ?s q = Some e" "queue_of ?s q = queue_of s q" "app ?s = app s"
    using assms(3,4) by (simp_all add: queues_inv_def queue_of_def)
  obtain u e' where u: "flush_loop P All q (clock P (clock_reads s)) n ?s = Ret () u" "queues_inv k u" "\<not> running_m u q"
      "app u = fold (observed act e) (takeWhile (?due s) (queue_of s q)) (app s)"
      "queue_of u q = dropWhile (?due s) (queue_of s q)" "progress ?s u"
      "queue_entries_m u q = Some e'" "task_observers e' = task_observers e"
    using flush_loop_quiet [OF assms(1,2,5) s(1,2), of n "clock P (clock_reads s)"] assms(6,9,10) unfolding s(3,4) by blast
  let ?u = "u\<lparr>terminated_m := (terminated_m u)(q := True), clock_reads := Suc (clock_reads u)\<rparr>"
  have o: "observed act e' = observed act e" using u(8) by (simp add: observed_def fun_eq_iff)
  have v0: "queues_inv k ?u" "queue_entries_m ?u q = Some e'" "queue_of ?u q = queue_of u q" "app ?u = app u"
    using u(2,7) by (simp_all add: queues_inv_def queue_of_def)
  have n: "length (queue_of u q) < n" using u(5) assms(6) length_dropWhile_le [of "?due s" "queue_of s q"] by simp
  obtain v e'' where v: "flush_loop P All q (clock P (clock_reads u)) n ?u = Ret () v"
      "app v = fold (observed act e) (takeWhile (?due u) (queue_of u q)) (app u)" "progress ?u v" "queue_entries_m v q = Some e''"
    using flush_loop_quiet [OF assms(1,2,5) v0(1,2), of n "clock P (clock_reads u)"] n unfolding v0(3,4) o by blast
  let ?t = "set_entry q (e''\<lparr>delayed_task_queue := []\<rparr>) v"
  have le: "clock P (clock_reads s) \<le> clock P (clock_reads u)"
    using assms(1) u(6) by (auto simp: platform_ok_def progress_def elim!: monoD)
  have "DoRun P n [[]] q s = Ret True ?t"
    using assms(7,8) u(1,3) v(1,4)
    by (simp add: DoRun_def Run_def RunExpiredTasksNow_def FlushTasks_def Now_def DisposeTasks_def)
  moreover have "terminated_m ?t q" using v(3) by (simp add: progress_def)
  moreover have "app ?t = fold (observed act e) (takeWhile (?due u) (queue_of s q)) (app s)"
    using v(2) unfolding u(4,5) takeWhile_dropWhile_le [OF le, of target_time_m "queue_of s q", symmetric] by simp
  ultimately show ?thesis
    using le by (intro exI [of _ ?t] exI [of _ "clock P (clock_reads u)"]) (simp add: queue_of_def PostTask_def)
qed

text \<open>
  C31. A loop that is told to stop ends, and nothing that is due is lost. If the queue of a running
  loop holds a due task that stops it (such as the one \<open>Thread::Join\<close> posts) and the timer is set,
  then after one wake-up \<open>DoRun\<close> returns: every task due by then has been run in order, whatever
  else was pending has been discarded, and later posts are ignored.
\<close>
theorem DoRun_ends:
  assumes "platform_ok P" "quiet P act" "queues_inv k s" "queue_entries_m s q = Some e" "q \<noteq> unmerged"
    "length (queue_of s q) < n" "\<not> terminated_m s q" "timers s q \<noteq> None"
    "d \<in> set (takeWhile (\<lambda>d. target_time_m d \<le> clock P (clock_reads s)) (queue_of s q))" "stops P q (task_m d)"
  shows "\<exists>t now. DoRun P n [[]] q s = Ret True t \<and> queue_of t q = [] \<and> clock P (clock_reads s) \<le> now \<and>
    app t = fold (observed act e) (takeWhile (\<lambda>d. target_time_m d \<le> now) (queue_of s q)) (app s) \<and>
    (\<forall>f tm. PostTask P q (Some f) tm t = Ret () t)"
  by (rule DoRun_returns [OF assms])

definition stop_platform :: "(nat, nat list) platform" where
  "stop_platform = sample_platform\<lparr>run_task := (\<lambda>f s.
     if f = 7 then andThen (MessageLoop_Terminate sample_platform (Some 0) s) (\<lambda>_ s. Ret () (s\<lparr>app := app s @ [7]\<rparr>))
     else Ret () (s\<lparr>app := app s @ [f]\<rparr>))\<rparr>"

lemmas stop_platform_simps = stop_platform_def sample_platform_def MessageLoop_Terminate_def GetCurrent_def DoTerminate_def Terminate_def Now_def WakeUp_def
  due_time_def wtf_check_def Let_def

lemma stop_platform_ok: "platform_ok stop_platform"
  using sample_platform_ok by (simp add: platform_ok_def stop_platform_def)

lemma stop_platform_quiet: "quiet stop_platform (\<lambda>f w. w @ [f])"
  by (auto simp: quiet_def stop_platform_simps progress_def)

lemma stop_platform_stops: "stops stop_platform 0 7"
  by (auto simp: stops_def stop_platform_simps)

theorem DoRun_ends_witness:
  "\<exists>t now. DoRun stop_platform 3 [[]] 0 (busy_runtime\<lparr>timers := (\<lambda>_. Some 500)\<rparr>) = Ret True t \<and> queue_of t 0 = [] \<and>
    clock stop_platform (clock_reads (busy_runtime\<lparr>timers := (\<lambda>_. Some 500)\<rparr>)) \<le> now \<and>
    app t = fold (observed (\<lambda>f w. w @ [f]) (the (queue_entries_m busy_runtime 0)))
      (takeWhile (\<lambda>d. target_time_m d \<le> now) (queue_of (busy_runtime\<lparr>timers := (\<lambda>_. Some 500)\<rparr>) 0))
      (app (busy_runtime\<lparr>timers := (\<lambda>_. Some 500)\<rparr>)) \<and>
    (\<forall>f tm. PostTask stop_platform 0 (Some f) tm t = Ret () t)"
proof (rule DoRun_ends [OF stop_platform_ok stop_platform_quiet])
  show "queues_inv 2 (busy_runtime\<lparr>timers := (\<lambda>_. Some 500)\<rparr>)" using busy_runtime_inv by (simp add: queues_inv_def)
  show "stops stop_platform 0 (task_m \<lparr>order_m = 0, task_m = 7, target_time_m = 500\<rparr>)" using stop_platform_stops by simp
qed (simp_all add: busy_runtime_def start_runtime_def unmerged_def queue_of_def stop_platform_def sample_platform_def)

end
