(* ===== verification/Waitable_Event.thy ===== *)
theory Waitable_Event
  imports Wtf_Time
begin

text \<open>
  The one-off event of \<^verbatim>\<open>src/wtf/sync/waitable_event.cpp\<close>, on which \<open>Thread::Thread\<close> waits. All
  operations hold the mutex, which a wait on the condition variable releases: each return of such
  a wait is one element of a list that says what other threads did to the event in the meantime
  and, for \<open>wait_for\<close>, whether it reported a timeout. A list that is used up means that the thread
  is still waiting. The durations passed to \<open>wait_for\<close> are recorded.
\<close>

record event =
  signaled_m :: bool
  wait_for_args :: "TimeDelta list"

definition Event_Signal :: "event \<Rightarrow> event" where
  "Event_Signal e = e\<lparr>signaled_m := True\<rparr>"

definition Event_Reset :: "event \<Rightarrow> event" where
  "Event_Reset e = e\<lparr>signaled_m := False\<rparr>"

definition IsSignaled :: "event \<Rightarrow> bool" where
  "IsSignaled e = signaled_m e"

datatype event_op = SignalOp | ResetOp

primrec apply_op :: "event_op \<Rightarrow> event \<Rightarrow> event" where
  "apply_op SignalOp e = Event_Signal e"
| "apply_op ResetOp e = Event_Reset e"

definition meanwhile :: "event_op list \<Rightarrow> event \<Rightarrow> event" where
  "meanwhile ops e = fold apply_op ops e"

text \<open>\<open>True\<close>: the wait has returned, and the scope guard has cleared the event.\<close>

fun wait_loop :: "event_op list list \<Rightarrow> event \<Rightarrow> bool \<times> event" where
  "wait_loop ws e =
     (if signaled_m e then (True, e)
      else case ws of [] \<Rightarrow> (False, e) | w # ws \<Rightarrow> wait_loop ws (meanwhile w e))"

definition Wait :: "event_op list list \<Rightarrow> event \<Rightarrow> bool \<times> event" where
  "Wait ws e =
     (case wait_loop ws e of (returned, e) \<Rightarrow> if returned then (True, e\<lparr>signaled_m := False\<rparr>) else (False, e))"

record wake_up =
  timed_out :: bool
  ops :: "event_op list"

text \<open>The result is whether the wait timed out, or \<open>None\<close> while it goes on.\<close>

fun timed_wait_loop ::
  "(nat \<Rightarrow> TimePoint) \<Rightarrow> TimeDelta \<Rightarrow> TimePoint \<Rightarrow> nat \<Rightarrow> wake_up list \<Rightarrow> TimeDelta \<Rightarrow> event \<Rightarrow> (bool option, event) outcome" where
  "timed_wait_loop clock timeout start n ws wait_remaining e =
     (let e = e\<lparr>wait_for_args := wait_for_args e @ [ToNanoseconds wait_remaining]\<rparr>
      in case ws of
           [] \<Rightarrow> Ret None e
         | w # ws \<Rightarrow>
             (let e = meanwhile (ops w) e
              in if timed_out w then Ret (Some True) e
                 else if signaled_m e then Ret (Some False) e
                 else
                   (let now = clock n
                    in wtf_check (start \<le> now)
                         (case TimePoint_diff now start of
                            None \<Rightarrow> Fault UndefinedValue
                          | Some elapsed \<Rightarrow>
                              if timeout \<le> elapsed then Ret (Some True) e
                              else case TimeDelta_minus timeout elapsed of
                                None \<Rightarrow> Fault UndefinedValue
                              | Some wait_remaining \<Rightarrow> timed_wait_loop clock timeout start (Suc n) ws wait_remaining e))))"

definition WaitWithTimeout ::
  "(nat \<Rightarrow> TimePoint) \<Rightarrow> TimeDelta \<Rightarrow> wake_up list \<Rightarrow> event \<Rightarrow> (bool option, event) outcome" where
  "WaitWithTimeout clock timeout ws e =
     (if signaled_m e then Ret (Some False) (e\<lparr>signaled_m := False\<rparr>)
      else
        andThen (timed_wait_loop clock timeout (clock 0) 1 ws timeout e) (\<lambda>r e.
          Ret r (if r = None then e else e\<lparr>signaled_m := False\<rparr>)))"

declare wait_loop.simps [simp del]
declare timed_wait_loop.simps [simp del]

section \<open>Waiting\<close>

lemma meanwhile_no_signal: "SignalOp \<notin> set w \<Longrightarrow> \<not> signaled_m e \<Longrightarrow> \<not> signaled_m (meanwhile w e)"
proof (induction w arbitrary: e)
  case (Cons x w)
  then show ?case by (cases x) (auto simp: meanwhile_def Event_Reset_def)
qed (simp add: meanwhile_def)

lemma wait_for_args_meanwhile [simp]: "wait_for_args (meanwhile w e) = wait_for_args e"
proof (induction w arbitrary: e)
  case (Cons x w)
  then show ?case by (cases x) (auto simp: meanwhile_def Event_Reset_def Event_Signal_def)
qed (simp add: meanwhile_def)

lemma wait_loop_blocks:
  "\<forall>w \<in> set ws. SignalOp \<notin> set w \<Longrightarrow> \<not> signaled_m e \<Longrightarrow> \<not> fst (wait_loop ws e)"
proof (induction ws arbitrary: e)
  case (Cons w ws)
  then show ?case using meanwhile_no_signal [of w e] by (simp add: wait_loop.simps [of "w # ws"])
qed (simp add: wait_loop.simps)

definition clock_ok :: "(nat \<Rightarrow> TimePoint) \<Rightarrow> bool" where
  "clock_ok clock \<longleftrightarrow> mono clock \<and> (\<forall>n. 0 \<le> clock n \<and> clock n \<le> int64_max)"

text \<open>What can be said of a timed wait when it is over, or still going on.\<close>

definition timed_wait_post ::
  "(nat \<Rightarrow> TimePoint) \<Rightarrow> TimeDelta \<Rightarrow> wake_up list \<Rightarrow> bool option \<Rightarrow> bool" where
  "timed_wait_post clock timeout ws r \<longleftrightarrow>
     (r = Some False \<longrightarrow> (\<exists>w \<in> set ws. SignalOp \<in> set (ops w))) \<and>
     (r = Some True \<longrightarrow> (\<exists>w \<in> set ws. timed_out w) \<or> (\<exists>n. clock 0 + timeout \<le> clock n))"

lemma timed_wait_loop_works:
  assumes "clock_ok clock" "is_int64 timeout" "\<not> signaled_m e" "wait_remaining \<le> timeout"
  shows "\<exists>r t ds. timed_wait_loop clock timeout (clock 0) n ws wait_remaining e = Ret r t \<and>
    timed_wait_post clock timeout ws r \<and> wait_for_args t = wait_for_args e @ wait_remaining # ds \<and>
    (\<forall>d \<in> set ds. 0 < d \<and> d \<le> timeout)"
  using assms(3,4)
proof (induction ws arbitrary: n wait_remaining e)
  case Nil
  then show ?case by (simp add: timed_wait_loop.simps timed_wait_post_def ToNanoseconds_def)
next
  case (Cons w ws)
  let ?e = "meanwhile (ops w) (e\<lparr>wait_for_args := wait_for_args e @ [wait_remaining]\<rparr>)"
  have c: "clock 0 \<le> clock n" "0 \<le> clock 0" "clock n \<le> int64_max" "0 \<le> clock n - clock 0"
    using assms(1) by (auto simp: clock_ok_def mono_def)
  then have d: "TimePoint_diff (clock n) (clock 0) = Some (clock n - clock 0)"
    by (auto simp: TimePoint_diff_def FromNanoseconds_def int64_def is_int64_def int64_min_def)
  have m: "TimeDelta_minus timeout (clock n - clock 0) = Some (timeout - (clock n - clock 0))" if "clock n - clock 0 < timeout"
    using that assms(2) c by (auto simp: TimeDelta_minus_def FromNanoseconds_def int64_def is_int64_def int64_min_def)
  note step = timed_wait_loop.simps [of clock timeout "clock 0" n "w # ws" wait_remaining e]
  consider (out) "timed_out w" | (sig) "\<not> timed_out w" "signaled_m ?e"
    | (late) "\<not> timed_out w" "\<not> signaled_m ?e" "timeout \<le> clock n - clock 0"
    | (more_time) "\<not> timed_out w" "\<not> signaled_m ?e" "clock n - clock 0 < timeout" by linarith
  then show ?case
  proof cases
    case out
    then show ?thesis using step by (simp add: Let_def ToNanoseconds_def timed_wait_post_def)
  next
    case sig
    then have "SignalOp \<in> set (ops w)" using meanwhile_no_signal Cons.prems(1) by (metis event.select_convs(1) event.surjective event.update_convs(2))
    then show ?thesis using step sig by (simp add: Let_def ToNanoseconds_def timed_wait_post_def)
  next
    case late
    then have "\<exists>n. clock 0 + timeout \<le> clock n" by (intro exI [of _ n]) simp
    then show ?thesis using step late d c by (auto simp: Let_def ToNanoseconds_def timed_wait_post_def)
  next
    case more_time
    have "timeout - (clock n - clock 0) \<le> timeout" using c(1) by simp
    from Cons.IH [OF more_time(2) this, of "Suc n"] obtain r t ds where
      "timed_wait_loop clock timeout (clock 0) (Suc n) ws (timeout - (clock n - clock 0)) ?e = Ret r t"
      "timed_wait_post clock timeout ws r" "wait_for_args t = wait_for_args ?e @ (timeout - (clock n - clock 0)) # ds"
      "\<forall>d \<in> set ds. 0 < d \<and> d \<le> timeout" by blast
    then show ?thesis using step more_time d m c by (auto simp: Let_def ToNanoseconds_def timed_wait_post_def)
  qed
qed



text \<open>
  A signal that races with a timeout is lost: if another thread signals the event after the
  condition variable has timed out but before the waiter holds the mutex again, the wait reports a
  timeout and clears the event, and a later \<open>Wait\<close> blocks until somebody signals again.
\<close>
theorem timeout_loses_signal:
  assumes "\<not> signaled_m e" "\<forall>w \<in> set ws. SignalOp \<notin> set w"
  shows "\<exists>t. WaitWithTimeout clock timeout [\<lparr>timed_out = True, ops = [SignalOp]\<rparr>] e = Ret (Some True) t \<and>
    \<not> fst (Wait ws t)"
proof -
  have "WaitWithTimeout clock timeout [\<lparr>timed_out = True, ops = [SignalOp]\<rparr>] e =
      Ret (Some True) (e\<lparr>wait_for_args := wait_for_args e @ [timeout], signaled_m := False\<rparr>)"
    using assms(1) by (simp add: WaitWithTimeout_def timed_wait_loop.simps meanwhile_def Event_Signal_def ToNanoseconds_def)
  then show ?thesis
    using wait_loop_blocks [OF assms(2), of "e\<lparr>wait_for_args := wait_for_args e @ [timeout], signaled_m := False\<rparr>"]
    by (auto simp: Wait_def split: prod.splits)
qed

theorem timeout_loses_signal_witness:
  "\<exists>t. WaitWithTimeout (\<lambda>n. 0) 100 [\<lparr>timed_out = True, ops = [SignalOp]\<rparr>] \<lparr>signaled_m = False, wait_for_args = []\<rparr> = Ret (Some True) t \<and>
    \<not> fst (Wait [[], [ResetOp]] t)"
  by (rule timeout_loses_signal) simp_all

end
