(* ===== verification/Logging.thy ===== *)
theory Logging
  imports Prelude
begin

text \<open>
  The log: \<^verbatim>\<open>log_level.h\<close>, \<^verbatim>\<open>log_setting.{h,cpp}\<close> and \<^verbatim>\<open>logging.{h,cpp}\<close> of \<^verbatim>\<open>src/wtf/logging\<close>. The
  state is the global settings and what has been written to standard error. A fatal message ends
  the process, which is the fault \<open>CheckFailed\<close> that \<open>wtf_check\<close> has in all other theories; the
  last theorem justifies that abbreviation.
\<close>

type_synonym LogSeverity = int

definition LOG_INFO :: LogSeverity where "LOG_INFO = 0"
definition LOG_DEBUG :: LogSeverity where "LOG_DEBUG = 1"
definition LOG_WARNING :: LogSeverity where "LOG_WARNING = 2"
definition LOG_ERROR :: LogSeverity where "LOG_ERROR = 3"
definition LOG_FATAL :: LogSeverity where "LOG_FATAL = 4"
definition LOG_NUM_SEVERITIES :: LogSeverity where "LOG_NUM_SEVERITIES = 5"

record LogSettings =
  min_log_level :: LogSeverity
  max_log_size :: u64

record log =
  g_log_settings :: LogSettings
  cerr :: string

definition initial_settings :: LogSettings where
  "initial_settings = \<lparr>min_log_level = LOG_INFO, max_log_size = 4096\<rparr>"

definition SetLogSettings :: "LogSettings \<Rightarrow> log \<Rightarrow> log" where
  "SetLogSettings settings s =
     s\<lparr>g_log_settings := (g_log_settings s)\<lparr>min_log_level := min LOG_FATAL (min_log_level settings)\<rparr>\<rparr>"

definition GetLogSettings :: "log \<Rightarrow> LogSettings" where
  "GetLogSettings s = g_log_settings s"

definition GetMinLogLevel :: "log \<Rightarrow> LogSeverity" where
  "GetMinLogLevel s = min (min_log_level (g_log_settings s)) LOG_FATAL"

text \<open>The constructor returns the member \<open>old_settings_\<close> beside the new state.\<close>

definition ScopedSetLogSettings_new :: "LogSettings \<Rightarrow> log \<Rightarrow> LogSettings \<times> log" where
  "ScopedSetLogSettings_new settings s = (GetLogSettings s, SetLogSettings settings s)"

definition ScopedSetLogSettings_delete :: "LogSettings \<Rightarrow> log \<Rightarrow> log" where
  "ScopedSetLogSettings_delete old_settings s = SetLogSettings old_settings s"

definition kLogSeverityNames :: "string list" where
  "kLogSeverityNames = [''INFO'', ''DEBUG'', ''WARNING'', ''ERROR'', ''FATAL'']"

definition GetNameForLogSeverity :: "LogSeverity \<Rightarrow> string" where
  "GetNameForLogSeverity severity =
     (if severity \<ge> LOG_INFO \<and> severity < LOG_NUM_SEVERITIES then kLogSeverityNames ! nat severity else ''UNKNOWN'')"

function StripDots :: "string \<Rightarrow> string" where
  "StripDots path = (if take 3 path = ''../'' then StripDots (drop 3 path) else path)"
  by pat_completeness auto

termination
proof (relation "measure length")
  show "(drop 3 path, path) \<in> measure length" if "take 3 path = ''../''" for path :: string
    using that by (cases path) auto
qed simp

declare StripDots.simps [simp del]

text \<open>What follows the last slash.\<close>

definition StripPath :: "string \<Rightarrow> string" where
  "StripPath path =
     (if CHR ''/'' \<in> set path then rev (takeWhile (\<lambda>c. c \<noteq> CHR ''/'') (rev path)) else path)"

text \<open>
  The text of a message: the constructor writes the head, the caller the body, the destructor the
  end of the line. Negating \<open>INT_MIN\<close> is undefined.
\<close>

definition LogMessage_new :: "nat \<Rightarrow> LogSeverity \<Rightarrow> string \<Rightarrow> int \<Rightarrow> string option \<Rightarrow> log \<Rightarrow> (string, log) outcome" where
  "LogMessage_new thread severity file line condition s =
     (if severity = - (2 ^ 31) then Fault UndefinedValue
      else
        Ret (''['' @ dec_nat thread @ ''] ['' @
             (if severity \<ge> LOG_INFO then GetNameForLogSeverity severity else ''VERBOSE'' @ dec_int (- severity)) @
             '':'' @ (if severity > LOG_INFO then StripDots file else StripPath file) @ ''('' @ dec_int line @ '')] '' @
             (case condition of None \<Rightarrow> '''' | Some c \<Rightarrow> ''Check failed: '' @ c @ ''. '')) s)"

definition LogMessage_delete :: "LogSeverity \<Rightarrow> string \<Rightarrow> log \<Rightarrow> (unit, log) outcome" where
  "LogMessage_delete severity stream s =
     (let s = s\<lparr>cerr := cerr s @ stream @ [CHR 0x0A]\<rparr>
      in if severity \<ge> LOG_FATAL then Fault CheckFailed else Ret () s)"

definition GetVlogVerbosity :: "log \<Rightarrow> int" where
  "GetVlogVerbosity s = max (- 1) (LOG_INFO - GetMinLogLevel s)"

definition ShouldCreateLogMessage :: "LogSeverity \<Rightarrow> log \<Rightarrow> bool" where
  "ShouldCreateLogMessage severity s = (severity \<ge> GetMinLogLevel s)"

text \<open>A message with a body, and the macros that log lazily.\<close>

definition log_message ::
  "nat \<Rightarrow> LogSeverity \<Rightarrow> string \<Rightarrow> int \<Rightarrow> string option \<Rightarrow> string \<Rightarrow> log \<Rightarrow> (unit, log) outcome" where
  "log_message thread severity file line condition body s =
     andThen (LogMessage_new thread severity file line condition s) (\<lambda>stream s.
       LogMessage_delete severity (stream @ body) s)"

definition WTF_LOG :: "nat \<Rightarrow> LogSeverity \<Rightarrow> string \<Rightarrow> int \<Rightarrow> string \<Rightarrow> log \<Rightarrow> (unit, log) outcome" where
  "WTF_LOG thread severity file line body s =
     (if \<not> ShouldCreateLogMessage severity s then Ret () s else log_message thread severity file line None body s)"

definition WTF_CHECK :: "nat \<Rightarrow> bool \<Rightarrow> string \<Rightarrow> string \<Rightarrow> int \<Rightarrow> string \<Rightarrow> log \<Rightarrow> (unit, log) outcome" where
  "WTF_CHECK thread condition text file line body s =
     (if condition then Ret () s else log_message thread LOG_FATAL file line (Some text) body s)"

definition CORE_VLOG :: "nat \<Rightarrow> int \<Rightarrow> string \<Rightarrow> int \<Rightarrow> string \<Rightarrow> log \<Rightarrow> (unit, log) outcome" where
  "CORE_VLOG thread verbose_level file line body s =
     (if \<not> verbose_level \<le> GetVlogVerbosity s then Ret () s
      else log_message thread (- verbose_level) file line None body s)"

section \<open>Levels\<close>

lemma StripDots_suffix: "\<exists>n. StripDots path = drop n path \<and> take 3 (StripDots path) \<noteq> ''../''"
proof (induction path rule: StripDots.induct)
  case (1 path)
  show ?case
  proof (cases "take 3 path = ''../''")
    case True
    then show ?thesis using 1 by (auto simp: StripDots.simps [of path] drop_drop)
  next
    case False
    then show ?thesis by (intro exI [of _ 0]) (simp add: StripDots.simps [of path])
  qed
qed

lemma StripPath_suffix: "(\<exists>n. StripPath path = drop n path) \<and> CHR ''/'' \<notin> set (StripPath path)"
proof -
  have "rev (takeWhile (\<lambda>c. c \<noteq> CHR ''/'') (rev path)) = drop (length path - length (takeWhile (\<lambda>c. c \<noteq> CHR ''/'') (rev path))) path"
    by (subst takeWhile_eq_take) (simp add: rev_take)
  then have "\<exists>n. StripPath path = drop n path"
    unfolding StripPath_def by (cases "CHR ''/'' \<in> set path") (auto intro: exI [of _ 0])
  moreover have "CHR ''/'' \<notin> set (StripPath path)" by (auto simp: StripPath_def dest: set_takeWhileD)
  ultimately show ?thesis by blast
qed

lemma log_message_line:
  assumes "severity \<noteq> - (2 ^ 31)"
  shows "\<exists>head. log_message thread severity file line condition body s = LogMessage_delete severity (head @ body) s"
  unfolding log_message_def LogMessage_new_def if_not_P [OF assms] andThen.simps by blast

text \<open>
  Logging follows the level. As long as the level is at most fatal, which every change of the
  settings ensures, a message below the level leaves no trace; a fatal one always ends the
  process; any other appends one line that ends with its text. A failed check is the fault that
  \<open>wtf_check\<close> raises, whatever the settings are. Settings changed for a scope are restored at its end.
\<close>
theorem log_levels:
  assumes "min_log_level (g_log_settings s) \<le> LOG_FATAL" "severity \<noteq> - (2 ^ 31)"
  shows "(if severity < min_log_level (g_log_settings s) then WTF_LOG thread severity file line body s = Ret () s
      else if severity \<ge> LOG_FATAL then WTF_LOG thread severity file line body s = Fault CheckFailed
      else \<exists>head. WTF_LOG thread severity file line body s = Ret () (s\<lparr>cerr := cerr s @ head @ body @ [CHR 0x0A]\<rparr>)) \<and>
    WTF_CHECK thread condition text file line body s = wtf_check condition (Ret () s) \<and>
    (case ScopedSetLogSettings_new settings s of (old, t) \<Rightarrow>
       min_log_level (g_log_settings t) \<le> LOG_FATAL \<and> ScopedSetLogSettings_delete old t = s)"
proof -
  have "WTF_CHECK thread condition text file line body s = wtf_check condition (Ret () s)"
    by (simp add: WTF_CHECK_def wtf_check_def log_message_def LogMessage_new_def LogMessage_delete_def LOG_FATAL_def)
  moreover have "ShouldCreateLogMessage severity s \<longleftrightarrow> \<not> severity < min_log_level (g_log_settings s)"
    using assms(1) by (auto simp: ShouldCreateLogMessage_def GetMinLogLevel_def)
  moreover have "case ScopedSetLogSettings_new settings s of (old, t) \<Rightarrow>
      min_log_level (g_log_settings t) \<le> LOG_FATAL \<and> ScopedSetLogSettings_delete old t = s"
    using assms(1)
    by (simp add: ScopedSetLogSettings_new_def ScopedSetLogSettings_delete_def SetLogSettings_def GetLogSettings_def min_absorb2)
  moreover obtain head where "log_message thread severity file line None body s = LogMessage_delete severity (head @ body) s"
    using log_message_line [OF assms(2)] by blast
  then have "log_message thread severity file line None body s =
      (if severity \<ge> LOG_FATAL then Fault CheckFailed else Ret () (s\<lparr>cerr := cerr s @ head @ body @ [CHR 0x0A]\<rparr>))"
    by (simp add: LogMessage_delete_def)
  ultimately show ?thesis by (auto simp: WTF_LOG_def)
qed

theorem log_levels_witness:
  "\<exists>head. WTF_LOG 1 LOG_WARNING ''../src/a.cpp'' 7 ''late'' \<lparr>g_log_settings = initial_settings, cerr = ''''\<rparr> =
    Ret () \<lparr>g_log_settings = initial_settings, cerr = head @ ''late'' @ [CHR 0x0A]\<rparr>"
  using log_levels [of "\<lparr>g_log_settings = initial_settings, cerr = ''''\<rparr>" LOG_WARNING 1 "''../src/a.cpp''" 7 "''late''" True "''''" initial_settings]
  by (simp add: initial_settings_def LOG_INFO_def LOG_WARNING_def LOG_FATAL_def)

end
