(* ===== verification/Trace_Event.thy ===== *)
theory Trace_Event
  imports Wtf_Time
begin

text \<open>
  Tracing, \<^verbatim>\<open>src/wtf/trace_event.{h,cpp}\<close>, in the configuration \<open>FLUTTER_TIMELINE_ENABLED\<close>: events
  go to a handler if their label passes an allow list. The trie that holds the allow list and the
  clock \<open>Dart_TimelineGetMicros\<close> are not part of the sources and are parameters. The scopes that the
  macros open, with the destructors that close them, are a small statement language.
\<close>

section \<open>Events and the state of the tracer\<close>

datatype Dart_Timeline_Event_Type =
    Dart_Timeline_Event_Begin
  | Dart_Timeline_Event_End
  | Dart_Timeline_Event_Instant
  | Dart_Timeline_Event_Async_Begin
  | Dart_Timeline_Event_Async_End
  | Dart_Timeline_Event_Counter
  | Dart_Timeline_Event_Flow_Begin
  | Dart_Timeline_Event_Flow_Step
  | Dart_Timeline_Event_Flow_End

text \<open>The arguments of a call of the handler; a null array is the empty list.\<close>

record timeline_event =
  event_label :: string
  timestamp0 :: int
  timestamp1_or_async_id :: int
  event_type :: Dart_Timeline_Event_Type
  argument_count :: nat
  argument_names :: "string list"
  argument_values :: "string list"

text \<open>\<open>handled\<close> is the sequence of calls that the handlers have received.\<close>

record ('t, 'w, 'h) tracing =
  gAllowlist :: 't
  gTimelineEventHandler :: "'h option"
  gLastItem :: u64
  micros_clock :: 'w
  handled :: "('h \<times> timeline_event) list"

record ('t, 'w) trace_lib =
  AsciiTrie_Fill :: "string list \<Rightarrow> 't \<Rightarrow> 't"
  AsciiTrie_Query :: "'t \<Rightarrow> string \<Rightarrow> bool"
  Dart_TimelineGetMicros :: "'w \<Rightarrow> int \<times> 'w"

definition FlutterTimelineEvent :: "('t, 'w) trace_lib \<Rightarrow> timeline_event \<Rightarrow> ('t, 'w, 'h) tracing \<Rightarrow> ('t, 'w, 'h) tracing" where
  "FlutterTimelineEvent L e s =
     (case gTimelineEventHandler s of
        None \<Rightarrow> s
      | Some h \<Rightarrow> if AsciiTrie_Query L (gAllowlist s) (event_label e) then s\<lparr>handled := handled s @ [(h, e)]\<rparr> else s)"

definition TraceSetAllowlist :: "('t, 'w) trace_lib \<Rightarrow> string list \<Rightarrow> ('t, 'w, 'h) tracing \<Rightarrow> ('t, 'w, 'h) tracing" where
  "TraceSetAllowlist L allowlist s = s\<lparr>gAllowlist := AsciiTrie_Fill L allowlist (gAllowlist s)\<rparr>"

definition TraceSetTimelineEventHandler :: "'h option \<Rightarrow> ('t, 'w, 'h) tracing \<Rightarrow> ('t, 'w, 'h) tracing" where
  "TraceSetTimelineEventHandler handler s = s\<lparr>gTimelineEventHandler := handler\<rparr>"

definition TraceNonce :: "('t, 'w, 'h) tracing \<Rightarrow> u64 \<times> ('t, 'w, 'h) tracing" where
  "TraceNonce s = (let s = s\<lparr>gLastItem := gLastItem s + 1\<rparr> in (gLastItem s, s))"

section \<open>Arguments\<close>

text \<open>The types of the arguments: C strings, strings, points in time and integers.\<close>

datatype trace_value = CString string | StdStr string | Point TimePoint | Integer int

fun TraceToString :: "trace_value \<Rightarrow> string" where
  "TraceToString (CString s) = c_str s"
| "TraceToString (StdStr s) = s"
| "TraceToString (Point p) = dec_int (ToNanoseconds (ToEpochDelta p))"
| "TraceToString (Integer i) = dec_int i"

fun SplitArgumentsCollect :: "string list \<Rightarrow> string list \<Rightarrow> (string \<times> trace_value) list \<Rightarrow> string list \<times> string list" where
  "SplitArgumentsCollect ks vs [] = (ks, vs)"
| "SplitArgumentsCollect ks vs ((k, v) # args) = SplitArgumentsCollect (ks @ [k]) (vs @ [TraceToString v]) args"

definition SplitArguments :: "(string \<times> trace_value) list \<Rightarrow> string list \<times> string list" where
  "SplitArguments args = (if args = [] then ([], []) else SplitArgumentsCollect [] [] args)"

section \<open>Emitting events\<close>

definition TraceTimelineEvent_at ::
  "('t, 'w) trace_lib \<Rightarrow> string \<Rightarrow> string \<Rightarrow> int \<Rightarrow> int \<Rightarrow> Dart_Timeline_Event_Type \<Rightarrow> string list \<Rightarrow> string list \<Rightarrow>
   ('t, 'w, 'h) tracing \<Rightarrow> ('t, 'w, 'h) tracing" where
  "TraceTimelineEvent_at L category_group name timestamp_micros identifier type c_names values s =
     (let argument_count = min (length c_names) (length values);
          c_values = map (\<lambda>i. c_str (values ! i)) [0..<argument_count]
      in FlutterTimelineEvent L
           \<lparr>event_label = name, timestamp0 = timestamp_micros, timestamp1_or_async_id = identifier, event_type = type,
            argument_count = argument_count, argument_names = c_names, argument_values = c_values\<rparr> s)"

definition TraceTimelineEvent ::
  "('t, 'w) trace_lib \<Rightarrow> string \<Rightarrow> string \<Rightarrow> int \<Rightarrow> Dart_Timeline_Event_Type \<Rightarrow> string list \<Rightarrow> string list \<Rightarrow>
   ('t, 'w, 'h) tracing \<Rightarrow> ('t, 'w, 'h) tracing" where
  "TraceTimelineEvent L category_group name identifier type c_names values s =
     (let (now, clock) = Dart_TimelineGetMicros L (micros_clock s)
      in TraceTimelineEvent_at L category_group name now identifier type c_names values (s\<lparr>micros_clock := clock\<rparr>))"

text \<open>A call of \<open>FlutterTimelineEvent\<close> at the current time, with arrays of the same length.\<close>

definition event_now ::
  "('t, 'w) trace_lib \<Rightarrow> string \<Rightarrow> int \<Rightarrow> Dart_Timeline_Event_Type \<Rightarrow> (string \<times> string) list \<Rightarrow>
   ('t, 'w, 'h) tracing \<Rightarrow> ('t, 'w, 'h) tracing" where
  "event_now L name identifier type args s =
     (let (now, clock) = Dart_TimelineGetMicros L (micros_clock s)
      in FlutterTimelineEvent L
           \<lparr>event_label = name, timestamp0 = now, timestamp1_or_async_id = identifier, event_type = type,
            argument_count = length args, argument_names = map fst args, argument_values = map snd args\<rparr>
           (s\<lparr>micros_clock := clock\<rparr>))"

definition TraceEvent0 :: "('t, 'w) trace_lib \<Rightarrow> string \<Rightarrow> string \<Rightarrow> ('t, 'w, 'h) tracing \<Rightarrow> ('t, 'w, 'h) tracing" where
  "TraceEvent0 L category_group name s = event_now L name 0 Dart_Timeline_Event_Begin [] s"

definition TraceEvent1 :: "('t, 'w) trace_lib \<Rightarrow> string \<Rightarrow> string \<Rightarrow> string \<Rightarrow> string \<Rightarrow> ('t, 'w, 'h) tracing \<Rightarrow> ('t, 'w, 'h) tracing" where
  "TraceEvent1 L category_group name arg1_name arg1_val s =
     event_now L name 0 Dart_Timeline_Event_Begin [(arg1_name, arg1_val)] s"

definition TraceEvent2 ::
  "('t, 'w) trace_lib \<Rightarrow> string \<Rightarrow> string \<Rightarrow> string \<Rightarrow> string \<Rightarrow> string \<Rightarrow> string \<Rightarrow> ('t, 'w, 'h) tracing \<Rightarrow> ('t, 'w, 'h) tracing" where
  "TraceEvent2 L category_group name arg1_name arg1_val arg2_name arg2_val s =
     event_now L name 0 Dart_Timeline_Event_Begin [(arg1_name, arg1_val), (arg2_name, arg2_val)] s"

definition TraceEventEnd :: "('t, 'w) trace_lib \<Rightarrow> string \<Rightarrow> ('t, 'w, 'h) tracing \<Rightarrow> ('t, 'w, 'h) tracing" where
  "TraceEventEnd L name s = event_now L name 0 Dart_Timeline_Event_End [] s"

definition TraceEventAsyncBegin0 :: "('t, 'w) trace_lib \<Rightarrow> string \<Rightarrow> string \<Rightarrow> int \<Rightarrow> ('t, 'w, 'h) tracing \<Rightarrow> ('t, 'w, 'h) tracing" where
  "TraceEventAsyncBegin0 L category_group name i s = event_now L name i Dart_Timeline_Event_Async_Begin [] s"

definition TraceEventAsyncEnd0 :: "('t, 'w) trace_lib \<Rightarrow> string \<Rightarrow> string \<Rightarrow> int \<Rightarrow> ('t, 'w, 'h) tracing \<Rightarrow> ('t, 'w, 'h) tracing" where
  "TraceEventAsyncEnd0 L category_group name i s = event_now L name i Dart_Timeline_Event_Async_End [] s"

definition TraceEventAsyncBegin1 ::
  "('t, 'w) trace_lib \<Rightarrow> string \<Rightarrow> string \<Rightarrow> int \<Rightarrow> string \<Rightarrow> string \<Rightarrow> ('t, 'w, 'h) tracing \<Rightarrow> ('t, 'w, 'h) tracing" where
  "TraceEventAsyncBegin1 L category_group name i arg1_name arg1_val s =
     event_now L name i Dart_Timeline_Event_Async_Begin [(arg1_name, arg1_val)] s"

definition TraceEventAsyncEnd1 ::
  "('t, 'w) trace_lib \<Rightarrow> string \<Rightarrow> string \<Rightarrow> int \<Rightarrow> string \<Rightarrow> string \<Rightarrow> ('t, 'w, 'h) tracing \<Rightarrow> ('t, 'w, 'h) tracing" where
  "TraceEventAsyncEnd1 L category_group name i arg1_name arg1_val s =
     event_now L name i Dart_Timeline_Event_Async_End [(arg1_name, arg1_val)] s"

definition TraceEventInstant0 :: "('t, 'w) trace_lib \<Rightarrow> string \<Rightarrow> string \<Rightarrow> ('t, 'w, 'h) tracing \<Rightarrow> ('t, 'w, 'h) tracing" where
  "TraceEventInstant0 L category_group name s = event_now L name 0 Dart_Timeline_Event_Instant [] s"

definition TraceEventInstant1 ::
  "('t, 'w) trace_lib \<Rightarrow> string \<Rightarrow> string \<Rightarrow> string \<Rightarrow> string \<Rightarrow> ('t, 'w, 'h) tracing \<Rightarrow> ('t, 'w, 'h) tracing" where
  "TraceEventInstant1 L category_group name arg1_name arg1_val s =
     event_now L name 0 Dart_Timeline_Event_Instant [(arg1_name, arg1_val)] s"

definition TraceEventInstant2 ::
  "('t, 'w) trace_lib \<Rightarrow> string \<Rightarrow> string \<Rightarrow> string \<Rightarrow> string \<Rightarrow> string \<Rightarrow> string \<Rightarrow> ('t, 'w, 'h) tracing \<Rightarrow> ('t, 'w, 'h) tracing" where
  "TraceEventInstant2 L category_group name arg1_name arg1_val arg2_name arg2_val s =
     event_now L name 0 Dart_Timeline_Event_Instant [(arg1_name, arg1_val), (arg2_name, arg2_val)] s"

definition TraceEventFlowBegin0 :: "('t, 'w) trace_lib \<Rightarrow> string \<Rightarrow> string \<Rightarrow> int \<Rightarrow> ('t, 'w, 'h) tracing \<Rightarrow> ('t, 'w, 'h) tracing" where
  "TraceEventFlowBegin0 L category_group name i s = event_now L name i Dart_Timeline_Event_Flow_Begin [] s"

definition TraceEventFlowStep0 :: "('t, 'w) trace_lib \<Rightarrow> string \<Rightarrow> string \<Rightarrow> int \<Rightarrow> ('t, 'w, 'h) tracing \<Rightarrow> ('t, 'w, 'h) tracing" where
  "TraceEventFlowStep0 L category_group name i s = event_now L name i Dart_Timeline_Event_Flow_Step [] s"

definition TraceEventFlowEnd0 :: "('t, 'w) trace_lib \<Rightarrow> string \<Rightarrow> string \<Rightarrow> int \<Rightarrow> ('t, 'w, 'h) tracing \<Rightarrow> ('t, 'w, 'h) tracing" where
  "TraceEventFlowEnd0 L category_group name i s = event_now L name i Dart_Timeline_Event_Flow_End [] s"

section \<open>Variadic events\<close>

definition TraceCounter :: "('t, 'w) trace_lib \<Rightarrow> string \<Rightarrow> string \<Rightarrow> int \<Rightarrow> (string \<times> trace_value) list \<Rightarrow>
    ('t, 'w, 'h) tracing \<Rightarrow> ('t, 'w, 'h) tracing" where
  "TraceCounter L category name identifier args s =
     (let split = SplitArguments args
      in TraceTimelineEvent L category name identifier Dart_Timeline_Event_Counter (fst split) (snd split) s)"

definition TraceEvent :: "('t, 'w) trace_lib \<Rightarrow> string \<Rightarrow> string \<Rightarrow> (string \<times> trace_value) list \<Rightarrow>
    ('t, 'w, 'h) tracing \<Rightarrow> ('t, 'w, 'h) tracing" where
  "TraceEvent L category name args s =
     (let split = SplitArguments args
      in TraceTimelineEvent L category name 0 Dart_Timeline_Event_Begin (fst split) (snd split) s)"

text \<open>A \<open>size_t\<close> becomes an \<open>int64_t\<close> modulo the word size.\<close>

definition TraceEventAsyncComplete :: "('t, 'w) trace_lib \<Rightarrow> string \<Rightarrow> string \<Rightarrow> TimePoint \<Rightarrow> TimePoint \<Rightarrow>
    (string \<times> trace_value) list \<Rightarrow> ('t, 'w, 'h) tracing \<Rightarrow> ('t, 'w, 'h) tracing" where
  "TraceEventAsyncComplete L category_group name begin_tp end_tp args s =
     (let (identifier, s) = TraceNonce s;
          split = SplitArguments args;
          (begin_tp, end_tp) = (if begin_tp > end_tp then (end_tp, begin_tp) else (begin_tp, end_tp));
          begin_micros = ToMicroseconds (ToEpochDelta begin_tp);
          end_micros = ToMicroseconds (ToEpochDelta end_tp);
          s = TraceTimelineEvent_at L category_group name begin_micros (sint identifier) Dart_Timeline_Event_Async_Begin
                (fst split) (snd split) s
      in TraceTimelineEvent_at L category_group name end_micros (sint identifier) Dart_Timeline_Event_Async_End
           (fst split) (snd split) s)"

section \<open>Scopes\<close>

text \<open>
  The statements of a block that traces: a macro that opens a scope emits a begin event and declares
  a \<open>ScopedInstantEnd\<close>, whose destructor runs when control leaves the block, after those of the
  objects declared later. \<open>RETURN\<close> leaves the function: what follows in its block and in the blocks
  around it is skipped, the destructors are not.
\<close>

datatype trace_stmt =
    TRACE_EVENT0 string string
  | TRACE_EVENT1 string string string string
  | TRACE_EVENT2 string string string string string string
  | FML_TRACE_EVENT string string "(string \<times> trace_value) list"
  | TRACE_EVENT_ASYNC_BEGIN0 string string int
  | TRACE_EVENT_ASYNC_END0 string string int
  | TRACE_EVENT_ASYNC_BEGIN1 string string int string string
  | TRACE_EVENT_ASYNC_END1 string string int string string
  | TRACE_EVENT_INSTANT0 string string
  | TRACE_EVENT_INSTANT1 string string string string
  | TRACE_EVENT_INSTANT2 string string string string string string
  | TRACE_FLOW_BEGIN string string int
  | TRACE_FLOW_STEP string string int
  | TRACE_FLOW_END string string int
  | FML_TRACE_COUNTER string string int "(string \<times> trace_value) list"
  | BLOCK "trace_stmt list"
  | RETURN

text \<open>\<open>ScopedInstantEnd\<close>: the label is kept until the destructor.\<close>

definition ScopedInstantEnd_destroy :: "('t, 'w) trace_lib \<Rightarrow> string \<Rightarrow> ('t, 'w, 'h) tracing \<Rightarrow> ('t, 'w, 'h) tracing" where
  "ScopedInstantEnd_destroy L label s = TraceEventEnd L label s"

fun plain_event :: "('t, 'w) trace_lib \<Rightarrow> trace_stmt \<Rightarrow> ('t, 'w, 'h) tracing \<Rightarrow> ('t, 'w, 'h) tracing" where
  "plain_event L (TRACE_EVENT_ASYNC_BEGIN0 c n i) s = TraceEventAsyncBegin0 L c n i s"
| "plain_event L (TRACE_EVENT_ASYNC_END0 c n i) s = TraceEventAsyncEnd0 L c n i s"
| "plain_event L (TRACE_EVENT_ASYNC_BEGIN1 c n i a v) s = TraceEventAsyncBegin1 L c n i a v s"
| "plain_event L (TRACE_EVENT_ASYNC_END1 c n i a v) s = TraceEventAsyncEnd1 L c n i a v s"
| "plain_event L (TRACE_EVENT_INSTANT0 c n) s = TraceEventInstant0 L c n s"
| "plain_event L (TRACE_EVENT_INSTANT1 c n a v) s = TraceEventInstant1 L c n a v s"
| "plain_event L (TRACE_EVENT_INSTANT2 c n a v b w) s = TraceEventInstant2 L c n a v b w s"
| "plain_event L (TRACE_FLOW_BEGIN c n i) s = TraceEventFlowBegin0 L c n i s"
| "plain_event L (TRACE_FLOW_STEP c n i) s = TraceEventFlowStep0 L c n i s"
| "plain_event L (TRACE_FLOW_END c n i) s = TraceEventFlowEnd0 L c n i s"
| "plain_event L (FML_TRACE_COUNTER c n i args) s = TraceCounter L c n i args s"
| "plain_event L _ s = s"

text \<open>What a scope macro calls first, and the label of the object it declares.\<close>

fun opens :: "('t, 'w) trace_lib \<Rightarrow> trace_stmt \<Rightarrow> (string \<times> (('t, 'w, 'h) tracing \<Rightarrow> ('t, 'w, 'h) tracing)) option" where
  "opens L (TRACE_EVENT0 c n) = Some (n, TraceEvent0 L c n)"
| "opens L (TRACE_EVENT1 c n a v) = Some (n, TraceEvent1 L c n a v)"
| "opens L (TRACE_EVENT2 c n a v b w) = Some (n, TraceEvent2 L c n a v b w)"
| "opens L (FML_TRACE_EVENT c n args) = Some (n, TraceEvent L c n args)"
| "opens L _ = None"

text \<open>The result says whether the function has returned.\<close>

fun run_block :: "('t, 'w) trace_lib \<Rightarrow> trace_stmt list \<Rightarrow> ('t, 'w, 'h) tracing \<Rightarrow> bool \<times> ('t, 'w, 'h) tracing" where
  "run_block L [] s = (False, s)"
| "run_block L (RETURN # rest) s = (True, s)"
| "run_block L (BLOCK b # rest) s =
     (let (returned, s) = run_block L b s in if returned then (True, s) else run_block L rest s)"
| "run_block L (st # rest) s =
     (case opens L st of
        Some (name, enter) \<Rightarrow>
          (let (returned, s) = run_block L rest (enter s) in (returned, ScopedInstantEnd_destroy L name s))
      | None \<Rightarrow> run_block L rest (plain_event L st s))"

section \<open>Flows\<close>

text \<open>A null label is \<open>None\<close>; the id of an event is the nonce as an \<open>int64_t\<close>.\<close>

record TraceFlow =
  label_m :: string
  nonce_m :: u64

definition TraceFlow_new :: "('t, 'w) trace_lib \<Rightarrow> string \<Rightarrow> ('t, 'w, 'h) tracing \<Rightarrow> TraceFlow \<times> ('t, 'w, 'h) tracing" where
  "TraceFlow_new L label s =
     (let (nonce, s) = TraceNonce s;
          this = \<lparr>label_m = label, nonce_m = nonce\<rparr>
      in (this, TraceEventFlowBegin0 L ''flutter'' (label_m this) (sint (nonce_m this)) s))"

definition TraceFlow_move :: "TraceFlow \<Rightarrow> TraceFlow \<times> TraceFlow" where
  "TraceFlow_move other = (\<lparr>label_m = label_m other, nonce_m = nonce_m other\<rparr>, other\<lparr>nonce_m := 0\<rparr>)"

definition TraceFlow_Step :: "('t, 'w) trace_lib \<Rightarrow> string \<Rightarrow> TraceFlow \<Rightarrow> ('t, 'w, 'h) tracing \<Rightarrow> ('t, 'w, 'h) tracing" where
  "TraceFlow_Step L label this s = TraceEventFlowStep0 L ''flutter'' label (sint (nonce_m this)) s"

definition TraceFlow_End ::
  "('t, 'w) trace_lib \<Rightarrow> string option \<Rightarrow> TraceFlow \<Rightarrow> ('t, 'w, 'h) tracing \<Rightarrow> TraceFlow \<times> ('t, 'w, 'h) tracing" where
  "TraceFlow_End L label this s =
     (if nonce_m this \<noteq> 0 then
        (this\<lparr>nonce_m := 0\<rparr>,
         TraceEventFlowEnd0 L ''flutter'' (case label of None \<Rightarrow> label_m this | Some l \<Rightarrow> l) (sint (nonce_m this)) s)
      else (this, s))"

definition TraceFlow_destroy :: "('t, 'w) trace_lib \<Rightarrow> TraceFlow \<Rightarrow> ('t, 'w, 'h) tracing \<Rightarrow> ('t, 'w, 'h) tracing" where
  "TraceFlow_destroy L this s = snd (TraceFlow_End L (Some (label_m this)) this s)"

text \<open>
  A program over flows: the objects it has made, in the order of their construction, \<open>None\<close> once
  destroyed. An operation on an object that does not exist does nothing.
\<close>

datatype flow_op = NewFlow string | MoveFlow nat | StepFlow nat string | EndFlow nat "string option" | DestroyFlow nat

definition flow_at :: "TraceFlow option list \<Rightarrow> nat \<Rightarrow> TraceFlow option" where
  "flow_at fs i = (if i < length fs then fs ! i else None)"

fun flow_step :: "('t, 'w) trace_lib \<Rightarrow> flow_op \<Rightarrow> TraceFlow option list \<times> ('t, 'w, 'h) tracing \<Rightarrow>
    TraceFlow option list \<times> ('t, 'w, 'h) tracing" where
  "flow_step L (NewFlow l) (fs, s) = (let (f, s) = TraceFlow_new L l s in (fs @ [Some f], s))"
| "flow_step L (MoveFlow i) (fs, s) =
     (case flow_at fs i of None \<Rightarrow> (fs, s)
      | Some f \<Rightarrow> (let (g, f) = TraceFlow_move f in (fs[i := Some f] @ [Some g], s)))"
| "flow_step L (StepFlow i l) (fs, s) =
     (case flow_at fs i of None \<Rightarrow> (fs, s) | Some f \<Rightarrow> (fs, TraceFlow_Step L l f s))"
| "flow_step L (EndFlow i l) (fs, s) =
     (case flow_at fs i of None \<Rightarrow> (fs, s)
      | Some f \<Rightarrow> (let (f, s) = TraceFlow_End L l f s in (fs[i := Some f], s)))"
| "flow_step L (DestroyFlow i) (fs, s) =
     (case flow_at fs i of None \<Rightarrow> (fs, s) | Some f \<Rightarrow> (fs[i := None], TraceFlow_destroy L f s))"

section \<open>Scopes nest\<close>

text \<open>Whether an event with a label reaches a handler, and the events that a call adds.\<close>

definition visible :: "('t, 'w) trace_lib \<Rightarrow> ('t, 'w, 'h) tracing \<Rightarrow> string \<Rightarrow> bool" where
  "visible L s name \<longleftrightarrow> gTimelineEventHandler s \<noteq> None \<and> AsciiTrie_Query L (gAllowlist s) name"

definition adds :: "('t, 'w, 'h) tracing \<Rightarrow> timeline_event list \<Rightarrow> ('t, 'w, 'h) tracing \<Rightarrow> bool" where
  "adds s es s' \<longleftrightarrow> gAllowlist s' = gAllowlist s \<and> gTimelineEventHandler s' = gTimelineEventHandler s \<and>
     handled s' = handled s @ map (Pair (the (gTimelineEventHandler s))) es"

lemma adds_trans: "adds s es t \<Longrightarrow> adds t fs u \<Longrightarrow> adds s (es @ fs) u"
  by (simp add: adds_def)

lemma adds_refl: "adds s [] s"
  by (simp add: adds_def)

lemma adds_visible: "adds s es t \<Longrightarrow> visible L t = visible L s"
  by (simp add: adds_def visible_def fun_eq_iff)

lemma FlutterTimelineEvent_adds:
  "adds s (if visible L s (event_label e) then [e] else []) (FlutterTimelineEvent L e (s\<lparr>micros_clock := w\<rparr>))"
  by (simp add: adds_def visible_def FlutterTimelineEvent_def split: option.split)

text \<open>A call that adds the given event if its label is visible.\<close>

definition emits :: "('t, 'w) trace_lib \<Rightarrow> string \<Rightarrow> Dart_Timeline_Event_Type \<Rightarrow> int \<Rightarrow> ('t, 'w, 'h) tracing \<Rightarrow> ('t, 'w, 'h) tracing \<Rightarrow> bool" where
  "emits L name type i s t \<longleftrightarrow> gLastItem t = gLastItem s \<and>
     (\<exists>e. event_label e = name \<and> event_type e = type \<and> timestamp1_or_async_id e = i \<and>
       adds s (if visible L s name then [e] else []) t)"

lemma FlutterTimelineEvent_emits:
  assumes "event_label e = name" "event_type e = type" "timestamp1_or_async_id e = i"
  shows "emits L name type i s (FlutterTimelineEvent L e (s\<lparr>micros_clock := w\<rparr>))"
proof -
  have "gLastItem (FlutterTimelineEvent L e (s\<lparr>micros_clock := w\<rparr>)) = gLastItem s"
    by (simp add: FlutterTimelineEvent_def split: option.split)
  moreover have "adds s (if visible L s name then [e] else []) (FlutterTimelineEvent L e (s\<lparr>micros_clock := w\<rparr>))"
    using FlutterTimelineEvent_adds [of s L e w] assms(1) by simp
  ultimately show ?thesis using assms unfolding emits_def by metis
qed

lemma event_now_emits: "emits L name type i s (event_now L name i type args s)"
  unfolding event_now_def Let_def case_prod_unfold by (rule FlutterTimelineEvent_emits) simp_all

lemma TraceTimelineEvent_emits: "emits L name type i s (TraceTimelineEvent L c name i type ns vs s)"
  unfolding TraceTimelineEvent_def TraceTimelineEvent_at_def Let_def case_prod_unfold
  by (rule FlutterTimelineEvent_emits) simp_all

lemmas trace_event_defs = TraceEvent0_def TraceEvent1_def TraceEvent2_def TraceEvent_def TraceEventEnd_def
  TraceEventAsyncBegin0_def TraceEventAsyncEnd0_def TraceEventAsyncBegin1_def TraceEventAsyncEnd1_def
  TraceEventInstant0_def TraceEventInstant1_def TraceEventInstant2_def TraceCounter_def
  TraceEventFlowBegin0_def TraceEventFlowStep0_def TraceEventFlowEnd0_def

lemma opens_emits: "opens L st = Some (name, enter) \<Longrightarrow> emits L name Dart_Timeline_Event_Begin 0 s (enter s)"
  by (cases st) (auto simp: trace_event_defs Let_def event_now_emits TraceTimelineEvent_emits)

text \<open>Statements that neither open nor close a scope.\<close>

definition unscoped :: "timeline_event \<Rightarrow> bool" where
  "unscoped e \<longleftrightarrow> event_type e \<notin> {Dart_Timeline_Event_Begin, Dart_Timeline_Event_End}"

lemma emits_unscoped:
  assumes "emits L name type i s t" "type \<noteq> Dart_Timeline_Event_Begin" "type \<noteq> Dart_Timeline_Event_End"
  shows "\<exists>es. adds s es t \<and> list_all unscoped es \<and> list_all (\<lambda>e. visible L s (event_label e)) es"
  using assms by (auto simp: emits_def unscoped_def split: if_splits)

lemma plain_event_adds:
  "\<exists>es. adds s es (plain_event L st s) \<and> list_all unscoped es \<and> list_all (\<lambda>e. visible L s (event_label e)) es"
proof -
  have "plain_event L st s = s \<or>
      (\<exists>n ty i. emits L n ty i s (plain_event L st s) \<and> ty \<notin> {Dart_Timeline_Event_Begin, Dart_Timeline_Event_End})"
    by (cases st) (simp_all add: trace_event_defs Let_def, (blast intro: event_now_emits TraceTimelineEvent_emits)+)
  then show ?thesis
  proof
    assume "plain_event L st s = s"
    then show ?thesis using adds_refl by (intro exI [of _ "[]"]) simp
  qed (blast intro: emits_unscoped)
qed

text \<open>The scopes that are open after a sequence of events, or \<open>None\<close> if an end event has no matching begin.\<close>

fun nesting :: "string list \<Rightarrow> timeline_event list \<Rightarrow> string list option" where
  "nesting scopes [] = Some scopes"
| "nesting scopes (e # es) =
     (if event_type e = Dart_Timeline_Event_Begin then nesting (event_label e # scopes) es
      else if event_type e = Dart_Timeline_Event_End then
        (case scopes of [] \<Rightarrow> None | l # rest \<Rightarrow> if l = event_label e then nesting rest es else None)
      else nesting scopes es)"

lemma nesting_append: "nesting scopes (es @ fs) = Option.bind (nesting scopes es) (\<lambda>scopes. nesting scopes fs)"
  by (induction scopes es rule: nesting.induct) (auto split: list.split)

lemma nesting_unscoped: "list_all unscoped es \<Longrightarrow> nesting scopes es = Some scopes"
  by (induction es) (auto simp: unscoped_def)

definition nests :: "('t, 'w) trace_lib \<Rightarrow> ('t, 'w, 'h) tracing \<Rightarrow> ('t, 'w, 'h) tracing \<Rightarrow> bool" where
  "nests L s t \<longleftrightarrow> (\<exists>es. adds s es t \<and> (\<forall>scopes. nesting scopes es = Some scopes) \<and>
     list_all (\<lambda>e. visible L s (event_label e)) es)"

lemma nests_trans:
  assumes "nests L s t" "nests L t u"
  shows "nests L s u"
proof -
  obtain es fs where "adds s es t" "\<And>scopes. nesting scopes es = Some scopes" "list_all (\<lambda>e. visible L s (event_label e)) es"
    "adds t fs u" "\<And>scopes. nesting scopes fs = Some scopes" "list_all (\<lambda>e. visible L t (event_label e)) fs"
    using assms unfolding nests_def by blast
  then show ?thesis
    unfolding nests_def using adds_trans adds_visible
    by (intro exI [of _ "es @ fs"]) (fastforce simp: nesting_append)
qed

lemma nests_scope:
  assumes "emits L name Dart_Timeline_Event_Begin i s t" "nests L t u" "emits L name Dart_Timeline_Event_End j u v"
  shows "nests L s v"
proof -
  obtain es where es: "adds t es u" "\<And>scopes. nesting scopes es = Some scopes" "list_all (\<lambda>e. visible L t (event_label e)) es"
    using assms(2) unfolding nests_def by blast
  obtain b where b: "event_label b = name" "event_type b = Dart_Timeline_Event_Begin" "adds s (if visible L s name then [b] else []) t"
    using assms(1) unfolding emits_def by blast
  obtain e where e: "event_label e = name" "event_type e = Dart_Timeline_Event_End" "adds u (if visible L u name then [e] else []) v"
    using assms(3) unfolding emits_def by blast
  have v: "visible L t = visible L s" "visible L u = visible L s"
    using adds_visible [OF b(3)] adds_visible [OF es(1)] by metis+
  let ?es = "(if visible L s name then [b] else []) @ es @ (if visible L s name then [e] else [])"
  have "adds s ?es v" using adds_trans [OF b(3) adds_trans [OF es(1) e(3)]] by (simp add: v)
  moreover have "nesting scopes ?es = Some scopes" for scopes
    using b(1,2) e(1,2) es(2) by (simp add: nesting_append)
  moreover have "list_all (\<lambda>e. visible L s (event_label e)) ?es" using es(3) b(1) e(1) by (simp add: v)
  ultimately show ?thesis unfolding nests_def by blast
qed

lemma ScopedInstantEnd_emits: "emits L name Dart_Timeline_Event_End 0 s (ScopedInstantEnd_destroy L name s)"
  by (simp add: ScopedInstantEnd_destroy_def trace_event_defs event_now_emits)

lemma plain_event_nests: "nests L s (plain_event L st s)"
  using plain_event_adds [of s L st] nesting_unscoped unfolding nests_def by metis

lemma nests_refl: "nests L s s"
  unfolding nests_def using adds_refl by (intro exI [of _ "[]"]) simp

lemma run_block_nests:
  fixes s :: "('t, 'w, 'h) tracing"
  shows "nests L s (snd (run_block L b s))"
proof -
  have scoped: "nests L s (snd (run_block L (st # rest) s))"
    if "st \<noteq> RETURN" "\<forall>b. st \<noteq> BLOCK b" "\<And>s :: ('t, 'w, 'h) tracing. nests L s (snd (run_block L rest s))"
    for st rest and s :: "('t, 'w, 'h) tracing"
  proof (cases "opens L st :: (string \<times> (('t, 'w, 'h) tracing \<Rightarrow> ('t, 'w, 'h) tracing)) option")
    case None
    then have "run_block L (st # rest) s = run_block L rest (plain_event L st s)" using that(1,2) by (cases st) simp_all
    then show ?thesis using nests_trans [OF plain_event_nests that(3)] by simp
  next
    case (Some no)
    obtain name enter where "no = (name, enter)" by (cases no)
    with Some have o: "opens L st = Some (name, enter)" by simp
    then have "snd (run_block L (st # rest) s) = ScopedInstantEnd_destroy L name (snd (run_block L rest (enter s)))"
      using that(1,2) by (cases st) (simp_all add: case_prod_unfold Let_def)
    then show ?thesis using nests_scope [OF opens_emits [OF o] that(3) ScopedInstantEnd_emits] by simp
  qed
  have "\<forall>s :: ('t, 'w, 'h) tracing. nests L s (snd (run_block L b s))"
  proof (induction "size_list size b" arbitrary: b rule: less_induct)
    case less
    show ?case
    proof (cases b)
      case Nil
      then show ?thesis by (simp add: nests_refl)
    next
      case (Cons st rest)
      have rest: "nests L s (snd (run_block L rest s))" for s :: "('t, 'w, 'h) tracing"
        using less [of rest] Cons by simp
      show ?thesis
      proof (cases "st = RETURN \<or> (\<exists>b'. st = BLOCK b')")
        case True
        have "nests L s (snd (run_block L (BLOCK b' # rest) s))" if "st = BLOCK b'"
          for b' and s :: "('t, 'w, 'h) tracing"
          using nests_trans [OF _ rest] less [of b'] Cons that by (simp add: case_prod_unfold Let_def)
        with True show ?thesis using Cons by (auto simp: nests_refl)
      next
        case False
        then show ?thesis using scoped [of st rest] rest Cons by simp
      qed
    qed
  qed
  then show ?thesis by simp
qed

text \<open>
  C35. Traced scopes nest: whatever block of statements runs, with early returns, nested blocks and
  any allow list, the events it adds close every scope they open, in the reverse order and with the
  same label, and contain no event whose label the allow list refuses.
\<close>
theorem traced_scopes_nest:
  "\<exists>es. map snd (handled (snd (run_block L b s))) = map snd (handled s) @ es \<and> nesting [] es = Some [] \<and>
     list_all (\<lambda>e. visible L s (event_label e)) es"
  using run_block_nests [of L s b] by (auto simp: nests_def adds_def comp_def)

section \<open>Flows begin and end once\<close>

text \<open>The types of the events that a flow has caused, in order.\<close>

definition flow_types :: "u64 \<Rightarrow> ('t, 'w, 'h) tracing \<Rightarrow> Dart_Timeline_Event_Type list" where
  "flow_types nonce s =
     map event_type (filter (\<lambda>e. timestamp1_or_async_id e = sint nonce) (map snd (handled s)))"

fun nonce_of :: "TraceFlow option \<Rightarrow> u64" where
  "nonce_of None = 0"
| "nonce_of (Some f) = nonce_m f"

definition shows_all :: "('t, 'w) trace_lib \<Rightarrow> ('t, 'w, 'h) tracing \<Rightarrow> bool" where
  "shows_all L s \<longleftrightarrow> (\<forall>name. visible L s name)"

text \<open>The life of a flow, by whether its nonce has been drawn and whether an object holds it.\<close>

definition phase :: "bool \<Rightarrow> bool \<Rightarrow> Dart_Timeline_Event_Type list \<Rightarrow> bool" where
  "phase drawn held ts \<longleftrightarrow>
     (if \<not> drawn then ts = []
      else if held then \<exists>k. ts = Dart_Timeline_Event_Flow_Begin # replicate k Dart_Timeline_Event_Flow_Step
      else \<exists>k. ts = Dart_Timeline_Event_Flow_Begin # replicate k Dart_Timeline_Event_Flow_Step @ [Dart_Timeline_Event_Flow_End])"

definition flow_inv :: "('t, 'w) trace_lib \<Rightarrow> nat \<Rightarrow> u64 list \<Rightarrow> ('t, 'w, 'h) tracing \<Rightarrow> bool" where
  "flow_inv L n ns s \<longleftrightarrow> shows_all L s \<and> gLastItem s = of_nat n \<and> distinct (filter (\<lambda>w. w \<noteq> 0) ns) \<and>
     (\<forall>w \<in> set ns. unat w \<le> n) \<and> (\<forall>w. w \<noteq> 0 \<longrightarrow> phase (unat w \<le> n) (w \<in> set ns) (flow_types w s))"

lemma emits_flow_types:
  assumes "emits L name type (sint v) s t" "shows_all L s"
  shows "flow_types w t = (if w = v then flow_types w s @ [type] else flow_types w s)" "shows_all L t" "gLastItem t = gLastItem s"
proof -
  obtain e where e: "event_type e = type" "timestamp1_or_async_id e = sint v" "adds s [e] t"
    using assms by (auto simp: emits_def shows_all_def split: if_splits)
  have "sint v = sint w \<longleftrightarrow> v = w" by (metis signed_word_eqI)
  then show "flow_types w t = (if w = v then flow_types w s @ [type] else flow_types w s)"
    using e by (auto simp: flow_types_def adds_def)
  show "shows_all L t" using assms(2) adds_visible [OF e(3)] by (simp add: shows_all_def)
  show "gLastItem t = gLastItem s" using assms(1) by (simp add: emits_def)
qed

text \<open>Clearing a slot of a list of distinct nonces.\<close>

lemma clear_nonce:
  fixes ns :: "u64 list"
  assumes "i < length ns" "distinct (filter (\<lambda>w. w \<noteq> 0) ns)"
  shows "distinct (filter (\<lambda>w. w \<noteq> 0) (ns[i := 0]))" "w \<noteq> 0 \<Longrightarrow> w \<in> set (ns[i := 0]) \<longleftrightarrow> w \<in> set ns \<and> w \<noteq> ns ! i"
    "ns ! i \<noteq> 0 \<Longrightarrow> ns ! i \<notin> set (ns[i := 0])"
proof -
  define a v b where "a = take i ns" "v = ns ! i" "b = drop (Suc i) ns"
  have n: "ns = a @ v # b" "ns[i := 0] = a @ 0 # b" "ns ! i = v"
    using assms(1) by (simp_all add: a_v_b_def id_take_nth_drop upd_conv_take_nth_drop)
  show "distinct (filter (\<lambda>w. w \<noteq> 0) (ns[i := 0]))" "w \<noteq> 0 \<Longrightarrow> w \<in> set (ns[i := 0]) \<longleftrightarrow> w \<in> set ns \<and> w \<noteq> ns ! i"
    "ns ! i \<noteq> 0 \<Longrightarrow> ns ! i \<notin> set (ns[i := 0])"
    using assms(2) unfolding n(2,3) unfolding n(1) by (auto split: if_splits)
qed

lemma flow_inv_new:
  assumes "flow_inv L n ns s" "Suc n < 2 ^ 64"
    and "emits L name Dart_Timeline_Event_Flow_Begin (sint (of_nat (Suc n) :: u64)) (s\<lparr>gLastItem := of_nat (Suc n)\<rparr>) t"
  shows "flow_inv L (Suc n) (ns @ [of_nat (Suc n)]) t"
proof -
  let ?v = "of_nat (Suc n) :: u64"
  have v: "unat ?v = Suc n" "?v \<noteq> 0"
    using assms(2) by (simp_all add: unsigned_of_nat take_bit_nat_eq_self word_unat_eq_iff del: of_nat_Suc)
  have all: "shows_all L (s\<lparr>gLastItem := ?v\<rparr>)" using assms(1) by (simp add: flow_inv_def shows_all_def visible_def)
  have types: "flow_types w (s\<lparr>gLastItem := ?v\<rparr>) = flow_types w s" for w by (simp add: flow_types_def)
  note t = emits_flow_types [OF assms(3) all, unfolded types]
  have new: "?v \<notin> set ns" using assms(1) v(1) by (auto simp: flow_inv_def)
  have "phase (unat w \<le> Suc n) (w \<in> set (ns @ [?v])) (flow_types w t)" if "w \<noteq> 0" for w
  proof (cases "w = ?v")
    case True
    have "flow_types ?v s = []" using assms(1) v by (auto simp: flow_inv_def phase_def)
    then show ?thesis using True v(1) t(1) by (simp add: phase_def del: of_nat_Suc)
  next
    case False
    then have "unat w \<noteq> Suc n" using v(1) word_unat_eq_iff by metis
    then show ?thesis using assms(1) that False t(1) by (simp add: flow_inv_def le_Suc_eq del: of_nat_Suc)
  qed
  then show ?thesis
    using assms(1) t(2,3) v new by (auto simp: flow_inv_def simp del: of_nat_Suc)
qed

lemma flow_inv_step:
  assumes "flow_inv L n ns s" "i < length ns" "emits L name Dart_Timeline_Event_Flow_Step (sint (ns ! i)) s t"
  shows "flow_inv L n ns t"
proof -
  have "shows_all L s" using assms(1) by (simp add: flow_inv_def)
  note t = emits_flow_types [OF assms(3) this]
  have "phase (unat w \<le> n) (w \<in> set ns) (flow_types w t)" if "w \<noteq> 0" for w
  proof (cases "w = ns ! i")
    case True
    with assms(1,2) that obtain k where "flow_types w s = Dart_Timeline_Event_Flow_Begin # replicate k Dart_Timeline_Event_Flow_Step"
      unfolding flow_inv_def phase_def by (metis nth_mem)
    then have "flow_types w t = Dart_Timeline_Event_Flow_Begin # replicate (Suc k) Dart_Timeline_Event_Flow_Step"
      using t(1) [of w] True by (simp add: replicate_append_same)
    then show ?thesis using True assms(1,2) unfolding flow_inv_def phase_def by (metis nth_mem)
  qed (use assms(1) t(1) that in \<open>simp add: flow_inv_def\<close>)
  then show ?thesis using assms(1) t(2,3) by (simp add: flow_inv_def)
qed

lemma flow_inv_end:
  assumes "flow_inv L n ns s" "i < length ns" "ns ! i \<noteq> 0" "emits L name Dart_Timeline_Event_Flow_End (sint (ns ! i)) s t"
  shows "flow_inv L n (ns[i := 0]) t"
proof -
  have s: "shows_all L s" "distinct (filter (\<lambda>w. w \<noteq> 0) ns)" using assms(1) by (simp_all add: flow_inv_def)
  note t = emits_flow_types [OF assms(4) s(1)] and c = clear_nonce [OF assms(2) s(2)]
  have "phase (unat w \<le> n) (w \<in> set (ns[i := 0])) (flow_types w t)" if "w \<noteq> 0" for w
  proof (cases "w = ns ! i")
    case True
    with assms(1,2) that obtain k where "flow_types w s = Dart_Timeline_Event_Flow_Begin # replicate k Dart_Timeline_Event_Flow_Step"
      unfolding flow_inv_def phase_def by (metis nth_mem)
    moreover have "unat w \<le> n" using assms(1,2) True by (simp add: flow_inv_def)
    ultimately show ?thesis using t(1) [of w] True c(3) assms(3) by (simp add: phase_def)
  qed (use assms(1) t(1) that c(2) in \<open>simp add: flow_inv_def\<close>)
  moreover have "\<forall>w \<in> set (ns[i := 0]). unat w \<le> n"
    using assms(1) set_update_subset_insert [of ns i 0] by (auto simp: flow_inv_def)
  ultimately show ?thesis using assms(1) t(2,3) c(1) by (simp add: flow_inv_def)
qed

lemma flow_inv_move:
  assumes "flow_inv L n ns s" "i < length ns"
  shows "flow_inv L n (ns[i := 0] @ [ns ! i]) s"
proof -
  have s: "distinct (filter (\<lambda>w. w \<noteq> 0) ns)" using assms(1) by (simp add: flow_inv_def)
  note c = clear_nonce [OF assms(2) s]
  have "w \<in> set (ns[i := 0] @ [ns ! i]) \<longleftrightarrow> w \<in> set ns" if "w \<noteq> 0" for w
    using c(2) [OF that] assms(2) by auto
  moreover have "\<forall>w \<in> set (ns[i := 0] @ [ns ! i]). unat w \<le> n"
    using assms set_update_subset_insert [of ns i 0] by (auto simp: flow_inv_def)
  moreover have "distinct (filter (\<lambda>w. w \<noteq> 0) (ns[i := 0] @ [ns ! i]))" using c(1,3) by auto
  ultimately show ?thesis using assms(1) by (simp add: flow_inv_def)
qed

fun is_new :: "flow_op \<Rightarrow> bool" where
  "is_new (NewFlow l) = True"
| "is_new _ = False"

lemma flow_at_nonce: "flow_at fs i = Some f \<Longrightarrow> i < length (map nonce_of fs) \<and> map nonce_of fs ! i = nonce_m f"
  by (simp add: flow_at_def split: if_splits)

lemma flow_end_inv:
  assumes "flow_inv L n (map nonce_of fs) s" "flow_at fs i = Some f"
  shows "flow_inv L n ((map nonce_of fs)[i := 0]) (snd (TraceFlow_End L l f s))"
proof (cases "nonce_m f = 0")
  case True
  then have "(map nonce_of fs)[i := 0] = map nonce_of fs"
    using flow_at_nonce [OF assms(2)] by (metis list_update_id)
  then show ?thesis using assms(1) True by (simp add: TraceFlow_End_def)
next
  case False
  let ?l = "case l of None \<Rightarrow> label_m f | Some l \<Rightarrow> l"
  have "emits L ?l Dart_Timeline_Event_Flow_End (sint (nonce_m f)) s (TraceEventFlowEnd0 L ''flutter'' ?l (sint (nonce_m f)) s)"
    by (simp add: trace_event_defs event_now_emits)
  then show ?thesis
    using flow_inv_end [OF assms(1), of i ?l] flow_at_nonce [OF assms(2)] False by (simp add: TraceFlow_End_def)
qed

lemma flow_step_inv:
  assumes "flow_inv L n (map nonce_of fs) s" "flow_step L op (fs, s) = (fs', s')"
    and "(if is_new op then Suc n else n) < 2 ^ 64"
  shows "flow_inv L (if is_new op then Suc n else n) (map nonce_of fs') s'"
proof (cases op)
  case (NewFlow l)
  let ?v = "of_nat (Suc n) :: u64"
  have last: "gLastItem s + 1 = ?v" using assms(1) by (simp add: flow_inv_def)
  have "emits L l Dart_Timeline_Event_Flow_Begin (sint ?v) (s\<lparr>gLastItem := ?v\<rparr>) s'" "fs' = fs @ [Some \<lparr>label_m = l, nonce_m = ?v\<rparr>]"
    using assms(2) NewFlow
    by (auto simp: TraceFlow_new_def TraceNonce_def last trace_event_defs event_now_emits Let_def simp del: of_nat_Suc)
  then show ?thesis using flow_inv_new [OF assms(1) _, of l s'] assms(3) NewFlow by simp
next
  case (MoveFlow i)
  then show ?thesis
    using assms flow_inv_move [OF assms(1), of i] flow_at_nonce [of fs i]
    by (auto simp: TraceFlow_move_def map_update split: option.splits)
next
  case (StepFlow i l)
  have "emits L l Dart_Timeline_Event_Flow_Step (sint (nonce_m f)) s (TraceFlow_Step L l f s)" for f
    by (simp add: TraceFlow_Step_def trace_event_defs event_now_emits)
  then show ?thesis
    using assms StepFlow flow_inv_step [OF assms(1), of i l] flow_at_nonce [of fs i] by (auto split: option.splits)
next
  case (EndFlow i l)
  have "nonce_m (fst (TraceFlow_End L l f s)) = 0" for f by (simp add: TraceFlow_End_def)
  then show ?thesis
    using assms EndFlow flow_end_inv [OF assms(1), of i _ l] by (auto simp: map_update case_prod_unfold Let_def split: option.splits)
next
  case (DestroyFlow i)
  then show ?thesis
    using assms flow_end_inv [OF assms(1), of i] by (auto simp: TraceFlow_destroy_def map_update split: option.splits)
qed

lemma flow_run_inv:
  assumes "flow_inv L n (map nonce_of fs) s" "n + length (filter is_new ops) < 2 ^ 64"
    and "fold (flow_step L) ops (fs, s) = (fs', s')"
  shows "flow_inv L (n + length (filter is_new ops)) (map nonce_of fs') s'"
  using assms
proof (induction ops arbitrary: n fs s)
  case (Cons op ops)
  obtain gs t where g: "flow_step L op (fs, s) = (gs, t)" by force
  have "flow_inv L (if is_new op then Suc n else n) (map nonce_of gs) t"
    by (rule flow_step_inv [OF Cons.prems(1) g]) (use Cons.prems(2) in \<open>simp split: if_splits\<close>)
  then show ?case using Cons.IH Cons.prems(2,3) g by (fastforce split: if_splits)
qed simp

text \<open>
  C36. Every flow begins once and ends once: a program makes fewer than \<open>2^64\<close> flows, steps, moves,
  ends and destroys them in any order, and every label is shown; when all its objects are destroyed,
  the events of each flow, told apart by its nonce, are one begin, some steps and one end.
\<close>
theorem flows_begin_and_end_once:
  assumes "shows_all L s" "gLastItem s = 0" "handled s = []" "length (filter is_new ops) < 2 ^ 64"
    and "fold (flow_step L) ops ([], s) = (fs, t)" "list_all (\<lambda>f. f = None) fs" "nonce \<noteq> 0"
  shows "if unat nonce \<le> length (filter is_new ops)
    then \<exists>k. flow_types nonce t =
      Dart_Timeline_Event_Flow_Begin # replicate k Dart_Timeline_Event_Flow_Step @ [Dart_Timeline_Event_Flow_End]
    else flow_types nonce t = []"
proof -
  have "flow_inv L 0 (map nonce_of []) s"
    using assms(1-3) by (auto simp: flow_inv_def phase_def flow_types_def word_unat_eq_iff)
  from flow_run_inv [OF this _ assms(5)] assms(4)
  have inv: "flow_inv L (length (filter is_new ops)) (map nonce_of fs) t" by simp
  have "nonce \<notin> set (map nonce_of fs)" using assms(6,7) by (auto simp: list_all_iff)
  then show ?thesis using inv assms(7) by (auto simp: flow_inv_def phase_def)
qed

text \<open>An instance with an allow list of prefixes and a clock that counts its readings.\<close>

definition sample_trace_lib :: "(string list, int) trace_lib" where
  "sample_trace_lib =
     \<lparr>AsciiTrie_Fill = (\<lambda>allowed _. allowed),
      AsciiTrie_Query = (\<lambda>allowed l. allowed = [] \<or> list_ex (\<lambda>p. take (length p) l = p) allowed),
      Dart_TimelineGetMicros = (\<lambda>w. (w, w + 1))\<rparr>"

definition sample_tracing :: "(string list, int, unit) tracing" where
  "sample_tracing = \<lparr>gAllowlist = [], gTimelineEventHandler = Some (), gLastItem = 0, micros_clock = 0, handled = []\<rparr>"

definition sample_flow_ops :: "flow_op list" where
  "sample_flow_ops =
     [NewFlow ''a'', NewFlow ''b'', StepFlow 0 ''s'', MoveFlow 0, StepFlow 2 ''t'', EndFlow 1 None, DestroyFlow 0, DestroyFlow 1,
      DestroyFlow 2]"

theorem flows_begin_and_end_once_witness:
  "\<exists>k. flow_types 1 (snd (fold (flow_step sample_trace_lib) sample_flow_ops ([], sample_tracing))) =
     Dart_Timeline_Event_Flow_Begin # replicate k Dart_Timeline_Event_Flow_Step @ [Dart_Timeline_Event_Flow_End]"
proof -
  obtain fs t where r: "fold (flow_step sample_trace_lib) sample_flow_ops ([], sample_tracing) = (fs, t)" by force
  have "list_all (\<lambda>f. f = None) (fst (fold (flow_step sample_trace_lib) sample_flow_ops ([], sample_tracing)))" by code_simp
  then have "list_all (\<lambda>f. f = None) fs" by (simp add: r)
  moreover have "shows_all sample_trace_lib sample_tracing"
    by (simp add: shows_all_def visible_def sample_trace_lib_def sample_tracing_def)
  ultimately show ?thesis
    using flows_begin_and_end_once [of sample_trace_lib sample_tracing sample_flow_ops fs t 1] r
    by (simp add: sample_tracing_def sample_flow_ops_def)
qed

section \<open>Completed intervals\<close>

lemma SplitArguments_eq: "SplitArguments args = (map fst args, map (TraceToString \<circ> snd) args)"
proof -
  have "SplitArgumentsCollect ks vs args = (ks @ map fst args, vs @ map (TraceToString \<circ> snd) args)" for ks vs
    by (induction ks vs args rule: SplitArgumentsCollect.induct) simp_all
  then show ?thesis by (simp add: SplitArguments_def)
qed

lemma ToMicroseconds_mono: "a \<le> b \<Longrightarrow> ToMicroseconds a \<le> ToMicroseconds b"
proof -
  assume ab: "a \<le> b"
  have "a sdiv 1000 \<le> b sdiv 1000"
  proof (cases "0 \<le> a")
    case False
    show ?thesis
    proof (cases "0 \<le> b")
      case True
      have "0 \<le> (- a) div 1000" "0 \<le> b div 1000" using True False by simp_all
      then show ?thesis using True False by (simp add: sdiv_pos sdiv_neg)
    qed (use False ab in \<open>simp add: sdiv_neg zdiv_mono1\<close>)
  qed (use ab in \<open>simp add: sdiv_pos zdiv_mono1\<close>)
  then show ?thesis by (simp add: ToMicroseconds_def ToNanoseconds_def)
qed

text \<open>
  A completed interval is reported as a begin and an end event that share a fresh identifier, with
  the begin not after the end even if the caller swapped the two points, and with the arguments the
  caller gave.
\<close>
theorem TraceEventAsyncComplete_pair:
  assumes "gTimelineEventHandler s = Some h" "AsciiTrie_Query L (gAllowlist s) name"
  shows "\<exists>b e. handled (TraceEventAsyncComplete L c name p q args s) = handled s @ [(h, b), (h, e)] \<and>
    event_type b = Dart_Timeline_Event_Async_Begin \<and> event_type e = Dart_Timeline_Event_Async_End \<and>
    timestamp1_or_async_id b = sint (gLastItem s + 1) \<and> timestamp1_or_async_id e = sint (gLastItem s + 1) \<and>
    timestamp0 b = ToMicroseconds (min p q) \<and> timestamp0 e = ToMicroseconds (max p q) \<and> timestamp0 b \<le> timestamp0 e \<and>
    zip (argument_names b) (argument_values b) = map (\<lambda>(k, v). (k, c_str (TraceToString v))) args \<and>
    argument_names e = argument_names b \<and> argument_values e = argument_values b"
proof -
  have vals: "map (\<lambda>i. c_str (map (TraceToString \<circ> snd) args ! i)) [0..<length args] = map (c_str \<circ> TraceToString \<circ> snd) args"
    by (rule nth_equalityI) simp_all
  have zipped: "zip (map fst args) (map (c_str \<circ> TraceToString \<circ> snd) args) = map (\<lambda>(k, v). (k, c_str (TraceToString v))) args"
    by (induction args) auto
  have mono: "ToMicroseconds (min p q) \<le> ToMicroseconds (max p q)" by (rule ToMicroseconds_mono) simp
  show ?thesis
    using assms mono zipped [folded vals]
    by (auto simp: TraceEventAsyncComplete_def TraceNonce_def TraceTimelineEvent_at_def FlutterTimelineEvent_def SplitArguments_eq
        ToEpochDelta_def FromNanoseconds_def Let_def comp_def min_def max_def)
qed

end
