(* ===== verification/Reflect.thy ===== *)
theory Reflect
  imports Header_Map
begin

text \<open>
  The reflection library \<^verbatim>\<open>src/reflect\<close>: the textual descriptors of types, methods and fields
  (\<^verbatim>\<open>TypeDescriptor.h\<close>, \<^verbatim>\<open>MethodDescriptor.cpp\<close>, \<^verbatim>\<open>FieldDescriptor.cpp\<close>), and the registry of classes
  with their methods, fields and instances (\<^verbatim>\<open>Class.h\<close>, \<^verbatim>\<open>Class.cpp\<close>, \<^verbatim>\<open>Method.h\<close>). The registry is the
  library's static data; a \<open>std::map\<close> keyed by strings is a sorted list of pairs.
\<close>

section \<open>Descriptors\<close>

text \<open>
  The types the library can name, and other types by some spelling of them. \<open>TypeDescriptor\<close> is
  specialised for the named types and for pointers and references to them.
\<close>

datatype base_type =
    TVoid | TInt | TInt64 | TChar | TInt8 | TShort | TFloat | TDouble | TBool | StdString | OtherType string

datatype cpp_type = Plain base_type | Ptr base_type | ConstPtr base_type | Ref base_type | ConstRef base_type

fun base_name :: "base_type \<Rightarrow> string option" where
  "base_name TVoid = Some ''void''"
| "base_name TInt = Some ''int''"
| "base_name TInt64 = Some ''int64_t''"
| "base_name TChar = Some ''char''"
| "base_name TInt8 = Some ''int8_t''"
| "base_name TShort = Some ''short''"
| "base_name TFloat = Some ''float''"
| "base_name TDouble = Some ''double''"
| "base_name TBool = Some ''bool''"
| "base_name StdString = Some ''std::string''"
| "base_name (OtherType _) = None"

definition unknown_type :: string where
  "unknown_type = ''<unknown>''"

fun TypeDescriptor :: "cpp_type \<Rightarrow> string" where
  "TypeDescriptor (Plain b) = (case base_name b of Some n \<Rightarrow> n | None \<Rightarrow> unknown_type)"
| "TypeDescriptor (Ptr b) = (case base_name b of Some n \<Rightarrow> n @ ''*'' | None \<Rightarrow> unknown_type)"
| "TypeDescriptor (ConstPtr b) = (case base_name b of Some n \<Rightarrow> ''const '' @ n @ ''*'' | None \<Rightarrow> unknown_type)"
| "TypeDescriptor (Ref b) =
     (case base_name b of Some n \<Rightarrow> (if b = TVoid then unknown_type else n @ ''&'') | None \<Rightarrow> unknown_type)"
| "TypeDescriptor (ConstRef b) =
     (case base_name b of Some n \<Rightarrow> (if b = TVoid then unknown_type else ''const '' @ n @ ''&'') | None \<Rightarrow> unknown_type)"

text \<open>The descriptor of a template's arguments.\<close>

definition concat_types :: "string list \<Rightarrow> string" where
  "concat_types strings = foldl (\<lambda>result str. result @ str @ '' '') ''<'' strings"

fun parameter_list :: "string list \<Rightarrow> string" where
  "parameter_list [] = ''''"
| "parameter_list [p] = p @ '')''"
| "parameter_list (p # q # ps) = p @ '','' @ parameter_list (q # ps)"

definition methodDescriptor :: "string \<Rightarrow> string \<Rightarrow> string list \<Rightarrow> string" where
  "methodDescriptor classDescriptor name parameterTypeDescriptors =
     (if classDescriptor \<noteq> [] then classDescriptor @ ''::'' else '''') @ name @ ''('' @
     parameter_list parameterTypeDescriptors"

definition fieldDescriptor :: "string \<Rightarrow> string \<Rightarrow> string" where
  "fieldDescriptor classDescriptor name =
     (if classDescriptor \<noteq> [] then classDescriptor @ ''::'' else '''') @ name"

section \<open>The registry\<close>

text \<open>\<open>std::less\<close> on strings compares the characters as unsigned.\<close>

definition string_less :: "string \<Rightarrow> string \<Rightarrow> bool" where
  "string_less = lexicographical_compare (\<lambda>a b. (of_char a :: nat) < of_char b)"

text \<open>A null \<open>shared_ptr\<close> is \<open>None\<close>.\<close>

record ('m, 'f) ClassSharedData =
  m_typeid :: int
  m_methods :: "(string \<times> 'm option) list"
  m_fields :: "(string \<times> 'f option) list"
  m_instances :: "nat set"

record ('m, 'f) registry =
  nextTypeid :: int
  class_map :: "string \<Rightarrow> ('m, 'f) ClassSharedData option"
  class_instances :: "nat \<Rightarrow> cpp_type option"

definition registry_init :: "('m, 'f) registry" where
  "registry_init = \<lparr>nextTypeid = 1, class_map = (\<lambda>_. None), class_instances = (\<lambda>_. None)\<rparr>"

definition ClassSharedData_new :: "('m, 'f) registry \<Rightarrow> ('m, 'f) ClassSharedData \<times> ('m, 'f) registry" where
  "ClassSharedData_new r =
     (\<lparr>m_typeid = nextTypeid r, m_methods = [], m_fields = [], m_instances = {}\<rparr>, r\<lparr>nextTypeid := nextTypeid r + 1\<rparr>)"

definition classSharedData :: "string \<Rightarrow> ('m, 'f) registry \<Rightarrow> ('m, 'f) ClassSharedData \<times> ('m, 'f) registry" where
  "classSharedData key r =
     (case class_map r key of
        Some d \<Rightarrow> (d, r)
      | None \<Rightarrow> (let (d, r) = ClassSharedData_new r in (d, r\<lparr>class_map := (class_map r)(key \<mapsto> d)\<rparr>)))"

text \<open>\<open>Class<T>\<close> shares its data with the class of the type without references and qualifiers.\<close>

fun basetype :: "cpp_type \<Rightarrow> cpp_type" where
  "basetype (Ref b) = Plain b"
| "basetype (ConstRef b) = Plain b"
| "basetype t = t"

definition class_key :: "cpp_type \<Rightarrow> string" where
  "class_key t = TypeDescriptor (basetype t)"

definition Class_getName :: "cpp_type \<Rightarrow> string" where
  "Class_getName t = TypeDescriptor t"

definition update_class ::
  "cpp_type \<Rightarrow> (('m, 'f) ClassSharedData \<Rightarrow> ('m, 'f) ClassSharedData) \<Rightarrow> ('m, 'f) registry \<Rightarrow> ('m, 'f) registry" where
  "update_class t f r =
     (let (d, r) = classSharedData (class_key t) r in r\<lparr>class_map := (class_map r)(class_key t \<mapsto> f d)\<rparr>)"

definition getTypeid :: "cpp_type \<Rightarrow> ('m, 'f) registry \<Rightarrow> int \<times> ('m, 'f) registry" where
  "getTypeid t r = (let (d, r) = classSharedData (class_key t) r in (m_typeid d, r))"

definition setDeclaredMethod :: "cpp_type \<Rightarrow> string \<Rightarrow> cpp_type list \<Rightarrow> 'm \<Rightarrow> ('m, 'f) registry \<Rightarrow> ('m, 'f) registry" where
  "setDeclaredMethod t methodName ps m r =
     (let descriptor = methodDescriptor (Class_getName t) methodName (map TypeDescriptor ps)
      in update_class t (\<lambda>d. d\<lparr>m_methods := insert_or_assign string_less descriptor (Some m) (m_methods d)\<rparr>) r)"

definition setDeclaredField :: "cpp_type \<Rightarrow> string \<Rightarrow> 'f \<Rightarrow> ('m, 'f) registry \<Rightarrow> ('m, 'f) registry" where
  "setDeclaredField t fieldName f r =
     (let descriptor = fieldDescriptor (Class_getName t) fieldName
      in update_class t (\<lambda>d. d\<lparr>m_fields := insert_or_assign string_less descriptor (Some f) (m_fields d)\<rparr>) r)"

text \<open>\<open>operator[]\<close> of a map adds a null entry for a key that is absent.\<close>

definition map_index :: "string \<Rightarrow> (string \<times> 'a option) list \<Rightarrow> 'a option \<times> (string \<times> 'a option) list" where
  "map_index k m =
     (case map_find string_less k m of
        Some v \<Rightarrow> (v, m)
      | None \<Rightarrow> (None, insert_or_assign string_less k None m))"

definition getDeclaredMethodFromDescription ::
  "cpp_type \<Rightarrow> string \<Rightarrow> ('m, 'f) registry \<Rightarrow> 'm option \<times> ('m, 'f) registry" where
  "getDeclaredMethodFromDescription t descriptor r =
     (let (d, r) = classSharedData (class_key t) r;
          (m, ms) = map_index descriptor (m_methods d)
      in (m, r\<lparr>class_map := (class_map r)(class_key t \<mapsto> d\<lparr>m_methods := ms\<rparr>)\<rparr>))"

definition getDeclaredFieldFromDescription ::
  "cpp_type \<Rightarrow> string \<Rightarrow> ('m, 'f) registry \<Rightarrow> 'f option \<times> ('m, 'f) registry" where
  "getDeclaredFieldFromDescription t descriptor r =
     (let (d, r) = classSharedData (class_key t) r;
          (f, fs) = map_index descriptor (m_fields d)
      in (f, r\<lparr>class_map := (class_map r)(class_key t \<mapsto> d\<lparr>m_fields := fs\<rparr>)\<rparr>))"

definition getDeclaredMethod :: "cpp_type \<Rightarrow> string \<Rightarrow> cpp_type list \<Rightarrow> ('m, 'f) registry \<Rightarrow> 'm option \<times> ('m, 'f) registry" where
  "getDeclaredMethod t methodName ps r =
     getDeclaredMethodFromDescription t (methodDescriptor (Class_getName t) methodName (map Class_getName ps)) r"

definition getDeclaredField :: "cpp_type \<Rightarrow> string \<Rightarrow> ('m, 'f) registry \<Rightarrow> 'f option \<times> ('m, 'f) registry" where
  "getDeclaredField t fieldName r = getDeclaredFieldFromDescription t (fieldDescriptor (Class_getName t) fieldName) r"

definition getDeclaredMethods :: "cpp_type \<Rightarrow> ('m, 'f) registry \<Rightarrow> 'm option list" where
  "getDeclaredMethods t r = map snd (m_methods (fst (classSharedData (class_key t) r)))"

definition getDeclaredFields :: "cpp_type \<Rightarrow> ('m, 'f) registry \<Rightarrow> 'f option list" where
  "getDeclaredFields t r = map snd (m_fields (fst (classSharedData (class_key t) r)))"

section \<open>Instances\<close>

text \<open>\<open>instance\<close> is the address of the object that \<open>new\<close> returned.\<close>

definition trackInstance :: "cpp_type \<Rightarrow> nat \<Rightarrow> ('m, 'f) registry \<Rightarrow> ('m, 'f) registry" where
  "trackInstance t obj r = r\<lparr>class_instances := (class_instances r)(obj \<mapsto> t)\<rparr>"

definition forgetInstance :: "nat \<Rightarrow> ('m, 'f) registry \<Rightarrow> ('m, 'f) registry" where
  "forgetInstance obj r = r\<lparr>class_instances := (class_instances r)(obj := None)\<rparr>"

definition newInstance :: "cpp_type \<Rightarrow> nat \<Rightarrow> ('m, 'f) registry \<Rightarrow> ('m, 'f) registry" where
  "newInstance t obj r =
     update_class t (\<lambda>d. d\<lparr>m_instances := insert obj (m_instances d)\<rparr>) (trackInstance t obj r)"

definition deleteInstance :: "cpp_type \<Rightarrow> nat \<Rightarrow> ('m, 'f) registry \<Rightarrow> ('m, 'f) registry" where
  "deleteInstance t obj r =
     update_class t (\<lambda>d. d\<lparr>m_instances := m_instances d - {obj}\<rparr>) (forgetInstance obj r)"

definition isInstance :: "cpp_type \<Rightarrow> nat \<Rightarrow> ('m, 'f) registry \<Rightarrow> bool" where
  "isInstance t obj r \<longleftrightarrow> obj \<in> m_instances (fst (classSharedData (class_key t) r))"

definition getClass :: "nat \<Rightarrow> ('m, 'f) registry \<Rightarrow> cpp_type option" where
  "getClass obj r = (if obj = 0 \<or> class_instances r obj = None then None else class_instances r obj)"

definition isAssignableFrom :: "cpp_type \<Rightarrow> cpp_type \<Rightarrow> ('m, 'f) registry \<Rightarrow> bool \<times> ('m, 'f) registry" where
  "isAssignableFrom t other r =
     (let (i, r) = getTypeid t r; (j, r) = getTypeid other r in (i = j, r))"

section \<open>Methods\<close>

text \<open>
  A deduced method is a function or a member function with the types of its parameters; an argument
  array has at least as many values as the caller passed, and a void result is a value too.
\<close>

datatype ('o, 'v) Method =
    FunctionMethod "cpp_type list" "'v list \<Rightarrow> 'v"
  | MemberMethod "cpp_type list" "'o \<Rightarrow> 'v list \<Rightarrow> 'v \<times> 'o"

fun method_types :: "('o, 'v) Method \<Rightarrow> cpp_type list" where
  "method_types (FunctionMethod ps f) = ps"
| "method_types (MemberMethod ps f) = ps"

definition getParameterTypes :: "('o, 'v) Method \<Rightarrow> cpp_type list" where
  "getParameterTypes m =
     (if length (method_types m) = 0 then []
      else (let classes = method_types m in replicate (length classes) (hd classes)))"

fun invoke_function :: "('o, 'v) Method \<Rightarrow> 'v list \<Rightarrow> ('v option, unit) outcome" where
  "invoke_function (FunctionMethod ps f) values =
     (if length values < length ps then Fault OutOfBounds else Ret (Some (f (take (length ps) values))) ())"
| "invoke_function (MemberMethod ps f) values = Ret None ()"

fun invoke_member :: "('o, 'v) Method \<Rightarrow> 'o \<Rightarrow> 'v list \<Rightarrow> ('v option, 'o) outcome" where
  "invoke_member (FunctionMethod ps f) receiver values = Ret None receiver"
| "invoke_member (MemberMethod ps f) receiver values =
     (if length values < length ps then Fault OutOfBounds
      else (let (v, receiver) = f receiver (take (length ps) values) in Ret (Some v) receiver))"

section \<open>Descriptors identify declarations\<close>

lemma string_less_key: "string_less a b \<longleftrightarrow> lexicographical_compare (<) (map of_char a :: nat list) (map of_char b)"
  unfolding string_less_def by (rule lexicographical_compare_key)

interpretation names: strict_weak_order string_less
  by (rule lexicographical_key_order [OF string_less_key])

lemma names_equivalent: "names.equivalent a b \<longleftrightarrow> a = b"
proof -
  have "inj (of_char :: char \<Rightarrow> nat)" by (simp add: inj_def)
  then show ?thesis
    using lexicographical_key_equal [of string_less "map of_char" a b, OF string_less_key] by (simp add: names.equivalent_def inj_map_eq_map)
qed

lemma find_insert_name:
  "sorted_keys string_less m \<Longrightarrow>
   map_find string_less j (insert_or_assign string_less k v m) = (if j = k then Some v else map_find string_less j m)"
  using names.find_insert [of m j k v] by (simp add: names_equivalent)

text \<open>Two texts that agree agree in the part before the first separator.\<close>

lemma separated:
  "list_all (\<lambda>c. \<not> P c) a \<Longrightarrow> list_all (\<lambda>c. \<not> P c) b \<Longrightarrow> P x \<Longrightarrow> P y \<Longrightarrow> a @ x # s = b @ y # t \<Longrightarrow> a = b \<and> x = y \<and> s = t"
proof (induction a arbitrary: b)
  case Nil
  then show ?case by (cases b) auto
next
  case (Cons c a)
  then show ?case by (cases b) auto
qed

definition closes :: "char \<Rightarrow> bool" where
  "closes c \<longleftrightarrow> c = CHR '','' \<or> c = CHR '')''"

lemma parameter_list_inj:
  "list_all (list_all (\<lambda>c. \<not> closes c)) ps \<Longrightarrow> list_all (list_all (\<lambda>c. \<not> closes c)) qs \<Longrightarrow>
   parameter_list ps = parameter_list qs \<Longrightarrow> ps = qs"
proof (induction ps arbitrary: qs rule: parameter_list.induct)
  case 1
  then show ?case by (cases qs rule: parameter_list.cases) auto
next
  case (2 p)
  then show ?case
    using separated [of closes p _ "CHR '')''" _ "[]"] by (cases qs rule: parameter_list.cases) (auto simp: closes_def)
next
  case (3 p p' ps)
  show ?case
  proof (cases qs rule: parameter_list.cases)
    case 1
    with "3.prems" show ?thesis by simp
  next
    case (2 q)
    then show ?thesis
      using separated [of closes p q "CHR '',''" "CHR '')''" "parameter_list (p' # ps)" "[]"] "3.prems" by (simp add: closes_def)
  next
    case (3 q q' qs')
    then show ?thesis
      using separated [of closes p q "CHR '',''" "CHR '',''" "parameter_list (p' # ps)" "parameter_list (q' # qs')"]
        "3.prems" "3.IH" [of "q' # qs'"] by (simp add: closes_def)
  qed
qed

lemma TypeDescriptor_plain: "list_all (\<lambda>c. \<not> closes c) (TypeDescriptor t)"
proof -
  have "list_all (\<lambda>c. \<not> closes c) n" if "base_name b = Some n" for b n
    using that by (cases b) (auto simp: closes_def)
  moreover have "list_all (\<lambda>c. \<not> closes c) unknown_type" by (simp add: unknown_type_def closes_def)
  moreover have "\<not> closes CHR ''*''" "\<not> closes CHR ''&''" "list_all (\<lambda>c. \<not> closes c) ''const ''" by (simp_all add: closes_def)
  ultimately show ?thesis by (cases t) (auto split: option.split)
qed

lemma methodDescriptor_inj:
  assumes "CHR ''('' \<notin> set n" "CHR ''('' \<notin> set n'"
  shows "methodDescriptor c n (map TypeDescriptor ps) = methodDescriptor c n' (map TypeDescriptor ps') \<longleftrightarrow>
    n = n' \<and> map TypeDescriptor ps = map TypeDescriptor ps'"
proof -
  have "list_all (list_all (\<lambda>c. \<not> closes c)) (map TypeDescriptor qs)" for qs
    by (simp add: list_all_iff TypeDescriptor_plain [unfolded list_all_iff])
  then have p: "parameter_list (map TypeDescriptor ps) = parameter_list (map TypeDescriptor ps') \<Longrightarrow>
      map TypeDescriptor ps = map TypeDescriptor ps'"
    by (blast intro: parameter_list_inj)
  have "n = n' \<and> parameter_list (map TypeDescriptor ps) = parameter_list (map TypeDescriptor ps')"
    if "n @ CHR ''('' # parameter_list (map TypeDescriptor ps) = n' @ CHR ''('' # parameter_list (map TypeDescriptor ps')"
    using separated [of "\<lambda>c. c = CHR ''(''" n n' _ _ "parameter_list (map TypeDescriptor ps)"] that assms
    by (auto simp: list_all_iff)
  with p show ?thesis by (auto simp: methodDescriptor_def)
qed

section \<open>Well-formed registries\<close>

text \<open>
  Type identifiers are unique and below the next one, the tables of methods and fields are sorted
  maps, and the two tables of instances agree.
\<close>

definition registry_wf :: "('m, 'f) registry \<Rightarrow> bool" where
  "registry_wf r \<longleftrightarrow>
     (\<forall>k d. class_map r k = Some d \<longrightarrow> m_typeid d < nextTypeid r \<and>
        sorted_keys string_less (m_methods d) \<and> sorted_keys string_less (m_fields d)) \<and>
     (\<forall>k k' d d'. class_map r k = Some d \<and> class_map r k' = Some d' \<and> m_typeid d = m_typeid d' \<longrightarrow> k = k') \<and>
     (\<forall>k obj. (\<exists>d. class_map r k = Some d \<and> obj \<in> m_instances d) \<longleftrightarrow> (\<exists>t. class_instances r obj = Some t \<and> class_key t = k))"

lemma registry_wfD:
  assumes "registry_wf r"
  shows "class_map r k = Some d \<Longrightarrow> m_typeid d < nextTypeid r"
    "class_map r k = Some d \<Longrightarrow> sorted_keys string_less (m_methods d)"
    "class_map r k = Some d \<Longrightarrow> sorted_keys string_less (m_fields d)"
    "class_map r k = Some d \<Longrightarrow> class_map r k' = Some d' \<Longrightarrow> m_typeid d = m_typeid d' \<Longrightarrow> k = k'"
    "(\<exists>d. class_map r k = Some d \<and> obj \<in> m_instances d) \<longleftrightarrow> (\<exists>t. class_instances r obj = Some t \<and> class_key t = k)"
  using assms unfolding registry_wf_def by blast+

lemma registry_wf_init: "registry_wf registry_init"
  by (simp add: registry_wf_def registry_init_def)

lemma classSharedData_wf:
  assumes "registry_wf r" "classSharedData k r = (d, s)"
  shows "registry_wf s" "class_map s k = Some d" "class_instances s = class_instances r"
    "\<And>k'. k' \<noteq> k \<Longrightarrow> class_map s k' = class_map r k'" "class_map r k = None \<Longrightarrow> m_instances d = {} \<and> m_methods d = [] \<and> m_fields d = []"
    "class_map r k \<noteq> None \<Longrightarrow> s = r"
proof -
  have fresh: "m_typeid d < nextTypeid r" if "class_map r k = Some d" for k d
    using registry_wfD(1) [OF assms(1) that] .
  show "registry_wf s"
  proof (cases "class_map r k")
    case None
    have no: "\<nexists>t. class_instances r obj = Some t \<and> class_key t = k" for obj
      using registry_wfD(5) [OF assms(1), of k obj] None by simp
    from None assms(2) have s: "s = r\<lparr>nextTypeid := nextTypeid r + 1, class_map := (class_map r)(k \<mapsto> d)\<rparr>"
      "d = \<lparr>m_typeid = nextTypeid r, m_methods = [], m_fields = [], m_instances = {}\<rparr>"
      by (auto simp: classSharedData_def ClassSharedData_new_def)
    show ?thesis
      unfolding registry_wf_def s
      using assms(1) no fresh by (auto simp: registry_wf_def split: if_splits) (fastforce+)
  qed (use assms in \<open>simp add: classSharedData_def\<close>)
qed (use assms(2) in \<open>auto simp: classSharedData_def ClassSharedData_new_def split: option.splits\<close>)

lemma put_class_wf:
  assumes "registry_wf s" "class_map s k = Some d" "m_typeid d' = m_typeid d" "m_instances d' = m_instances d"
    and "sorted_keys string_less (m_methods d')" "sorted_keys string_less (m_fields d')"
  shows "registry_wf (s\<lparr>class_map := (class_map s)(k \<mapsto> d')\<rparr>)"
proof -
  have "(\<exists>d. (if a = k then Some d' else class_map s a) = Some d \<and> obj \<in> m_instances d) \<longleftrightarrow>
      (\<exists>t. class_instances s obj = Some t \<and> class_key t = a)" for a obj
    using registry_wfD(5) [OF assms(1), of a obj] assms(2,4) by auto
  then show ?thesis
    using assms registry_wfD(1-4) [OF assms(1)] unfolding registry_wf_def by (auto split: if_splits)
qed

lemma classSharedData_instances:
  "classSharedData k (r\<lparr>class_instances := ci\<rparr>) = apsnd (\<lambda>s. s\<lparr>class_instances := ci\<rparr>) (classSharedData k r)"
  by (simp add: classSharedData_def ClassSharedData_new_def split: option.split)

lemma put_instance_wf:
  assumes "registry_wf s" "class_map s (class_key t) = Some d"
    and "\<And>t'. class_instances s obj = Some t' \<Longrightarrow> class_key t' = class_key t"
    and "ci obj = (if b then Some t else None)" "\<And>x. x \<noteq> obj \<Longrightarrow> ci x = class_instances s x"
  shows "registry_wf (s\<lparr>class_instances := ci, class_map := (class_map s)(class_key t \<mapsto>
      d\<lparr>m_instances := (if b then insert obj (m_instances d) else m_instances d - {obj})\<rparr>)\<rparr>)"
proof -
  let ?d = "d\<lparr>m_instances := (if b then insert obj (m_instances d) else m_instances d - {obj})\<rparr>"
  have "(\<exists>e. (if a = class_key t then Some ?d else class_map s a) = Some e \<and> x \<in> m_instances e) \<longleftrightarrow>
      (\<exists>t. ci x = Some t \<and> class_key t = a)" for a x
  proof (cases "x = obj")
    case True
    have "obj \<notin> m_instances e" if "a \<noteq> class_key t" "class_map s a = Some e" for e
      using registry_wfD(5) [OF assms(1), of a obj] assms(3) that by auto
    with True show ?thesis using assms(4) by auto
  next
    case False
    then show ?thesis using registry_wfD(5) [OF assms(1), of a x] assms(2,5) by auto
  qed
  then show ?thesis
    using assms(2) registry_wfD(1-4) [OF assms(1)] unfolding registry_wf_def by (auto split: if_splits)
qed

lemma update_class_wf:
  assumes "registry_wf r" "\<And>d. m_typeid (f d) = m_typeid d" "\<And>d. m_instances (f d) = m_instances d"
    and "\<And>d. sorted_keys string_less (m_methods d) \<Longrightarrow> sorted_keys string_less (m_methods (f d))"
    and "\<And>d. sorted_keys string_less (m_fields d) \<Longrightarrow> sorted_keys string_less (m_fields (f d))"
  shows "registry_wf (update_class t f r)"
proof -
  obtain d s where c: "classSharedData (class_key t) r = (d, s)" by force
  note s = classSharedData_wf [OF assms(1) c]
  show ?thesis
    unfolding update_class_def c Let_def prod.case
    by (rule put_class_wf [OF s(1,2)]) (use assms registry_wfD(2,3) [OF s(1,2)] in simp_all)
qed

lemma map_index_sorted: "sorted_keys string_less m \<Longrightarrow> sorted_keys string_less (snd (map_index k m))"
  by (simp add: map_index_def names.sorted_insert split: option.split)

lemma lookup_updates:
  "snd (getDeclaredMethodFromDescription t k r) = update_class t (\<lambda>d. d\<lparr>m_methods := snd (map_index k (m_methods d))\<rparr>) r"
  "snd (getDeclaredFieldFromDescription t k r) = update_class t (\<lambda>d. d\<lparr>m_fields := snd (map_index k (m_fields d))\<rparr>) r"
  by (simp_all add: getDeclaredMethodFromDescription_def getDeclaredFieldFromDescription_def update_class_def
      case_prod_unfold Let_def)

lemma declarations_wf:
  assumes "registry_wf r"
  shows "registry_wf (setDeclaredMethod t n ps m r)" "registry_wf (setDeclaredField t n f r)"
    "registry_wf (snd (getDeclaredMethod t n ps r))" "registry_wf (snd (getDeclaredField t n r))"
  unfolding setDeclaredMethod_def setDeclaredField_def getDeclaredMethod_def getDeclaredField_def lookup_updates Let_def
  by (rule update_class_wf [OF assms]; simp add: names.sorted_insert map_index_sorted)+

lemma newInstance_wf:
  assumes "registry_wf r" "class_instances r obj = None"
  shows "registry_wf (newInstance t obj r)"
proof -
  obtain d s where c: "classSharedData (class_key t) r = (d, s)" by force
  note s = classSharedData_wf [OF assms(1) c]
  show ?thesis
    using put_instance_wf [OF s(1,2), of obj "(class_instances s)(obj \<mapsto> t)" True] assms(2) s(3)
    by (simp add: newInstance_def trackInstance_def update_class_def classSharedData_instances c)
qed

lemma deleteInstance_wf:
  assumes "registry_wf r" "isInstance t obj r"
  shows "registry_wf (deleteInstance t obj r)"
proof -
  obtain d s where c: "classSharedData (class_key t) r = (d, s)" by force
  note s = classSharedData_wf [OF assms(1) c]
  have "class_key t' = class_key t" if "class_instances s obj = Some t'" for t'
    using registry_wfD(5) [OF s(1), of "class_key t" obj] s(2) assms(2) that by (auto simp: isInstance_def c)
  then show ?thesis
    using put_instance_wf [OF s(1,2), of obj "(class_instances s)(obj := None)" False] s(3)
    by (simp add: deleteInstance_def forgetInstance_def update_class_def classSharedData_instances c)
qed

text \<open>
  The registries that a program can produce: every operation, with an object's address not tracked
  when \<open>new\<close> returns it, and deletion by the class that made the object.
\<close>

inductive reachable :: "('m, 'f) registry \<Rightarrow> bool" where
  init: "reachable registry_init"
| touch: "reachable r \<Longrightarrow> reachable (snd (classSharedData (class_key t) r))"
| set_method: "reachable r \<Longrightarrow> reachable (setDeclaredMethod t n ps m r)"
| set_field: "reachable r \<Longrightarrow> reachable (setDeclaredField t n f r)"
| get_method: "reachable r \<Longrightarrow> reachable (snd (getDeclaredMethod t n ps r))"
| get_field: "reachable r \<Longrightarrow> reachable (snd (getDeclaredField t n r))"
| assignable: "reachable r \<Longrightarrow> reachable (snd (isAssignableFrom t u r))"
| new: "reachable r \<Longrightarrow> class_instances r obj = None \<Longrightarrow> reachable (newInstance t obj r)"
| delete: "reachable r \<Longrightarrow> isInstance t obj r \<Longrightarrow> reachable (deleteInstance t obj r)"

lemma isAssignableFrom_wf:
  assumes "registry_wf r"
  shows "registry_wf (snd (isAssignableFrom t u r))" "fst (isAssignableFrom t u r) \<longleftrightarrow> class_key t = class_key u"
proof -
  obtain d s where c: "classSharedData (class_key t) r = (d, s)" by force
  note s = classSharedData_wf [OF assms c]
  obtain e v where e: "classSharedData (class_key u) s = (e, v)" by force
  note v = classSharedData_wf [OF s(1) e]
  show "registry_wf (snd (isAssignableFrom t u r))"
    using v(1) by (simp add: isAssignableFrom_def getTypeid_def c e)
  have "class_map v (class_key t) = Some d"
    using s(2) v(2,4,6) by (cases "class_key t = class_key u") auto
  then show "fst (isAssignableFrom t u r) \<longleftrightarrow> class_key t = class_key u"
    using registry_wfD(4) [OF v(1) _ v(2), of "class_key t" d] v(2) by (auto simp: isAssignableFrom_def getTypeid_def c e)
qed

lemma reachable_wf: "reachable r \<Longrightarrow> registry_wf r"
proof (induction rule: reachable.induct)
  case (touch r t)
  then show ?case using classSharedData_wf(1) [OF touch.IH prod.collapse [symmetric]] by simp
qed (simp_all add: registry_wf_init declarations_wf isAssignableFrom_wf newInstance_wf deleteInstance_wf)



lemma find_method:
  "fst (getDeclaredMethodFromDescription t k r) =
    (case class_map r (class_key t) of None \<Rightarrow> None
     | Some d \<Rightarrow> (case map_find string_less k (m_methods d) of None \<Rightarrow> None | Some v \<Rightarrow> v))"
  by (auto simp: getDeclaredMethodFromDescription_def classSharedData_def ClassSharedData_new_def map_index_def
      split: option.split)



lemma insert_or_assign_mem: "v \<in> snd ` set (insert_or_assign lt k v m)"
  by (induction lt k v m rule: insert_or_assign.induct) simp_all

lemma map_find_mem: "map_find lt k m = Some v \<Longrightarrow> v \<in> snd ` set m"
  by (induction lt k m rule: map_find.induct) (simp_all split: if_splits)

lemma map_index_null: "fst (map_index k m) = None \<Longrightarrow> None \<in> snd ` set (snd (map_index k m))"
  using map_find_mem [of string_less k m None] by (auto simp: map_index_def insert_or_assign_mem split: option.splits)

text \<open>
  Types without a descriptor are not told apart: all of them have the same descriptor, so any two
  are assignable, and the instances of one are instances of the other. A lookup of a method that was
  not declared leaves a null method behind, which \<open>getDeclaredMethods\<close> then lists.
\<close>
theorem unknown_types_confused:
  assumes "reachable r" "fst (getDeclaredMethod t n ps r) = None"
  shows "fst (isAssignableFrom (Plain (OtherType a)) (Ref (OtherType b)) r) \<and>
    (isInstance (Plain (OtherType a)) obj r \<longleftrightarrow> isInstance (Plain (OtherType b)) obj r) \<and>
    None \<in> set (getDeclaredMethods t (snd (getDeclaredMethod t n ps r)))"
proof -
  note r = reachable_wf [OF assms(1)]
  let ?k = "methodDescriptor (Class_getName t) n (map Class_getName ps)"
  obtain d s where c: "classSharedData (class_key t) r = (d, s)" by force
  have "fst (map_index ?k (m_methods d)) = None"
    using assms(2) by (simp add: getDeclaredMethod_def getDeclaredMethodFromDescription_def c case_prod_unfold Let_def)
  then have "None \<in> snd ` set (snd (map_index ?k (m_methods d)))"
    using map_index_null by blast
  then have "None \<in> set (getDeclaredMethods t (snd (getDeclaredMethod t n ps r)))"
    by (simp add: getDeclaredMethods_def getDeclaredMethod_def getDeclaredMethodFromDescription_def c case_prod_unfold Let_def
        classSharedData_def [of _ "s\<lparr>class_map := _\<rparr>"])
  moreover have "class_key (Plain (OtherType a)) = class_key (Ref (OtherType b))"
    "class_key (Plain (OtherType a)) = class_key (Plain (OtherType b))"
    by (simp_all add: class_key_def)
  ultimately show ?thesis
    using isAssignableFrom_wf(2) [OF r] by (simp add: isInstance_def)
qed

theorem unknown_types_confused_witness:
  "fst (isAssignableFrom (Plain (OtherType ''Foo'')) (Ref (OtherType ''Bar'')) (registry_init :: (nat, unit) registry)) \<and>
    (isInstance (Plain (OtherType ''Foo'')) 7 (registry_init :: (nat, unit) registry) \<longleftrightarrow>
     isInstance (Plain (OtherType ''Bar'')) 7 (registry_init :: (nat, unit) registry)) \<and>
    None \<in> set (getDeclaredMethods (Plain TInt) (snd (getDeclaredMethod (Plain TInt) ''f'' [] (registry_init :: (nat, unit) registry))))"
  by (rule unknown_types_confused [OF reachable.init])
    (simp add: getDeclaredMethod_def getDeclaredMethodFromDescription_def classSharedData_def ClassSharedData_new_def registry_init_def
      map_index_def)

text \<open>All parameters are reported with the class of the first one.\<close>

lemma getParameterTypes_right: "getParameterTypes m = method_types m \<longleftrightarrow> (\<forall>p \<in> set (method_types m). p = hd (method_types m))"
proof -
  have "replicate (length ps) (hd ps) = ps \<longleftrightarrow> (\<forall>p \<in> set ps. p = hd ps)" for ps :: "cpp_type list"
    by (metis in_set_replicate replicate_eqI)
  from this [of "method_types m"] show ?thesis by (simp add: getParameterTypes_def Let_def)
qed

end
