(* ===== verification/Reflect_Value.thy ===== *)
theory Reflect_Value
  imports Reflect
begin

text \<open>
  The values of the reflection library, \<^verbatim>\<open>src/reflect/Value.{h,cpp}\<close>, and the fields that are read and
  written through them, \<^verbatim>\<open>Field.h\<close>. A value holds an integer, a string or an object; the accessors
  convert between the integer types and to and from text by the stream operators. The floating
  types are not modelled. The last section is the lazy construction of a class object in
  \<^verbatim>\<open>Class.h\<close>.
\<close>

section \<open>Integers of the C++ types\<close>

text \<open>\<open>char\<close> is signed on the platform; \<open>int8_t\<close> is \<open>signed char\<close>.\<close>

fun int_width :: "base_type \<Rightarrow> nat" where
  "int_width TInt = 32"
| "int_width TInt64 = 64"
| "int_width TShort = 16"
| "int_width TChar = 8"
| "int_width TInt8 = 8"
| "int_width _ = 0"

definition is_number_type :: "base_type \<Rightarrow> bool" where
  "is_number_type b \<longleftrightarrow> b \<in> {TInt, TInt64, TShort, TChar, TInt8, TBool}"

definition is_char_type :: "base_type \<Rightarrow> bool" where
  "is_char_type b \<longleftrightarrow> b \<in> {TChar, TInt8}"

text \<open>\<open>static_cast\<close> to an integer type: modulo the width, or \<open>v \<noteq> 0\<close> for \<open>bool\<close>.\<close>

definition static_cast :: "base_type \<Rightarrow> int \<Rightarrow> int" where
  "static_cast b v = (if b = TBool then (if v \<noteq> 0 then 1 else 0) else signed_take_bit (int_width b - 1) v)"

definition type_min :: "base_type \<Rightarrow> int" where
  "type_min b = (if b = TBool then 0 else - (2 ^ (int_width b - 1)))"

definition type_max :: "base_type \<Rightarrow> int" where
  "type_max b = (if b = TBool then 1 else 2 ^ (int_width b - 1) - 1)"

definition in_type :: "base_type \<Rightarrow> int \<Rightarrow> bool" where
  "in_type b v \<longleftrightarrow> type_min b \<le> v \<and> v \<le> type_max b"

section \<open>Streams\<close>

text \<open>\<open>operator<<\<close>: a character type prints its character, every other type decimal digits.\<close>

definition stream_out :: "base_type \<Rightarrow> int \<Rightarrow> string" where
  "stream_out b v = (if is_char_type b then [char_of (nat (v mod 256))] else dec_int v)"

text \<open>
  \<open>operator>>\<close> into a variable: \<open>None\<close> leaves the variable alone, which happens when nothing but white
  space is left. Without digits 0 is stored, and a number out of range is stored as the nearest
  value of the type.
\<close>

definition read_digits :: "string \<Rightarrow> int option" where
  "read_digits s = (let ds = takeWhile isdigit s in if ds = [] then None else Some (int (digits_value ds)))"

definition read_number :: "string \<Rightarrow> int" where
  "read_number s =
     (case s of
        [] \<Rightarrow> 0
      | c # rest \<Rightarrow>
          (if c = CHR ''-'' then (case read_digits rest of Some v \<Rightarrow> - v | None \<Rightarrow> 0)
           else if c = CHR ''+'' then (case read_digits rest of Some v \<Rightarrow> v | None \<Rightarrow> 0)
           else (case read_digits s of Some v \<Rightarrow> v | None \<Rightarrow> 0)))"

definition clamp :: "base_type \<Rightarrow> int \<Rightarrow> int" where
  "clamp b v = (if v < type_min b then type_min b else if v > type_max b then type_max b else v)"

definition stream_in :: "base_type \<Rightarrow> string \<Rightarrow> int option" where
  "stream_in b s =
     (case dropWhile isspace s of
        [] \<Rightarrow> None
      | c # rest \<Rightarrow>
          Some (if is_char_type b then static_cast b (of_char c)
                else if b = TBool then static_cast b (read_number (c # rest))
                else clamp b (read_number (c # rest))))"

text \<open>\<open>toNumber\<close> reads into a variable that it does not initialise.\<close>

definition toNumber :: "base_type \<Rightarrow> string \<Rightarrow> (int, unit) outcome" where
  "toNumber b str = (case stream_in b str of None \<Rightarrow> Fault IndeterminateRead | Some v \<Rightarrow> Ret v ())"

section \<open>Values\<close>

text \<open>
  The type argument of \<open>NumberValue\<close> and \<open>StringValue\<close> may be a reference; then the integer or string
  is the content of the variable referred to, and it cannot be assigned through a reference to const.
\<close>

datatype 'o Value =
    Void
  | NumberValue cpp_type int
  | StringValue cpp_type string
  | ObjectValue cpp_type bool 'o

fun pointee :: "cpp_type \<Rightarrow> base_type" where
  "pointee (Plain b) = b"
| "pointee (Ptr b) = b"
| "pointee (ConstPtr b) = b"
| "pointee (Ref b) = b"
| "pointee (ConstRef b) = b"

definition is_const :: "cpp_type \<Rightarrow> bool" where
  "is_const t \<longleftrightarrow> (case t of ConstRef b \<Rightarrow> True | _ \<Rightarrow> False)"

fun isVoid :: "'o Value \<Rightarrow> bool" where
  "isVoid Void = True"
| "isVoid _ = False"

text \<open>\<open>std::is_arithmetic\<close> is false for a reference; \<open>isBoolean\<close> decays the type first.\<close>

fun isNumber :: "'o Value \<Rightarrow> bool" where
  "isNumber (NumberValue t v) = (case t of Plain b \<Rightarrow> is_number_type b | _ \<Rightarrow> False)"
| "isNumber _ = False"

fun isBoolean :: "'o Value \<Rightarrow> bool" where
  "isBoolean (NumberValue t v) = (pointee t = TBool)"
| "isBoolean _ = False"

fun isString :: "'o Value \<Rightarrow> bool" where
  "isString (StringValue t s) = True"
| "isString _ = False"

fun isFunction :: "'o Value \<Rightarrow> bool" where
  "isFunction (ObjectValue t f obj) = f"
| "isFunction _ = False"

text \<open>\<open>numeric_limits<T>::quiet_NaN()\<close> is 0 for an integer type.\<close>

fun numberAs :: "base_type \<Rightarrow> 'o Value \<Rightarrow> (int, unit) outcome" where
  "numberAs b (NumberValue t v) = Ret (static_cast b v) ()"
| "numberAs b (StringValue t s) = toNumber b s"
| "numberAs b Void = Ret 0 ()"
| "numberAs b (ObjectValue t f obj) = Ret 0 ()"

definition intValue :: "'o Value \<Rightarrow> (int, unit) outcome" where "intValue = numberAs TInt"
definition int64Value :: "'o Value \<Rightarrow> (int, unit) outcome" where "int64Value = numberAs TInt64"
definition charValue :: "'o Value \<Rightarrow> (int, unit) outcome" where "charValue = numberAs TChar"
definition byteValue :: "'o Value \<Rightarrow> (int, unit) outcome" where "byteValue = numberAs TInt8"
definition shortValue :: "'o Value \<Rightarrow> (int, unit) outcome" where "shortValue = numberAs TShort"
definition booleanValue :: "'o Value \<Rightarrow> (int, unit) outcome" where "booleanValue = numberAs TBool"

fun stringValue :: "'o Value \<Rightarrow> string" where
  "stringValue (NumberValue t v) = stream_out (pointee t) v"
| "stringValue (StringValue t s) = s"
| "stringValue _ = ''''"

text \<open>The setters, with an argument of type \<open>b\<close>; assignment to a constant is dropped by overloading.\<close>

fun setNumber :: "base_type \<Rightarrow> int \<Rightarrow> 'o Value \<Rightarrow> 'o Value" where
  "setNumber b x (NumberValue t v) = NumberValue t (if is_const t then v else static_cast (pointee t) x)"
| "setNumber b x (StringValue t s) = StringValue t (if is_const t then s else stream_out b x)"
| "setNumber b x v = v"

definition setIntValue :: "int \<Rightarrow> 'o Value \<Rightarrow> 'o Value" where "setIntValue = setNumber TInt"
definition setInt64Value :: "int \<Rightarrow> 'o Value \<Rightarrow> 'o Value" where "setInt64Value = setNumber TInt64"
definition setCharValue :: "int \<Rightarrow> 'o Value \<Rightarrow> 'o Value" where "setCharValue = setNumber TChar"
definition setByteValue :: "int \<Rightarrow> 'o Value \<Rightarrow> 'o Value" where "setByteValue = setNumber TInt8"
definition setShortValue :: "int \<Rightarrow> 'o Value \<Rightarrow> 'o Value" where "setShortValue = setNumber TShort"
definition setBooleanValue :: "int \<Rightarrow> 'o Value \<Rightarrow> 'o Value" where "setBooleanValue = setNumber TBool"

fun setStringValue :: "string \<Rightarrow> 'o Value \<Rightarrow> 'o Value" where
  "setStringValue str (NumberValue t v) =
     NumberValue t (if is_const t then v else (case stream_in (pointee t) str of None \<Rightarrow> v | Some x \<Rightarrow> x))"
| "setStringValue str (StringValue t s) = StringValue t (if is_const t then s else str)"
| "setStringValue str v = v"

text \<open>\<open>getClass\<close> of a value: the type whose class it returns.\<close>

fun value_class :: "'o Value \<Rightarrow> cpp_type" where
  "value_class Void = Plain TVoid"
| "value_class (NumberValue t v) = t"
| "value_class (StringValue t s) = Plain StdString"
| "value_class (ObjectValue t f obj) = t"

text \<open>The class template that holds a value of a type, chosen by its type without references.\<close>

datatype value_template = VoidTemplate | NumberTemplate | StringTemplate | ObjectTemplate

definition TypeValueBaseType :: "cpp_type \<Rightarrow> value_template" where
  "TypeValueBaseType t =
     (case basetype t of
        Plain b \<Rightarrow>
          (if b = TVoid then VoidTemplate
           else if is_number_type b \<or> b \<in> {TFloat, TDouble} then NumberTemplate
           else if b = StdString then StringTemplate
           else ObjectTemplate)
      | _ \<Rightarrow> ObjectTemplate)"

text \<open>
  \<open>operator T&\<close> asserts that the classes match and then reinterprets the data of the value, of which
  a void value has none. The result is the value whose data is handed out.
\<close>

definition operator_ref :: "cpp_type \<Rightarrow> 'o Value \<Rightarrow> ('m, 'f) registry \<Rightarrow> ('o Value, ('m, 'f) registry) outcome" where
  "operator_ref t v r =
     (let (ok, r) = isAssignableFrom t (value_class v) r
      in wtf_check ok (if v = Void then Fault NullDeref else Ret v r))"

definition functionObject :: "cpp_type \<Rightarrow> 'o Value \<Rightarrow> ('m, 'f) registry \<Rightarrow> ('o Value, ('m, 'f) registry) outcome" where
  "functionObject t v r =
     (if \<not> isFunction v then Fault CheckFailed
      else (let (ok, r) = isAssignableFrom t (value_class v) r
            in wtf_check ok (if v = Void then Fault NullDeref else Ret v r)))"

section \<open>Fields\<close>

text \<open>
  A field of an integer type is a member of the object, which is a map from its members; \<open>get\<close> and
  \<open>set\<close> of a field go through a value of the field's type and of the argument's type.
\<close>

record Field =
  field_name :: string
  field_type :: base_type
  m_field :: string

type_synonym object = "string \<Rightarrow> int"

definition DeducedField_get :: "Field \<Rightarrow> object \<Rightarrow> 'o Value" where
  "DeducedField_get f receiver = NumberValue (Plain (field_type f)) (receiver (m_field f))"

definition DeducedField_set :: "Field \<Rightarrow> 'o Value \<Rightarrow> object \<Rightarrow> (unit, object) outcome" where
  "DeducedField_set f value receiver =
     andThen (numberAs (field_type f) value) (\<lambda>x _. Ret () (receiver(m_field f := x)))"

definition Field_get :: "base_type \<Rightarrow> Field \<Rightarrow> object \<Rightarrow> (int, object) outcome" where
  "Field_get b f receiver = andThen (numberAs b (DeducedField_get f receiver :: unit Value)) (\<lambda>x _. Ret x receiver)"

definition Field_set :: "base_type \<Rightarrow> Field \<Rightarrow> int \<Rightarrow> object \<Rightarrow> (unit, object) outcome" where
  "Field_set b f x receiver = DeducedField_set f (NumberValue (Plain b) x :: unit Value) receiver"

section \<open>Calls\<close>

text \<open>
  A call through \<open>Method::invoke\<close> of a function with integer parameters \<open>ps\<close> and result \<open>r\<close>: every
  argument is wrapped in a value of its own type, cast to the type of the parameter, and the result
  is wrapped again. An argument array that is too short is read past its end.
\<close>

definition typed_values :: "(base_type \<times> int) list \<Rightarrow> 'o Value list" where
  "typed_values arguments = map (\<lambda>(q, x). NumberValue (Plain q) x) arguments"

fun cast_arguments :: "base_type list \<Rightarrow> 'o Value list \<Rightarrow> (int list, unit) outcome" where
  "cast_arguments [] values = Ret [] ()"
| "cast_arguments (p # ps) [] = Fault OutOfBounds"
| "cast_arguments (p # ps) (v # values) =
     andThen (numberAs p v) (\<lambda>x _. andThen (cast_arguments ps values) (\<lambda>xs _. Ret (x # xs) ()))"

definition Method_invoke :: "base_type list \<Rightarrow> base_type \<Rightarrow> (int list \<Rightarrow> int) \<Rightarrow> (base_type \<times> int) list \<Rightarrow> ('o Value, unit) outcome" where
  "Method_invoke ps r f arguments =
     andThen (cast_arguments ps (typed_values arguments :: 'o Value list)) (\<lambda>xs _. Ret (NumberValue (Plain r) (f xs)) ())"

section \<open>Class objects\<close>

text \<open>
  \<open>getClass<T>()\<close> with its two static variables. It marks the class as initialised before it constructs
  the object, and the constructor of \<open>Class<T>\<close> calls \<open>getClass<T>()\<close> again. \<open>describeClass\<close> is
  supplied by the program.
\<close>

record 'r class_statics =
  initialized :: bool
  sharedClass :: bool
  class_registry :: 'r

function getClass_T :: "('r class_statics \<Rightarrow> (unit, 'r class_statics) outcome) \<Rightarrow> ('r \<Rightarrow> 'r) \<Rightarrow>
    'r class_statics \<Rightarrow> (unit, 'r class_statics) outcome" where
  "getClass_T describeClass classBase st =
     (if \<not> initialized st then
        andThen (getClass_T describeClass classBase
            (st\<lparr>initialized := True, class_registry := classBase (class_registry st)\<rparr>))
          (\<lambda>_ st. describeClass (st\<lparr>sharedClass := True\<rparr>))
      else if sharedClass st then Ret () st
      else Fault NullDeref)"
  by pat_completeness auto
termination by (relation "measure (\<lambda>(d, c, st). if initialized st then 0 else 1)") auto

declare getClass_T.simps [simp del]

section \<open>Text and conversions\<close>

lemma static_cast_id: "is_number_type b \<Longrightarrow> in_type b v \<Longrightarrow> static_cast b v = v"
  by (auto simp: is_number_type_def in_type_def type_min_def type_max_def static_cast_def signed_take_bit_int_eq_self)

lemma static_cast_in_type:
  assumes "is_number_type b"
  shows "in_type b (static_cast b v)"
proof (cases "b = TBool")
  case False
  then have "in_type b (static_cast b v) \<longleftrightarrow> - (2 ^ (int_width b - 1)) \<le> signed_take_bit (int_width b - 1) v \<and>
      signed_take_bit (int_width b - 1) v < 2 ^ (int_width b - 1)"
    by (auto simp: in_type_def type_min_def type_max_def static_cast_def)
  then show ?thesis by (simp add: signed_take_bit_int_greater_eq_minus_exp signed_take_bit_int_less_exp)
qed (simp add: in_type_def type_min_def type_max_def static_cast_def)

lemma read_digits_dec_nat: "read_digits (dec_nat n) = Some (int n)"
proof -
  have t: "takeWhile isdigit (dec_nat n) = dec_nat n" using takeWhile_digits [OF isdigit_dec_nat, of "[]" n] by simp
  show ?thesis unfolding read_digits_def t by (simp add: Let_def)
qed

lemma dec_nat_hd: "\<exists>c rest. dec_nat n = c # rest \<and> isdigit c"
  using isdigit_dec_nat [of n] dec_nat_not_Nil [of n] by (cases "dec_nat n") auto

lemma read_number_dec_int: "read_number (dec_int v) = v"
proof (cases "v < 0")
  case False
  obtain c rest where c: "dec_nat (nat v) = c # rest" "isdigit c" using dec_nat_hd by blast
  show ?thesis
    using isspace_digit [OF c(2)] read_digits_dec_nat [of "nat v"] False by (simp add: read_number_def dec_int_def c(1))
qed (simp add: read_number_def dec_int_def read_digits_dec_nat)

lemma dropWhile_dec_int: "dropWhile isspace (dec_int v) = dec_int v"
proof -
  obtain c rest where c: "dec_nat (nat v) = c # rest" "isdigit c" using dec_nat_hd by blast
  have "\<not> isspace CHR ''-''" by (simp add: isspace_def)
  then show ?thesis using isspace_digit [OF c(2)] by (simp add: dec_int_def c(1))
qed

text \<open>Reading what was printed gives the number back, except for a white space character.\<close>

lemma stream_in_out:
  assumes "is_number_type b" "in_type b v"
  shows "stream_in b (stream_out b v) =
    (if is_char_type b \<and> isspace (char_of (nat (v mod 256))) then None else Some v)"
proof (cases "is_char_type b")
  case True
  have "signed_take_bit 7 (v mod 256) = v"
    using assms True signed_take_bit_take_bit [of 7 8 v]
    by (auto simp: is_char_type_def in_type_def type_min_def type_max_def take_bit_eq_mod signed_take_bit_int_eq_self)
  moreover have "of_char (char_of (nat (v mod 256)) :: char) = v mod 256"
  proof -
    have "char_of (nat (v mod 256)) = char_of (v mod 256)" using char_of_nat [of "nat (v mod 256)", where ?'a = int] by simp
    then show ?thesis by simp
  qed
  ultimately have "static_cast b (of_char (char_of (nat (v mod 256)) :: char)) = v"
    using True by (auto simp: static_cast_def is_char_type_def)
  then show ?thesis using True by (simp add: stream_in_def stream_out_def)
next
  case False
  have "dec_int v \<noteq> []" by (simp add: dec_int_def)
  moreover have "clamp b v = v" using assms(2) by (auto simp: clamp_def in_type_def)
  ultimately show ?thesis
    unfolding stream_in_def stream_out_def if_not_P [OF False] dropWhile_dec_int
    using False static_cast_id [OF assms] read_number_dec_int [of v] by (cases "dec_int v") auto
qed

text \<open>
  C39. A number survives its text: the text of a number of an integer type, assigned to a value of
  the same type, gives the number back, and a string value that was set to the number reads it back;
  the exceptions are the white space characters of the character types, which leave the target
  unchanged and make the string value read an uninitialised variable.
\<close>
theorem value_text_round_trip:
  assumes "is_number_type b" "in_type b v" "t = Plain b \<or> t = Ref b" "\<not> is_const u"
  shows "setStringValue (stringValue (NumberValue t v :: 'o Value)) (NumberValue t w :: 'o Value) =
      NumberValue t (if is_char_type b \<and> isspace (char_of (nat (v mod 256))) then w else v) \<and>
    numberAs b (setNumber b v (StringValue u str :: 'o Value)) =
      (if is_char_type b \<and> isspace (char_of (nat (v mod 256))) then Fault IndeterminateRead else Ret v ())"
  using assms(3,4) by (auto simp: stream_in_out [OF assms(1,2)] is_const_def toNumber_def)

theorem value_text_round_trip_witness:
  "setStringValue (stringValue (NumberValue (Ref TInt) (- 42) :: unit Value)) (NumberValue (Ref TInt) 0 :: unit Value) =
     NumberValue (Ref TInt) (- 42) \<and>
   numberAs TInt (setNumber TInt (- 42) (StringValue (Plain StdString) [] :: unit Value)) = Ret (- 42) () \<and>
   numberAs TChar (setNumber TChar 32 (StringValue (Plain StdString) [] :: unit Value)) = Fault IndeterminateRead"
  using value_text_round_trip [of TInt "- 42" "Ref TInt" "Plain StdString" 0 "[]", where ?'o = unit]
    value_text_round_trip [of TChar 32 "Plain TChar" "Plain StdString" 0 "[]", where ?'o = unit]
  by (simp add: is_number_type_def in_type_def type_min_def type_max_def is_const_def is_char_type_def isspace_def)

text \<open>
  Numbers are converted as C++ converts them: a value set through one integer type and read
  through another has been cast to the type of the value and then to the type of the reader; a
  number that fits both comes back unchanged, and every number read fits the type of the reader.
\<close>
theorem value_conversions:
  assumes "is_number_type b" "is_number_type c"
  shows "numberAs c (setNumber a x (NumberValue (Plain b) v :: 'o Value)) = Ret (static_cast c (static_cast b x)) () \<and>
    in_type c (static_cast c (static_cast b x)) \<and>
    (in_type b x \<and> in_type c x \<longrightarrow> static_cast c (static_cast b x) = x)"
  using assms by (simp add: is_const_def static_cast_in_type static_cast_id)

theorem value_conversions_witness:
  "numberAs TShort (setNumber TInt 70000 (NumberValue (Plain TInt64) 0 :: unit Value)) = Ret 4464 () \<and>
   numberAs TShort (setNumber TInt 7 (NumberValue (Plain TInt64) 0 :: unit Value)) = Ret 7 ()"
proof -
  have "static_cast TShort (static_cast TInt64 70000) = 4464" by code_simp
  then show ?thesis
    using value_conversions [of TInt64 TShort TInt 70000 0, where ?'o = unit]
      value_conversions [of TInt64 TShort TInt 7 0, where ?'o = unit]
    by (simp add: is_number_type_def in_type_def type_min_def type_max_def)
qed

text \<open>\<open>toNumber\<close> reads an uninitialised variable exactly if the text is blank.\<close>

lemma toNumber_faults_iff: "toNumber b str = Fault IndeterminateRead \<longleftrightarrow> list_all isspace str"
proof -
  have "dropWhile isspace str = [] \<longleftrightarrow> list_all isspace str" by (simp add: list_all_iff dropWhile_eq_Nil_conv)
  then show ?thesis by (cases "dropWhile isspace str") (simp_all add: toNumber_def stream_in_def del: dropWhile_eq_Nil_conv)
qed

text \<open>
  A field reads back what was written: writing \<open>x\<close> as a \<open>b\<close> to a field and reading the field as a
  \<open>c\<close> gives \<open>x\<close> cast to the type of the field and then to \<open>c\<close>, which is \<open>x\<close> itself if it fits, and
  no other member of the object changes.
\<close>
theorem field_round_trip:
  assumes "is_number_type (field_type f)" "is_number_type c"
  shows "\<exists>obj'. Field_set b f x obj = Ret () obj' \<and>
    Field_get c f obj' = Ret (static_cast c (static_cast (field_type f) x)) obj' \<and>
    (in_type (field_type f) x \<and> in_type c x \<longrightarrow> Field_get c f obj' = Ret x obj') \<and>
    (\<forall>m. m \<noteq> m_field f \<longrightarrow> obj' m = obj m)"
  using assms static_cast_id [of "field_type f" x] static_cast_id [of c x]
  by (auto simp: Field_set_def Field_get_def DeducedField_set_def DeducedField_get_def)

theorem field_round_trip_witness:
  "\<exists>obj'. Field_set TInt \<lparr>field_name = ''n'', field_type = TShort, m_field = ''n''\<rparr> 12 (\<lambda>_. 0) = Ret () obj' \<and>
     Field_get TInt64 \<lparr>field_name = ''n'', field_type = TShort, m_field = ''n''\<rparr> obj' = Ret 12 obj' \<and> obj' ''k'' = 0"
  using field_round_trip [of "\<lparr>field_name = ''n'', field_type = TShort, m_field = ''n''\<rparr>" TInt64 TInt 12 "\<lambda>_. 0"]
  by (auto simp: is_number_type_def in_type_def type_min_def type_max_def)

lemma cast_arguments_numbers:
  "length ps \<le> length arguments \<Longrightarrow>
   cast_arguments ps (typed_values arguments) = Ret (map2 (\<lambda>p (q, x). static_cast p x) ps arguments) ()"
proof (induction ps arbitrary: arguments)
  case (Cons p ps)
  then show ?case by (cases arguments) (auto simp: typed_values_def)
qed simp

lemma cast_arguments_short:
  "length arguments < length ps \<Longrightarrow> cast_arguments ps (typed_values arguments) = Fault OutOfBounds"
proof (induction ps arbitrary: arguments)
  case (Cons p ps)
  then show ?case by (cases arguments) (auto simp: typed_values_def)
qed simp



section \<open>Casts to references\<close>

text \<open>
  What a cast of a value to a reference checks: in a registry that a program can produce, \<open>operator T&\<close>
  hands out the data of a value that is not void exactly if the type of the value and \<open>T\<close> have the
  same descriptor without references, and otherwise its assertion fails; so a value of one type
  without a descriptor is reinterpreted as any other.
\<close>
theorem operator_ref_checks_descriptor:
  assumes "reachable r" "v \<noteq> Void"
  shows "operator_ref t v r =
      (if class_key t = class_key (value_class v) then Ret v (snd (isAssignableFrom t (value_class v) r)) else Fault CheckFailed) \<and>
    (t = Plain (OtherType a) \<and> v = ObjectValue (Plain (OtherType b)) f obj \<longrightarrow> (\<exists>s. operator_ref t v r = Ret v s))"
proof -
  have "operator_ref t v r =
      (if class_key t = class_key (value_class v) then Ret v (snd (isAssignableFrom t (value_class v) r)) else Fault CheckFailed)"
    using isAssignableFrom_wf(2) [OF reachable_wf [OF assms(1)], of t "value_class v"] assms(2)
    by (auto simp: operator_ref_def case_prod_unfold Let_def)
  moreover have "class_key (Plain (OtherType a)) = class_key (Plain (OtherType b))" by (simp add: class_key_def)
  ultimately show ?thesis by auto
qed

theorem operator_ref_checks_descriptor_witness:
  "operator_ref (Ref TInt) (NumberValue (Plain TInt) 3 :: unit Value) (registry_init :: (unit, unit) registry) =
     Ret (NumberValue (Plain TInt) 3) (snd (isAssignableFrom (Ref TInt) (Plain TInt) registry_init)) \<and>
   operator_ref (Plain TBool) (NumberValue (Plain TInt) 3 :: unit Value) (registry_init :: (unit, unit) registry) = Fault CheckFailed"
  using operator_ref_checks_descriptor [OF reachable.init, of "NumberValue (Plain TInt) 3 :: unit Value" "Ref TInt"]
    operator_ref_checks_descriptor [OF reachable.init, of "NumberValue (Plain TInt) 3 :: unit Value" "Plain TBool"]
  by (simp add: class_key_def)

section \<open>The first use of a class\<close>

text \<open>
  The first call of \<open>getClass<T>()\<close> dereferences the null pointer of the class object that is being
  constructed, whatever \<open>describeClass\<close> does; had the object been there it would be returned.
\<close>
theorem getClass_T_first_use:
  "\<not> initialized st \<Longrightarrow> \<not> sharedClass st \<Longrightarrow> getClass_T d c st = Fault NullDeref"
  "initialized st \<Longrightarrow> sharedClass st \<Longrightarrow> getClass_T d c st = Ret () st"
  by (subst getClass_T.simps, simp, subst getClass_T.simps, simp) (subst getClass_T.simps, simp)

end
