(* ===== verification/Semaphores.thy ===== *)
theory Semaphores
  imports Prelude
begin

text \<open>
  The counting semaphore \<^verbatim>\<open>src/wtf/sync/semaphore.{h,cpp}\<close> with its three platform classes, over the
  semaphores of Windows, of Grand Central Dispatch and of POSIX as their manuals describe them. One
  contract covers all three.
\<close>

section \<open>The contract\<close>

datatype sem_call = CallTryWait | CallSignal

text \<open>The results of the calls of \<open>TryWait\<close> in a sequence of calls, for a semaphore and for a plain counter.\<close>

fun answers :: "('s \<Rightarrow> bool \<times> 's) \<Rightarrow> ('s \<Rightarrow> 's) \<Rightarrow> sem_call list \<Rightarrow> 's \<Rightarrow> bool list" where
  "answers try_wait signal [] s = []"
| "answers try_wait signal (CallTryWait # ops) s = (let (b, s) = try_wait s in b # answers try_wait signal ops s)"
| "answers try_wait signal (CallSignal # ops) s = answers try_wait signal ops (signal s)"

fun counter_answers :: "sem_call list \<Rightarrow> nat \<Rightarrow> bool list" where
  "counter_answers [] n = []"
| "counter_answers (CallTryWait # ops) n = (0 < n) # counter_answers ops (n - 1)"
| "counter_answers (CallSignal # ops) n = counter_answers ops (Suc n)"

text \<open>The contract of a counting semaphore over the number of units it holds.\<close>

locale counting_semaphore =
  fixes try_wait :: "'s \<Rightarrow> bool \<times> 's"
    and signal :: "'s \<Rightarrow> 's"
    and units :: "'s \<Rightarrow> nat"
    and valid :: "'s \<Rightarrow> bool"
    and limit :: nat
  assumes try_wait_iff: "valid s \<Longrightarrow> fst (try_wait s) \<longleftrightarrow> 0 < units s"
    and units_try_wait: "valid s \<Longrightarrow> units (snd (try_wait s)) = units s - 1"
    and valid_try_wait: "valid s \<Longrightarrow> valid (snd (try_wait s))"
    and units_signal: "valid s \<Longrightarrow> units s < limit \<Longrightarrow> units (signal s) = Suc (units s)"
    and valid_signal: "valid s \<Longrightarrow> valid (signal s)"
begin

lemma signal_then_wait:
  "valid s \<Longrightarrow> units s < limit \<Longrightarrow> fst (try_wait (signal s)) \<and> units (snd (try_wait (signal s))) = units s"
  by (simp add: try_wait_iff units_try_wait valid_signal units_signal)

lemma failed_wait: "valid s \<Longrightarrow> \<not> fst (try_wait s) \<Longrightarrow> units s = 0 \<and> units (snd (try_wait s)) = 0"
  by (simp add: try_wait_iff units_try_wait)

lemma passed_wait: "valid s \<Longrightarrow> fst (try_wait s) \<Longrightarrow> units s = Suc (units (snd (try_wait s)))"
  by (simp add: try_wait_iff units_try_wait)

text \<open>Against the abstract counter, every sequence of calls gives the same answers.\<close>

lemma answers_counter:
  "valid s \<Longrightarrow> units s + length ops \<le> limit \<Longrightarrow> answers try_wait signal ops s = counter_answers ops (units s)"
proof (induction ops arbitrary: s)
  case (Cons op ops)
  show ?case
  proof (cases op)
    case CallTryWait
    have "units (snd (try_wait s)) = units s - 1" using Cons.prems(1) by (rule units_try_wait)
    then show ?thesis
      using Cons.IH [of "snd (try_wait s)"] Cons.prems CallTryWait
      by (simp add: case_prod_unfold try_wait_iff valid_try_wait)
  next
    case CallSignal
    then show ?thesis using Cons.IH [of "signal s"] Cons.prems by (simp add: units_signal valid_signal)
  qed
qed simp

end

section \<open>Windows\<close>

text \<open>
  \<open>None\<close> is a null handle. \<open>CreateSemaphore\<close> converts the count to \<open>LONG\<close> and refuses negative
  ones; it may also fail for want of resources, which is the argument \<open>created\<close>.
  \<open>ReleaseSemaphore\<close> leaves a count of \<open>LONG_MAX\<close> alone, and its result is ignored.
\<close>

type_synonym Semaphore = "nat option"

definition LONG_MAX :: nat where "LONG_MAX = 2 ^ 31 - 1"

definition Semaphore_new :: "bool \<Rightarrow> u32 \<Rightarrow> Semaphore" where
  "Semaphore_new created initial = (if created \<and> unat initial \<le> LONG_MAX then Some (unat initial) else None)"

definition Semaphore_IsValid :: "Semaphore \<Rightarrow> bool" where
  "Semaphore_IsValid sem = (sem \<noteq> None)"

definition TryWait :: "Semaphore \<Rightarrow> bool \<times> Semaphore" where
  "TryWait sem =
     (case sem of None \<Rightarrow> (False, sem) | Some 0 \<Rightarrow> (False, sem) | Some (Suc n) \<Rightarrow> (True, Some n))"

definition Signal :: "Semaphore \<Rightarrow> Semaphore" where
  "Signal sem = (case sem of None \<Rightarrow> None | Some n \<Rightarrow> if n < LONG_MAX then Some (Suc n) else Some n)"

definition units :: "Semaphore \<Rightarrow> nat" where
  "units sem = (case sem of None \<Rightarrow> 0 | Some n \<Rightarrow> n)"

interpretation sem: counting_semaphore TryWait Signal units Semaphore_IsValid LONG_MAX
  by unfold_locales
    (auto simp: TryWait_def Signal_def units_def Semaphore_IsValid_def split: nat.splits)

section \<open>Grand Central Dispatch\<close>

text \<open>
  The value of the dispatch semaphore and the count it was made with. The destructor returns the
  units it was made with before it releases the semaphore, because a release with fewer units than
  at creation traps.
\<close>

record MacSemaphore =
  mac_sem :: "nat option"
  mac_initial :: nat

definition Mac_new :: "bool \<Rightarrow> u32 \<Rightarrow> MacSemaphore" where
  "Mac_new created initial = \<lparr>mac_sem = (if created then Some (unat initial) else None), mac_initial = unat initial\<rparr>"

definition Mac_IsValid :: "MacSemaphore \<Rightarrow> bool" where
  "Mac_IsValid s = (mac_sem s \<noteq> None)"

definition Mac_TryWait :: "MacSemaphore \<Rightarrow> bool \<times> MacSemaphore" where
  "Mac_TryWait s =
     (case mac_sem s of
        None \<Rightarrow> (False, s)
      | Some n \<Rightarrow> if n = 0 then (False, s) else (True, s\<lparr>mac_sem := Some (n - 1)\<rparr>))"

definition Mac_Signal :: "MacSemaphore \<Rightarrow> MacSemaphore" where
  "Mac_Signal s = (case mac_sem s of None \<Rightarrow> s | Some n \<Rightarrow> s\<lparr>mac_sem := Some (Suc n)\<rparr>)"

definition Mac_destroy :: "MacSemaphore \<Rightarrow> (unit, MacSemaphore) outcome" where
  "Mac_destroy s =
     (let s = (Mac_Signal ^^ mac_initial s) s
      in case mac_sem s of
           None \<Rightarrow> Ret () s
         | Some n \<Rightarrow> if n < mac_initial s then Fault CheckFailed else Ret () (s\<lparr>mac_sem := None\<rparr>))"

definition mac_units :: "MacSemaphore \<Rightarrow> nat" where
  "mac_units s = (case mac_sem s of None \<Rightarrow> 0 | Some n \<Rightarrow> n)"

definition LONG_MAX_64 :: nat where "LONG_MAX_64 = 2 ^ 63 - 1"

interpretation mac: counting_semaphore Mac_TryWait Mac_Signal mac_units Mac_IsValid LONG_MAX_64
  by unfold_locales (auto simp: Mac_TryWait_def Mac_Signal_def mac_units_def Mac_IsValid_def split: if_splits)

section \<open>POSIX\<close>

text \<open>\<open>sem_init\<close> refuses counts above \<open>SEM_VALUE_MAX\<close>, and \<open>sem_post\<close> fails there; an interrupted call is repeated.\<close>

record PosixSemaphore =
  valid_m :: bool
  sem_value :: nat

definition SEM_VALUE_MAX :: nat where "SEM_VALUE_MAX = 2 ^ 31 - 1"

definition Posix_new :: "bool \<Rightarrow> u32 \<Rightarrow> PosixSemaphore" where
  "Posix_new created initial = \<lparr>valid_m = (created \<and> unat initial \<le> SEM_VALUE_MAX), sem_value = unat initial\<rparr>"

definition Posix_IsValid :: "PosixSemaphore \<Rightarrow> bool" where
  "Posix_IsValid s = valid_m s"

definition Posix_TryWait :: "PosixSemaphore \<Rightarrow> bool \<times> PosixSemaphore" where
  "Posix_TryWait s =
     (if \<not> valid_m s then (False, s)
      else if sem_value s = 0 then (False, s)
      else (True, s\<lparr>sem_value := sem_value s - 1\<rparr>))"

definition Posix_Signal :: "PosixSemaphore \<Rightarrow> PosixSemaphore" where
  "Posix_Signal s =
     (if \<not> valid_m s then s else if sem_value s < SEM_VALUE_MAX then s\<lparr>sem_value := Suc (sem_value s)\<rparr> else s)"

interpretation posix: counting_semaphore Posix_TryWait Posix_Signal sem_value Posix_IsValid SEM_VALUE_MAX
  by unfold_locales (auto simp: Posix_TryWait_def Posix_Signal_def Posix_IsValid_def)

section \<open>The platforms agree\<close>



text \<open>The destructor of the dispatch semaphore never traps, whatever units are taken.\<close>

lemma Mac_Signal_power: "mac_sem ((Mac_Signal ^^ k) s) = map_option (\<lambda>n. n + k) (mac_sem s) \<and> mac_initial ((Mac_Signal ^^ k) s) = mac_initial s"
  by (induction k) (auto simp: Mac_Signal_def option.map_ident split: option.split)

theorem Mac_destroy_returns: "\<exists>t. Mac_destroy s = Ret () t \<and> mac_sem t = None"
  using Mac_Signal_power [of "mac_initial s" s] by (auto simp: Mac_destroy_def Let_def split: option.split)

end
