(* ===== verification/Pipeline.thy ===== *)
theory Pipeline
  imports Semaphores "HOL-Library.Multiset"
begin

text \<open>
  The frame pipeline, \<^verbatim>\<open>src/pipeline/pipeline.{h,cpp}\<close>, over the counting semaphores of
  theory \<^verbatim>\<open>Semaphores\<close>. Producers and consumers run on different threads, so every operation is cut into its atomic steps: a semaphore call, an atomic increment, a
  critical section under \<open>queue_mutex_\<close>. The calls that are under way, and the continuations that
  producers hold, form a multiset of program counters; a step of the system is an atomic step of
  one of them. The theorems hold for any number of threads and for every interleaving.
\<close>

section \<open>The pipeline\<close>

datatype PipelineConsumeResult = NoneAvailable | Done | MoreAvailable

text \<open>A resource is a \<open>unique_ptr\<close>; \<open>None\<close> is the null pointer. The trace id counter is global.\<close>

record 'r pipeline =
  empty_m :: Semaphore
  available_m :: Semaphore
  inflight_m :: u32
  queue_m :: "('r option \<times> u64) list"
  PipelineLastTraceID :: u64

definition Pipeline_new :: "bool \<Rightarrow> bool \<Rightarrow> u32 \<Rightarrow> u64 \<Rightarrow> 'r pipeline" where
  "Pipeline_new created_empty created_available depth last_id =
     \<lparr>empty_m = Semaphore_new created_empty depth, available_m = Semaphore_new created_available 0,
      inflight_m = 0, queue_m = [], PipelineLastTraceID = last_id\<rparr>"

definition IsValid :: "'r pipeline \<Rightarrow> bool" where
  "IsValid p = (Semaphore_IsValid (empty_m p) \<and> Semaphore_IsValid (available_m p))"

definition GetNextPipelineTraceID :: "'r pipeline \<Rightarrow> u64 \<times> 'r pipeline" where
  "GetNextPipelineTraceID p =
     (let n = PipelineLastTraceID p + 1 in (n, p\<lparr>PipelineLastTraceID := n\<rparr>))"

text \<open>The function a continuation is bound to.\<close>

datatype Continuation = ProducerCommit | ProducerCommitIfEmpty

text \<open>
  Where a call or a continuation stands. \<open>Produce\<close> and \<open>ProduceIfEmpty\<close> are at \<open>Produce0\<close> before
  \<open>empty_.TryWait()\<close>, at \<open>Produce1\<close> before \<open>++inflight_\<close>, at \<open>Produce2\<close> before the trace id is drawn;
  \<open>Held\<close> is the continuation they return. A commit is at \<open>Commit0\<close> before its critical section and
  at \<open>Commit1\<close> before \<open>available_.Signal()\<close>. \<open>Consume\<close> is at \<open>Consume0\<close> (given a consumer or not)
  before \<open>available_.TryWait()\<close>, at \<open>Consume1\<close> before its critical section, then before the consumer
  is called, before \<open>empty_.Signal()\<close> and before \<open>--inflight_\<close>. The rest are results.
\<close>

datatype 'r pc =
    Produce0 Continuation
  | Produce1 Continuation
  | Produce2 Continuation
  | Held Continuation u64
  | Commit0 Continuation "'r option" u64
  | Commit1
  | Consume0 bool
  | Consume1
  | Consume2 "'r option" nat
  | Consume3 nat
  | Consume4 nat
  | Empty
  | Committed bool
  | Consumed PipelineConsumeResult

fun pc_step :: "'r pc \<Rightarrow> 'r pipeline \<Rightarrow> ('r pc, 'r pipeline) outcome" where
  "pc_step (Produce0 k) p =
     (let (ok, sem) = TryWait (empty_m p)
      in if \<not> ok then Ret Empty (p\<lparr>empty_m := sem\<rparr>) else Ret (Produce1 k) (p\<lparr>empty_m := sem\<rparr>))"
| "pc_step (Produce1 k) p = Ret (Produce2 k) (p\<lparr>inflight_m := inflight_m p + 1\<rparr>)"
| "pc_step (Produce2 k) p = (let (trace_id, p) = GetNextPipelineTraceID p in Ret (Held k trace_id) p)"
| "pc_step (Commit0 k resource trace_id) p =
     (case k of
        ProducerCommit \<Rightarrow> Ret Commit1 (p\<lparr>queue_m := queue_m p @ [(resource, trace_id)]\<rparr>)
      | ProducerCommitIfEmpty \<Rightarrow>
          if queue_m p \<noteq> [] then Ret (Committed False) (p\<lparr>empty_m := Signal (empty_m p)\<rparr>)
          else Ret Commit1 (p\<lparr>queue_m := queue_m p @ [(resource, trace_id)]\<rparr>))"
| "pc_step Commit1 p = Ret (Committed True) (p\<lparr>available_m := Signal (available_m p)\<rparr>)"
| "pc_step (Consume0 consumer) p =
     (if \<not> consumer then Ret (Consumed NoneAvailable) p
      else
        (let (ok, sem) = TryWait (available_m p)
         in if \<not> ok then Ret (Consumed NoneAvailable) (p\<lparr>available_m := sem\<rparr>)
            else Ret Consume1 (p\<lparr>available_m := sem\<rparr>)))"
| "pc_step Consume1 p =
     (case queue_m p of
        [] \<Rightarrow> Fault OutOfBounds
      | (resource, trace_id) # rest \<Rightarrow> Ret (Consume2 resource (length rest)) (p\<lparr>queue_m := rest\<rparr>))"
| "pc_step (Consume2 resource items_count) p = Ret (Consume3 items_count) p"
| "pc_step (Consume3 items_count) p = Ret (Consume4 items_count) (p\<lparr>empty_m := Signal (empty_m p)\<rparr>)"
| "pc_step (Consume4 items_count) p =
     Ret (Consumed (if items_count > 0 then MoreAvailable else Done)) (p\<lparr>inflight_m := inflight_m p - 1\<rparr>)"
| "pc_step pc p = Ret pc p"

section \<open>Whole operations\<close>

text \<open>The operations as the code has them, for a caller that is not interrupted.\<close>

record ProducerContinuation =
  continuation_m :: "Continuation option"
  trace_id_m :: u64

definition no_continuation :: ProducerContinuation where
  "no_continuation = \<lparr>continuation_m = None, trace_id_m = 0\<rparr>"

text \<open>Moving from a continuation clears it; move assignment swaps.\<close>

definition move_construct :: "ProducerContinuation \<Rightarrow> ProducerContinuation \<times> ProducerContinuation" where
  "move_construct other = (other, other\<lparr>continuation_m := None, trace_id_m := 0\<rparr>)"

definition move_assign ::
  "ProducerContinuation \<Rightarrow> ProducerContinuation \<Rightarrow> ProducerContinuation \<times> ProducerContinuation" where
  "move_assign this other = (other, this)"

definition produce :: "Continuation \<Rightarrow> 'r pipeline \<Rightarrow> ProducerContinuation \<times> 'r pipeline" where
  "produce k p =
     (let (ok, sem) = TryWait (empty_m p); p = p\<lparr>empty_m := sem\<rparr>
      in if \<not> ok then (no_continuation, p)
         else
           (let p = p\<lparr>inflight_m := inflight_m p + 1\<rparr>; (trace_id, p) = GetNextPipelineTraceID p
            in (\<lparr>continuation_m = Some k, trace_id_m = trace_id\<rparr>, p)))"

definition Produce :: "'r pipeline \<Rightarrow> ProducerContinuation \<times> 'r pipeline" where
  "Produce p = produce ProducerCommit p"

definition ProduceIfEmpty :: "'r pipeline \<Rightarrow> ProducerContinuation \<times> 'r pipeline" where
  "ProduceIfEmpty p = produce ProducerCommitIfEmpty p"

definition commit :: "Continuation \<Rightarrow> 'r option \<Rightarrow> u64 \<Rightarrow> 'r pipeline \<Rightarrow> bool \<times> 'r pipeline" where
  "commit k resource trace_id p =
     (if k = ProducerCommitIfEmpty \<and> queue_m p \<noteq> [] then (False, p\<lparr>empty_m := Signal (empty_m p)\<rparr>)
      else
        (let p = p\<lparr>queue_m := queue_m p @ [(resource, trace_id)]\<rparr>
         in (True, p\<lparr>available_m := Signal (available_m p)\<rparr>)))"

definition Complete ::
  "'r option \<Rightarrow> ProducerContinuation \<Rightarrow> 'r pipeline \<Rightarrow> bool \<times> ProducerContinuation \<times> 'r pipeline" where
  "Complete resource c p =
     (case continuation_m c of
        None \<Rightarrow> (False, c, p)
      | Some k \<Rightarrow>
          (let (result, p) = commit k resource (trace_id_m c) p in (result, c\<lparr>continuation_m := None\<rparr>, p)))"

definition delete_continuation :: "ProducerContinuation \<Rightarrow> 'r pipeline \<Rightarrow> 'r pipeline" where
  "delete_continuation c p =
     (case continuation_m c of None \<Rightarrow> p | Some k \<Rightarrow> snd (commit k None (trace_id_m c) p))"

text \<open>The consumer acts on a state of the application.\<close>

definition Consume ::
  "('r option \<Rightarrow> 'w \<Rightarrow> 'w) option \<Rightarrow> 'w \<Rightarrow> 'r pipeline \<Rightarrow> (PipelineConsumeResult \<times> 'w, 'r pipeline) outcome" where
  "Consume consumer w p =
     (case consumer of
        None \<Rightarrow> Ret (NoneAvailable, w) p
      | Some f \<Rightarrow>
          (let (ok, sem) = TryWait (available_m p); p = p\<lparr>available_m := sem\<rparr>
           in if \<not> ok then Ret (NoneAvailable, w) p
              else case queue_m p of
                [] \<Rightarrow> Fault OutOfBounds
              | (resource, trace_id) # rest \<Rightarrow>
                  (let p = p\<lparr>queue_m := rest\<rparr>; items_count = length rest; w = f resource w;
                       p = p\<lparr>empty_m := Signal (empty_m p)\<rparr>; p = p\<lparr>inflight_m := inflight_m p - 1\<rparr>
                   in Ret (if items_count > 0 then MoreAvailable else Done, w) p)))"

text \<open>The atomic steps, taken without interruption, are the operations.\<close>

primrec run_steps :: "nat \<Rightarrow> 'r pc \<Rightarrow> 'r pipeline \<Rightarrow> ('r pc, 'r pipeline) outcome" where
  "run_steps 0 pc p = Ret pc p"
| "run_steps (Suc n) pc p = andThen (pc_step pc p) (run_steps n)"

lemmas run_simps = numeral_eq_Suc TryWait_def GetNextPipelineTraceID_def Let_def no_continuation_def

lemma produce_atomic:
  "run_steps 3 (Produce0 k) p =
     (case produce k p of (c, p') \<Rightarrow>
        Ret (case continuation_m c of None \<Rightarrow> Empty | Some k' \<Rightarrow> Held k' (trace_id_m c)) p')"
  by (auto simp: run_simps produce_def split: option.splits nat.splits)

lemma commit_atomic: "run_steps 2 (Commit0 k r t) p = (case commit k r t p of (b, p') \<Rightarrow> Ret (Committed b) p')"
  by (cases k) (auto simp: run_simps commit_def)

lemma Consume_atomic:
  "run_steps 5 (Consume0 (consumer \<noteq> None)) p = andThen (Consume consumer w p) (\<lambda>(r, w) p. Ret (Consumed r) p)"
  by (auto simp: run_simps Consume_def split: option.splits nat.splits list.splits)

section \<open>Interleaving\<close>

text \<open>
  The pipeline with everything that is under way. What has been pushed and popped so far, and how
  often a commit has bailed out, are recorded beside it.
\<close>

record 'r system =
  pipe :: "'r pipeline"
  active :: "'r pc multiset"
  pushed :: "('r option \<times> u64) list"
  popped :: "('r option \<times> u64) list"
  bails :: nat

definition system_of :: "'r pipeline \<Rightarrow> 'r system" where
  "system_of p = \<lparr>pipe = p, active = {#}, pushed = [], popped = [], bails = 0\<rparr>"

definition after :: "'r pc \<Rightarrow> 'r pc \<Rightarrow> 'r system \<Rightarrow> 'r system" where
  "after pc pc' S =
     (case pc of
        Commit0 k r t \<Rightarrow>
          if pc' = Commit1 then S\<lparr>pushed := pushed S @ [(r, t)]\<rparr> else S\<lparr>bails := Suc (bails S)\<rparr>
      | Consume1 \<Rightarrow> S\<lparr>popped := popped S @ [hd (queue_m (pipe S))]\<rparr>
      | _ \<Rightarrow> S)"

text \<open>
  Somebody calls an operation; the owner of a continuation completes it with a resource, or
  destroys it, which commits a null pointer; or something under way takes its next atomic step.
\<close>

inductive sys_step :: "'r system \<Rightarrow> 'r system \<Rightarrow> bool" where
  call_produce: "sys_step S (S\<lparr>active := add_mset (Produce0 k) (active S)\<rparr>)"
| call_consume: "sys_step S (S\<lparr>active := add_mset (Consume0 consumer) (active S)\<rparr>)"
| complete: "active S = add_mset (Held k t) A \<Longrightarrow> sys_step S (S\<lparr>active := add_mset (Commit0 k r t) A\<rparr>)"
| run: "active S = add_mset pc A \<Longrightarrow> pc_step pc (pipe S) = Ret pc' p \<Longrightarrow>
    sys_step S ((after pc pc' S)\<lparr>pipe := p, active := add_mset pc' A\<rparr>)"

inductive sys_reach :: "'r system \<Rightarrow> 'r system \<Rightarrow> bool" where
  refl: "sys_reach S S"
| step: "sys_reach S T \<Longrightarrow> sys_step T U \<Longrightarrow> sys_reach S U"

section \<open>The accounting\<close>

text \<open>
  What something under way has taken from each account: a slot reserved in \<open>empty_\<close> for a resource
  that is not in the queue, a resource in the queue that \<open>available_\<close> does not show, and a unit of
  \<open>inflight_\<close> for a resource that is not in the queue.
\<close>

fun slots :: "'r pc \<Rightarrow> nat" where
  "slots (Produce1 _) = 1" | "slots (Produce2 _) = 1" | "slots (Held _ _) = 1" | "slots (Commit0 _ _ _) = 1"
| "slots (Consume2 _ _) = 1" | "slots (Consume3 _) = 1" | "slots _ = 0"

fun tokens :: "'r pc \<Rightarrow> nat" where
  "tokens Commit1 = 1" | "tokens Consume1 = 1" | "tokens _ = 0"

fun flights :: "'r pc \<Rightarrow> nat" where
  "flights (Produce2 _) = 1" | "flights (Held _ _) = 1" | "flights (Commit0 _ _ _) = 1"
| "flights (Consume2 _ _) = 1" | "flights (Consume3 _) = 1" | "flights (Consume4 _) = 1" | "flights _ = 0"

definition total :: "('a \<Rightarrow> nat) \<Rightarrow> 'a multiset \<Rightarrow> nat" where
  "total f A = sum_mset (image_mset f A)"

lemma total_simps [simp]: "total f {#} = 0" "total f (add_mset x A) = f x + total f A"
  by (simp_all add: total_def)

definition pipe_inv :: "nat \<Rightarrow> 'r system \<Rightarrow> bool" where
  "pipe_inv depth S \<longleftrightarrow> depth \<le> LONG_MAX \<and> IsValid (pipe S) \<and>
     units (empty_m (pipe S)) + total slots (active S) + length (queue_m (pipe S)) = depth \<and>
     units (available_m (pipe S)) + total tokens (active S) = length (queue_m (pipe S)) \<and>
     inflight_m (pipe S) = of_nat (total flights (active S) + length (queue_m (pipe S)) + bails S) \<and>
     popped S @ queue_m (pipe S) = pushed S"

lemma TryWait_cases:
  assumes "Semaphore_IsValid sem"
  obtains (failed) "TryWait sem = (False, sem)" "units sem = 0"
    | (passed) sem' where "TryWait sem = (True, sem')" "units sem = Suc (units sem')" "Semaphore_IsValid sem'"
proof (cases "fst (TryWait sem)")
  case True
  then have "TryWait sem = (True, snd (TryWait sem))" by (metis prod.collapse)
  then show ?thesis using sem.passed_wait [OF assms True] sem.valid_try_wait [OF assms] by (rule passed)
next
  case False
  then have "TryWait sem = (False, sem)" by (auto simp: TryWait_def split: option.splits nat.splits)
  then show ?thesis using sem.failed_wait [OF assms False] by (intro failed) simp_all
qed

lemma pipe_inv_run:
  assumes "pipe_inv depth S" "active S = add_mset pc A" "pc_step pc (pipe S) = Ret pc' p"
  shows "pipe_inv depth ((after pc pc' S)\<lparr>pipe := p, active := add_mset pc' A\<rparr>)"
proof (cases pc)
  case (Produce0 k)
  have "Semaphore_IsValid (empty_m (pipe S))" using assms(1) by (simp add: pipe_inv_def IsValid_def)
  then show ?thesis
    by (cases rule: TryWait_cases) (use assms Produce0 in \<open>auto simp: pipe_inv_def IsValid_def after_def\<close>)
next
  case (Consume0 b)
  have "Semaphore_IsValid (available_m (pipe S))" using assms(1) by (simp add: pipe_inv_def IsValid_def)
  then show ?thesis
    by (cases rule: TryWait_cases)
      (use assms Consume0 in \<open>auto simp: pipe_inv_def IsValid_def after_def split: if_splits\<close>)
next
  case (Commit0 k r t)
  then show ?thesis
    using assms by (cases k) (auto simp: pipe_inv_def IsValid_def after_def sem.units_signal sem.valid_signal split: if_splits)
next
  case Consume1
  then show ?thesis
    using assms by (auto simp: pipe_inv_def IsValid_def after_def split: list.splits)
qed (use assms in \<open>auto simp: pipe_inv_def IsValid_def after_def sem.units_signal sem.valid_signal GetNextPipelineTraceID_def Let_def\<close>)

lemma pipe_inv_step: "sys_step S T \<Longrightarrow> pipe_inv depth S \<Longrightarrow> pipe_inv depth T"
proof (induction rule: sys_step.induct)
  case (run S pc A pc' p)
  then show ?case using pipe_inv_run by blast
qed (auto simp: pipe_inv_def)

lemma pipe_inv_reach: "sys_reach S T \<Longrightarrow> pipe_inv depth S \<Longrightarrow> pipe_inv depth T"
  by (induction rule: sys_reach.induct) (auto intro: pipe_inv_step)

lemma pipe_inv_new: "unat depth \<le> LONG_MAX \<Longrightarrow> pipe_inv (unat depth) (system_of (Pipeline_new True True depth last_id))"
  by (simp add: pipe_inv_def system_of_def Pipeline_new_def IsValid_def Semaphore_new_def Semaphore_IsValid_def units_def LONG_MAX_def)

text \<open>
  C26. Whatever the threads do, and in whatever order their atomic steps happen, the pipeline never
  holds more than \<open>depth\<close> resources, hands them over exactly in the order they were committed, and
  no step fails: a consumer that passed \<open>available_\<close> always finds something at the front of the
  queue.
\<close>
theorem pipeline_safe:
  assumes "unat depth \<le> LONG_MAX" "sys_reach (system_of (Pipeline_new True True depth last_id)) S"
  shows "length (queue_m (pipe S)) \<le> unat depth \<and> popped S @ queue_m (pipe S) = pushed S \<and>
    (\<forall>pc \<in># active S. \<exists>pc' p. pc_step pc (pipe S) = Ret pc' p)"
proof -
  have inv: "pipe_inv (unat depth) S" by (rule pipe_inv_reach [OF assms(2) pipe_inv_new [OF assms(1)]])
  have "\<exists>pc' p. pc_step pc (pipe S) = Ret pc' p" if m: "pc \<in># active S" for pc
  proof -
    obtain A where "active S = add_mset pc A" using multi_member_split [OF m] by blast
    then have "pc = Consume1 \<Longrightarrow> queue_m (pipe S) \<noteq> []" using inv by (auto simp: pipe_inv_def)
    then show ?thesis
      by (cases pc)
        (auto simp: GetNextPipelineTraceID_def Let_def split: prod.splits Continuation.splits list.splits)
  qed
  then show ?thesis using inv by (auto simp: pipe_inv_def)
qed

lemma run_steps_reach:
  assumes "sys_reach S0 S" "active S = add_mset pc A" "run_steps n pc (pipe S) = Ret pc' p"
  shows "\<exists>T. sys_reach S0 T \<and> pipe T = p \<and> active T = add_mset pc' A"
  using assms
proof (induction n arbitrary: S pc)
  case (Suc n)
  obtain pc1 p1 where r: "pc_step pc (pipe S) = Ret pc1 p1" "run_steps n pc1 p1 = Ret pc' p"
    using Suc.prems(3) by (auto simp: andThen_eq_Ret)
  let ?T = "(after pc pc1 S)\<lparr>pipe := p1, active := add_mset pc1 A\<rparr>"
  have "sys_reach S0 ?T" by (rule sys_reach.step [OF Suc.prems(1) sys_step.run [OF Suc.prems(2) r(1)]])
  then show ?case by (rule Suc.IH) (use r(2) in simp_all)
qed auto

definition sample_pipe :: "nat pipeline" where
  "sample_pipe = Pipeline_new True True 2 0"

lemma sample_reach:
  "\<exists>S. sys_reach (system_of sample_pipe) S \<and> active S = {#Committed True#} \<and> queue_m (pipe S) = [(Some 42, 1)]"
proof -
  let ?S = "(system_of sample_pipe)\<lparr>active := {#Produce0 ProducerCommit#}\<rparr>"
  have 1: "sys_reach (system_of sample_pipe) ?S"
    using sys_reach.step [OF sys_reach.refl sys_step.call_produce [of "system_of sample_pipe" ProducerCommit]]
    by (simp add: system_of_def)
  have "run_steps 3 (Produce0 ProducerCommit) (pipe ?S) =
      Ret (Held ProducerCommit 1) \<lparr>empty_m = Some 1, available_m = Some 0, inflight_m = 1, queue_m = [], PipelineLastTraceID = 1\<rparr>"
    unfolding produce_atomic
    by (simp add: produce_def TryWait_def GetNextPipelineTraceID_def system_of_def sample_pipe_def Pipeline_new_def
        Semaphore_new_def LONG_MAX_def Let_def)
  from run_steps_reach [OF 1 _ this, of "{#}"] obtain T where T: "sys_reach (system_of sample_pipe) T"
      "pipe T = \<lparr>empty_m = Some 1, available_m = Some 0, inflight_m = 1, queue_m = [], PipelineLastTraceID = 1\<rparr>"
      "active T = {#Held ProducerCommit 1#}" by auto
  let ?T = "T\<lparr>active := {#Commit0 ProducerCommit (Some 42) 1#}\<rparr>"
  have 2: "sys_reach (system_of sample_pipe) ?T"
    by (rule sys_reach.step [OF T(1) sys_step.complete [OF T(3)]])
  have "run_steps 2 (Commit0 ProducerCommit (Some 42) 1) (pipe ?T) =
      Ret (Committed True) \<lparr>empty_m = Some 1, available_m = Some 1, inflight_m = 1, queue_m = [(Some 42, 1)], PipelineLastTraceID = 1\<rparr>"
    unfolding commit_atomic by (simp add: commit_def T(2) Signal_def LONG_MAX_def)
  from run_steps_reach [OF 2 _ this, of "{#}"] show ?thesis by auto
qed

theorem pipeline_safe_witness:
  "\<exists>S. sys_reach (system_of sample_pipe) S \<and> queue_m (pipe S) = [(Some 42, 1)] \<and> popped S @ [(Some 42, 1)] = pushed S"
proof -
  obtain S where S: "sys_reach (system_of sample_pipe) S" "queue_m (pipe S) = [(Some 42, 1)]"
    using sample_reach by blast
  have "unat (2 :: u32) \<le> LONG_MAX" by (simp add: LONG_MAX_def)
  from pipeline_safe [OF this S(1) [unfolded sample_pipe_def]] S show ?thesis by auto
qed

section \<open>At rest\<close>

fun at_rest :: "'r pc \<Rightarrow> bool" where
  "at_rest (Held _ _) = True" | "at_rest Empty = True" | "at_rest (Committed _) = True"
| "at_rest (Consumed _) = True" | "at_rest _ = False"

fun is_held :: "'r pc \<Rightarrow> bool" where
  "is_held (Held _ _) = True" | "is_held _ = False"

definition held :: "'r system \<Rightarrow> nat" where
  "held S = size (filter_mset is_held (active S))"

lemma at_rest_totals:
  "\<forall>pc \<in># A. at_rest pc \<Longrightarrow>
    total slots A = size (filter_mset is_held A) \<and> total tokens A = 0 \<and> total flights A = size (filter_mset is_held A)"
proof (induction A)
  case (add pc A)
  then show ?case by (cases pc) auto
qed simp

text \<open>
  C27. The books balance: whenever no call is under way, \<open>Produce\<close> yields a continuation exactly
  if the continuations still held and the resources in the queue leave a slot free; \<open>Consume\<close>
  hands over the oldest resource, reports whether more are available, and only comes back empty
  if the queue is empty; and \<open>inflight_\<close> exceeds the number of resources and continuations by the
  number of commits that bailed out.
\<close>
theorem pipeline_at_rest:
  assumes "unat depth \<le> LONG_MAX" "sys_reach (system_of (Pipeline_new True True depth last_id)) S"
    "\<forall>pc \<in># active S. at_rest pc"
  shows "(continuation_m (fst (Produce (pipe S))) \<noteq> None \<longleftrightarrow> held S + length (queue_m (pipe S)) < unat depth) \<and>
    (case queue_m (pipe S) of
       [] \<Rightarrow> Consume (Some f) w (pipe S) = Ret (NoneAvailable, w) (pipe S)
     | (r, t) # rest \<Rightarrow>
         \<exists>p. Consume (Some f) w (pipe S) = Ret (if rest = [] then Done else MoreAvailable, f r w) p \<and> queue_m p = rest) \<and>
    inflight_m (pipe S) = of_nat (held S + length (queue_m (pipe S)) + bails S)"
proof -
  have "pipe_inv (unat depth) S" by (rule pipe_inv_reach [OF assms(2) pipe_inv_new [OF assms(1)]])
  then have e: "units (empty_m (pipe S)) + held S + length (queue_m (pipe S)) = unat depth"
    and a: "units (available_m (pipe S)) = length (queue_m (pipe S))"
    and i: "inflight_m (pipe S) = of_nat (held S + length (queue_m (pipe S)) + bails S)"
    and v: "Semaphore_IsValid (empty_m (pipe S))" "Semaphore_IsValid (available_m (pipe S))"
    using at_rest_totals [OF assms(3)] by (simp_all add: pipe_inv_def held_def IsValid_def)
  have "continuation_m (fst (Produce (pipe S))) \<noteq> None \<longleftrightarrow> fst (TryWait (empty_m (pipe S)))"
    by (auto simp: Produce_def produce_def no_continuation_def GetNextPipelineTraceID_def Let_def split: prod.splits)
  then have P: "continuation_m (fst (Produce (pipe S))) \<noteq> None \<longleftrightarrow> held S + length (queue_m (pipe S)) < unat depth"
    using sem.try_wait_iff [OF v(1)] e by auto
  show ?thesis
  proof (cases "queue_m (pipe S)")
    case Nil
    then have "TryWait (available_m (pipe S)) = (False, available_m (pipe S))"
      using a by (cases rule: TryWait_cases [OF v(2)]) simp_all
    then show ?thesis using Nil P i by (simp add: Consume_def)
  next
    case (Cons x rest)
    obtain r t where x: "x = (r, t)" by (cases x)
    obtain sem' where "TryWait (available_m (pipe S)) = (True, sem')"
      using a Cons by (cases rule: TryWait_cases [OF v(2)]) simp_all
    then show ?thesis using Cons x P i by (auto simp: Consume_def Let_def)
  qed
qed

theorem pipeline_at_rest_witness:
  "\<exists>S. sys_reach (system_of sample_pipe) S \<and> continuation_m (fst (Produce (pipe S))) \<noteq> None \<and>
    (\<exists>p. Consume (Some (\<lambda>r w. r # w)) [] (pipe S) = Ret (Done, [Some 42]) p \<and> queue_m p = [])"
proof -
  obtain S where S: "sys_reach (system_of sample_pipe) S" "active S = {#Committed True#}" "queue_m (pipe S) = [(Some 42, 1)]"
    using sample_reach by blast
  have d: "unat (2 :: u32) \<le> LONG_MAX" by (simp add: LONG_MAX_def)
  have "held S = 0" using S(2) by (simp add: held_def)
  with pipeline_at_rest [OF d S(1) [unfolded sample_pipe_def], of "\<lambda>r w. r # w" "[]"] S show ?thesis by auto
qed

text \<open>
  A continuation commits exactly once. Completing it pushes the resource and makes it
  available; completing it again, or destroying it afterwards, changes nothing. A continuation
  that is destroyed without having been completed pushes a null pointer instead.
\<close>
theorem continuation_commits_once:
  assumes "Produce p = (c, q)" "continuation_m c \<noteq> None"
  shows "\<exists>c' q'. Complete r c q = (True, c', q') \<and> queue_m q' = queue_m p @ [(r, trace_id_m c)] \<and>
    available_m q' = Signal (available_m p) \<and>
    Complete r' c' q' = (False, c', q') \<and> delete_continuation c' q' = q' \<and>
    delete_continuation c q = snd (snd (Complete None c q))"
proof -
  have c: "continuation_m c = Some ProducerCommit" "queue_m q = queue_m p" "available_m q = available_m p"
    using assms by (auto simp: Produce_def produce_def no_continuation_def GetNextPipelineTraceID_def Let_def
        split: prod.splits if_splits)
  then show ?thesis
    by (auto simp: Complete_def commit_def delete_continuation_def Let_def)
qed

theorem continuation_commits_once_witness:
  "\<exists>c q c' q'. Produce sample_pipe = (c, q) \<and> Complete (Some 42) c q = (True, c', q') \<and>
    queue_m q' = [(Some 42, 1)] \<and> delete_continuation c' q' = q'"
proof -
  have "Produce sample_pipe = (\<lparr>continuation_m = Some ProducerCommit, trace_id_m = 1\<rparr>,
      \<lparr>empty_m = Some 1, available_m = Some 0, inflight_m = 1, queue_m = [], PipelineLastTraceID = 1\<rparr>)"
    by (simp add: Produce_def produce_def TryWait_def GetNextPipelineTraceID_def sample_pipe_def Pipeline_new_def
        Semaphore_new_def LONG_MAX_def Let_def)
  from continuation_commits_once [OF this, of "Some 42" None] this show ?thesis
    by (auto simp: sample_pipe_def Pipeline_new_def)
qed

end
