(* ===== verification/Unit_Tests.thy ===== *)
theory Unit_Tests
  imports Pipeline Base64 Message_Loop
begin

text \<open>
  The deterministic unit tests of the repository, run on the model: the tests of the frame pipeline,
  \<^verbatim>\<open>src/pipeline/pipeline_unittests.cpp\<close>, for all resources and starting trace ids instead of the
  constants of the tests, and the vectors of \<^verbatim>\<open>base64_unittests.cpp\<close>. Every \<open>ASSERT_EQ\<close> of a test is a
  conjunct of its definition. The tests \<open>NonDelayedTasksAreRunInOrder\<close> and \<open>TaskObserverFire\<close> of
  \<^verbatim>\<open>message_loop_unittests.cpp\<close> are a theorem for all lists of tasks and observers.
\<close>

section \<open>The pipeline\<close>

text \<open>A pipeline of a depth whose semaphores could be created, and a consumer that compares its resource.\<close>

definition make_pipeline :: "u32 \<Rightarrow> u64 \<Rightarrow> 'r pipeline" where
  "make_pipeline depth last_id = Pipeline_new True True depth last_id"

definition consumes :: "'r \<Rightarrow> PipelineConsumeResult \<Rightarrow> 'r pipeline \<Rightarrow> ('r pipeline \<Rightarrow> bool) \<Rightarrow> bool" where
  "consumes v expected p continue =
     (case Consume (Some (\<lambda>r asserts. asserts @ [r = Some v])) [] p of
        Ret (consume_result, asserts) p \<Rightarrow> consume_result = expected \<and> asserts = [True] \<and> continue p
      | Fault e \<Rightarrow> False)"

definition ConsumeOneVal :: "'r \<Rightarrow> u64 \<Rightarrow> bool" where
  "ConsumeOneVal test_val last_id =
     (let pipeline = make_pipeline 2 last_id;
          (continuation, pipeline) = Produce pipeline;
          (result, continuation, pipeline) = Complete (Some test_val) continuation pipeline
      in result = True \<and> consumes test_val Done pipeline (\<lambda>_. True))"

definition ContinuationCanOnlyBeUsedOnce :: "'r \<Rightarrow> u64 \<Rightarrow> bool" where
  "ContinuationCanOnlyBeUsedOnce test_val last_id =
     (let pipeline = make_pipeline 2 last_id;
          (continuation, pipeline) = Produce pipeline;
          (result, continuation, pipeline) = Complete (Some test_val) continuation pipeline
      in result = True \<and>
         consumes test_val Done pipeline (\<lambda>pipeline.
           let (result, continuation, pipeline) = Complete (Some test_val) continuation pipeline
           in result = False \<and>
              (case Consume (Some (\<lambda>r fails. True)) False pipeline of
                 Ret (consume_result_2, fails) pipeline \<Rightarrow>
                   (let (result, continuation, pipeline) = Complete (Some test_val) continuation pipeline
                    in result = False) \<and> consume_result_2 = NoneAvailable \<and> \<not> fails
               | Fault e \<Rightarrow> False)))"

definition PushingMoreThanDepthCompletesFirstSubmission :: "'r \<Rightarrow> 'r \<Rightarrow> u64 \<Rightarrow> bool" where
  "PushingMoreThanDepthCompletesFirstSubmission test_val_1 test_val_2 last_id =
     (let pipeline = make_pipeline 1 last_id;
          (continuation_1, pipeline) = Produce pipeline;
          (continuation_2, pipeline) = Produce pipeline;
          (result_1, continuation_1, pipeline) = Complete (Some test_val_1) continuation_1 pipeline;
          (result_2, continuation_2, pipeline) = Complete (Some test_val_2) continuation_2 pipeline
      in result_1 = True \<and> result_2 = False \<and> consumes test_val_1 Done pipeline (\<lambda>_. True))"

definition PushingMultiProcessesInOrder :: "'r \<Rightarrow> 'r \<Rightarrow> u64 \<Rightarrow> bool" where
  "PushingMultiProcessesInOrder test_val_1 test_val_2 last_id =
     (let pipeline = make_pipeline 2 last_id;
          (continuation_1, pipeline) = Produce pipeline;
          (continuation_2, pipeline) = Produce pipeline;
          (result_1, continuation_1, pipeline) = Complete (Some test_val_1) continuation_1 pipeline;
          (result_2, continuation_2, pipeline) = Complete (Some test_val_2) continuation_2 pipeline
      in result_1 = True \<and> result_2 = True \<and>
         consumes test_val_1 MoreAvailable pipeline (\<lambda>pipeline. consumes test_val_2 Done pipeline (\<lambda>_. True)))"

definition ProduceIfEmptyDoesNotConsumeWhenQueueIsNotEmpty :: "'r \<Rightarrow> 'r \<Rightarrow> u64 \<Rightarrow> bool" where
  "ProduceIfEmptyDoesNotConsumeWhenQueueIsNotEmpty test_val_1 test_val_2 last_id =
     (let pipeline = make_pipeline 2 last_id;
          (continuation_1, pipeline) = Produce pipeline;
          (continuation_2, pipeline) = ProduceIfEmpty pipeline;
          (result_1, continuation_1, pipeline) = Complete (Some test_val_1) continuation_1 pipeline;
          (result_2, continuation_2, pipeline) = Complete (Some test_val_2) continuation_2 pipeline
      in result_1 = True \<and> result_2 = False \<and> consumes test_val_1 Done pipeline (\<lambda>_. True))"

definition ProduceIfEmptySuccessfulIfQueueIsEmpty :: "'r \<Rightarrow> u64 \<Rightarrow> bool" where
  "ProduceIfEmptySuccessfulIfQueueIsEmpty test_val_1 last_id =
     (let pipeline = make_pipeline 1 last_id;
          (continuation_1, pipeline) = ProduceIfEmpty pipeline;
          (result, continuation_1, pipeline) = Complete (Some test_val_1) continuation_1 pipeline
      in result = True \<and> consumes test_val_1 Done pipeline (\<lambda>_. True))"

lemma Semaphore_new_small:
  "Semaphore_new True 2 = Some (Suc (Suc 0))" "Semaphore_new True 1 = Some (Suc 0)" "Semaphore_new True 0 = Some 0"
  by (simp_all add: Semaphore_new_def LONG_MAX_def)

lemmas pipeline_runs = make_pipeline_def Pipeline_new_def Produce_def ProduceIfEmpty_def produce_def Complete_def commit_def
  Consume_def consumes_def TryWait_def Signal_def GetNextPipelineTraceID_def Semaphore_new_small LONG_MAX_def Let_def
  no_continuation_def

theorem pipeline_unittests_pass:
  "ConsumeOneVal v id0 \<and> ContinuationCanOnlyBeUsedOnce v id0 \<and>
   PushingMoreThanDepthCompletesFirstSubmission v w id0 \<and> PushingMultiProcessesInOrder v w id0 \<and>
   ProduceIfEmptyDoesNotConsumeWhenQueueIsNotEmpty v w id0 \<and> ProduceIfEmptySuccessfulIfQueueIsEmpty v id0"
  unfolding ConsumeOneVal_def ContinuationCanOnlyBeUsedOnce_def PushingMoreThanDepthCompletesFirstSubmission_def
    PushingMultiProcessesInOrder_def ProduceIfEmptyDoesNotConsumeWhenQueueIsNotEmpty_def
    ProduceIfEmptySuccessfulIfQueueIsEmpty_def
  by (simp add: pipeline_runs)

section \<open>Base64\<close>

text \<open>The pairs of the encoding and decoding tests.\<close>

definition base64_vectors :: "(string \<times> string) list" where
  "base64_vectors =
     [(''abcd'', ''YWJjZA==''),
      (''A'', ''QQ==''),
      (''BC'', ''QkM=''),
      (''Man'', ''TWFu''),
      (''5qyi6L+O5L2/55So5pys5bel5YW3'', ''NXF5aTZMK081TDIvNTVTbzVweXM1YmVsNVlXMw=='')]"

theorem base64_unittests_pass:
  "list_all (\<lambda>(plain, encoded). EncodeBase64 (to_bytes plain) = encoded \<and> DecodeBase64 encoded = Some (to_bytes plain))
     base64_vectors"
  by code_simp

section \<open>Message loops\<close>

text \<open>A program posts tasks one after the other to the task runner of its loop, and then runs the loop.\<close>

fun post_all :: "('t, 'w) platform \<Rightarrow> u64 \<Rightarrow> 't list \<Rightarrow> ('t, 'w) runtime \<Rightarrow> (unit, ('t, 'w) runtime) outcome" where
  "post_all P loop [] s = Ret () s"
| "post_all P loop (f # fs) s = andThen (TaskRunner_PostTask P loop (Some f) s) (\<lambda>_ s. post_all P loop fs s)"

definition post_and_run :: "('t, 'w) platform \<Rightarrow> nat \<Rightarrow> u64 \<Rightarrow> 't list \<Rightarrow> ('t, 'w) runtime \<Rightarrow> (bool, ('t, 'w) runtime) outcome" where
  "post_and_run P n loop fs s = andThen (post_all P loop fs s) (\<lambda>_ s. DoRun P n [[]] loop s)"

text \<open>All tasks of a queue are due.\<close>

definition all_due :: "('t, 'w) platform \<Rightarrow> u64 \<Rightarrow> ('t, 'w) runtime \<Rightarrow> bool" where
  "all_due P q s \<longleftrightarrow> (\<forall>d \<in> set (queue_of s q). target_time_m d \<le> clock P (clock_reads s))"

lemma post_one:
  assumes P: "platform_ok P" "q \<noteq> unmerged" and s: "queues_inv k s" "k < 2 ^ 32" "queue_entries_m s q = Some e"
    "\<not> terminated_m s q" "all_due P q s"
  obtains t e' where "TaskRunner_PostTask P q (Some f) s = Ret () t" "queues_inv (Suc k) t" "\<not> terminated_m t q" "all_due P q t"
    "map task_m (queue_of t q) = map task_m (queue_of s q) @ [f]" "app t = app s"
    "queue_entries_m t q = Some e'" "wakeable e' = wakeable e" "task_observers e' = task_observers e"
    "wakeable e \<noteq> None \<Longrightarrow> timers t q \<noteq> None"
proof -
  let ?now = "clock P (clock_reads s)" and ?s = "s\<lparr>clock_reads := Suc (clock_reads s)\<rparr>"
  have i: "queues_inv k ?s" "queue_entries_m ?s q = Some e" "queue_of ?s q = queue_of s q" "is_int64 ?now"
    using s(1,3) P(1) by (simp_all add: queues_inv_def queue_of_def platform_ok_def is_int64_def int64_min_def int64_max_def)
      (metis order_trans neg_le_0_iff_le zero_le_numeral)
  obtain t where t: "RegisterTask P q f ?now ?s = Ret () t" "queues_inv (Suc k) t"
    "queue_of t q = queue_of s q @ [\<lparr>order_m = post_order k, task_m = f, target_time_m = ?now\<rparr>]"
    "wakeable e \<noteq> None \<longrightarrow> timers t q \<noteq> None"
    using RegisterTask_works [OF P(1) i(1) s(2) i(2) P(2) i(4), of f] s(5)
    unfolding i(3) all_due_def armed_def by (auto simp: filter_id_conv filter_empty_conv not_less)
  note f = RegisterTask_frame [OF i(1,2) P(2) i(4) t(1)]
  have "clock P (clock_reads s) \<le> clock P (clock_reads t)"
    using P(1) f(3) by (auto simp: platform_ok_def elim!: monoD)
  then have "all_due P q t" using s(5) t(3) by (auto simp: all_due_def)
  moreover have "TaskRunner_PostTask P q (Some f) s = Ret () t"
    using t(1) s(4) by (simp add: TaskRunner_PostTask_def PostTask_def Now_def)
  ultimately show ?thesis using that t f s(4) by auto
qed

lemma post_all_works:
  assumes P: "platform_ok P" "q \<noteq> unmerged"
  shows "queues_inv k s \<Longrightarrow> k + length fs \<le> 2 ^ 32 \<Longrightarrow> queue_entries_m s q = Some e \<Longrightarrow> \<not> terminated_m s q \<Longrightarrow> all_due P q s \<Longrightarrow>
    wakeable e \<noteq> None \<Longrightarrow> fs \<noteq> [] \<or> timers s q \<noteq> None \<Longrightarrow>
    \<exists>t e'. post_all P q fs s = Ret () t \<and> queues_inv (k + length fs) t \<and> \<not> terminated_m t q \<and> all_due P q t \<and>
      map task_m (queue_of t q) = map task_m (queue_of s q) @ fs \<and> app t = app s \<and> timers t q \<noteq> None \<and>
      queue_entries_m t q = Some e' \<and> task_observers e' = task_observers e"
proof (induction fs arbitrary: k s e)
  case (Cons f fs)
  have k: "k < 2 ^ 32" using Cons.prems(2) by simp
  obtain t e' where t: "TaskRunner_PostTask P q (Some f) s = Ret () t" "queues_inv (Suc k) t" "\<not> terminated_m t q" "all_due P q t"
    "map task_m (queue_of t q) = map task_m (queue_of s q) @ [f]" "app t = app s"
    "queue_entries_m t q = Some e'" "wakeable e' = wakeable e" "task_observers e' = task_observers e"
    "wakeable e \<noteq> None \<Longrightarrow> timers t q \<noteq> None"
    by (rule post_one [OF P Cons.prems(1) k Cons.prems(3-5), of f]) blast
  show ?case
    using Cons.IH [OF t(2) _ t(7,3,4)] Cons.prems(2,6) t by auto
qed auto

text \<open>
  C32. Posted tasks run in the order of posting, and the observers fire after each: a loop with an
  empty queue is given any list of tasks that post nothing, one of which stops the loop, and is
  then run; if no more than \<open>2^32\<close> tasks have been posted in all, it returns, and every task has run
  exactly once, in order, each followed by all observers of the loop.
\<close>
theorem posted_tasks_run_in_order:
  assumes "platform_ok P" "quiet P act" "queues_inv k s" "queue_entries_m s q = Some e" "q \<noteq> unmerged" "queue_of s q = []"
    "wakeable e \<noteq> None" "\<not> terminated_m s q" "k + length fs \<le> 2 ^ 32" "length fs < n" "f \<in> set fs" "stops P q f"
  shows "\<exists>t. post_and_run P n q fs s = Ret True t \<and>
    app t = fold (\<lambda>f w. fold act (map snd (task_observers e)) (act f w)) fs (app s)"
proof -
  have ne: "fs \<noteq> [] \<or> timers s q \<noteq> None" using assms(11) by auto
  have due: "all_due P q s" using assms(6) by (simp add: all_due_def)
  obtain u e' where u: "post_all P q fs s = Ret () u" "queues_inv (k + length fs) u" "\<not> terminated_m u q" "all_due P q u"
      "map task_m (queue_of u q) = fs" "app u = app s" "timers u q \<noteq> None" "queue_entries_m u q = Some e'"
      "task_observers e' = task_observers e"
    using post_all_works [OF assms(1,5,3,9,4,8) due assms(7) ne] assms(6) by auto
  have all: "takeWhile (\<lambda>d. target_time_m d \<le> now) (queue_of u q) = queue_of u q" if "clock P (clock_reads u) \<le> now" for now
    using u(4) that by (auto simp: all_due_def takeWhile_eq_all_conv)
  have n: "length (queue_of u q) < n" using arg_cong [OF u(5), of length] assms(10) by simp
  obtain d where d: "d \<in> set (queue_of u q)" "task_m d = f" using assms(11) u(5) by (metis in_set_conv_nth length_map nth_map)
  obtain t now where t: "DoRun P n [[]] q u = Ret True t" "clock P (clock_reads u) \<le> now"
      "app t = fold (observed act e') (takeWhile (\<lambda>d. target_time_m d \<le> now) (queue_of u q)) (app u)"
    using DoRun_returns [OF assms(1,2) u(2,8) assms(5) n u(3,7), of d] all [of "clock P (clock_reads u)"] d assms(12) by auto
  have "fold (observed act e') xs w = fold (\<lambda>f w. fold act (map snd (task_observers e)) (act f w)) (map task_m xs) w" for xs w
    by (induction xs arbitrary: w) (simp_all add: observed_def u(9))
  then show ?thesis using t u(1,5,6) all [OF t(2)] by (auto simp: post_and_run_def)
qed

theorem posted_tasks_run_in_order_witness:
  "\<exists>t. post_and_run stop_platform 4 0 [5, 6, 7] start_runtime = Ret True t \<and> app t = [5, 6, 7]"
proof -
  let ?e = "(new_entry 0)\<lparr>wakeable := Some 0\<rparr> :: nat TaskQueueEntry"
  have "queue_entries_m start_runtime 0 = Some ?e" "queue_of start_runtime 0 = []" "\<not> terminated_m start_runtime 0" "app start_runtime = []"
    by (simp_all add: start_runtime_def queue_of_def new_entry_def)
  then show ?thesis
    using posted_tasks_run_in_order [OF stop_platform_ok stop_platform_quiet start_runtime_inv, of 0 ?e "[5, 6, 7]" 4 7] stop_platform_stops
    by (simp add: unmerged_def new_entry_def)
qed

end
